(* ===== verification/Prelude.thy ===== *)
theory Prelude
  imports Main
begin

text \<open>
  Shared ground of the development: the error values that stand for the
  exceptions of the program, the list operations that stand for SQL statements
  on a table (select, conditional update, row count), Python dictionaries that
  keep their insertion order, and the canonical text of a UUID.  The collections
  declared here gather the facts that \<open>simp add:\<close> uses in the component proofs.
\<close>

named_theorems row_simps \<open>facts about table rows under updates\<close>
named_theorems frame_simps \<open>which parts of the database an operation leaves alone\<close>
named_theorems result_simps \<open>equations for the values operations return\<close>

section \<open>Errors\<close>

text \<open>
  One constructor per exception class the modelled code raises, lets through or
  catches; the message is kept where the code builds one.
\<close>

datatype py_error =
    ValueError string
  | RuntimeError string
  | ZoneInfoNotFoundError string
  | OverflowError
  | ValidationError string
  | EventIngestionValidationError string
  | TaskStateConflictError string
  | IntegrityError
  | DataError
  | AttributeError
  | HTTPException nat string

section \<open>Tables as lists of rows\<close>

text \<open>
  A table is the list of its rows in insertion order.  \<open>update_where\<close> is
  \<open>UPDATE ... SET ... WHERE\<close>, \<open>rowcount\<close> the number of rows it matched, and
  \<open>find\<close> the \<open>session.scalar\<close> of a select: the first row, or \<open>None\<close>.
\<close>

definition update_where :: "('r \<Rightarrow> bool) \<Rightarrow> ('r \<Rightarrow> 'r) \<Rightarrow> 'r list \<Rightarrow> 'r list" where
  "update_where P f rows = map (\<lambda>r. if P r then f r else r) rows"

definition rowcount :: "('r \<Rightarrow> bool) \<Rightarrow> 'r list \<Rightarrow> nat" where
  "rowcount P rows = length (filter P rows)"

lemma update_where_Nil [simp]: "update_where P f [] = []"
  by (simp add: update_where_def)

lemma update_where_Cons [simp]:
  "update_where P f (r # rs) = (if P r then f r else r) # update_where P f rs"
  by (simp add: update_where_def)

lemma update_where_append [simp]:
  "update_where P f (xs @ ys) = update_where P f xs @ update_where P f ys"
  by (simp add: update_where_def)

lemma length_update_where [simp]: "length (update_where P f rows) = length rows"
  by (simp add: update_where_def)

lemma map_update_where [row_simps]:
  assumes "\<And>r. g (f r) = g r"
  shows "map g (update_where P f rows) = map g rows"
  using assms by (induction rows) auto

lemma update_where_none [row_simps]:
  "(\<And>r. r \<in> set rows \<Longrightarrow> \<not> P r) \<Longrightarrow> update_where P f rows = rows"
  by (induction rows) auto

lemma in_update_where:
  "r' \<in> set (update_where P f rows) \<longleftrightarrow>
     (\<exists>r\<in>set rows. r' = (if P r then f r else r))"
  by (auto simp: update_where_def)

lemma in_update_whereE:
  assumes "r' \<in> set (update_where P f rows)"
  obtains r where "r \<in> set rows" and "r' = (if P r then f r else r)"
  using assms by (auto simp: in_update_where)

lemma rowcount_pos_iff: "0 < rowcount P rows \<longleftrightarrow> (\<exists>r\<in>set rows. P r)"
  by (auto simp: rowcount_def filter_empty_conv)

lemma rowcount_zero_iff: "rowcount P rows = 0 \<longleftrightarrow> (\<forall>r\<in>set rows. \<not> P r)"
  by (auto simp: rowcount_def filter_empty_conv)

lemma rowcount_append [simp]: "rowcount P (xs @ ys) = rowcount P xs + rowcount P ys"
  by (simp add: rowcount_def)

lemma rowcount_Nil [simp]: "rowcount P [] = 0"
  by (simp add: rowcount_def)

lemma rowcount_Cons [simp]:
  "rowcount P (x # xs) = (if P x then Suc (rowcount P xs) else rowcount P xs)"
  by (simp add: rowcount_def)

text \<open>With distinct keys a select by key finds the one row that has it.\<close>

lemma find_Some_in: "find P xs = Some x \<Longrightarrow> x \<in> set xs \<and> P x"
  by (induction xs) (auto split: if_splits)

lemma find_None_ball: "find P xs = None \<longleftrightarrow> (\<forall>x\<in>set xs. \<not> P x)"
  by (induction xs) auto

lemma find_append_rows:
  "find P (xs @ ys) = (case find P xs of None \<Rightarrow> find P ys | Some x \<Rightarrow> Some x)"
  by (induction xs) auto

lemma find_by_key:
  assumes "distinct (map key xs)" and "x \<in> set xs"
  shows "find (\<lambda>r. key r = key x) xs = Some x"
  using assms by (induction xs) (auto simp: rev_image_eqI)

lemma key_row_unique:
  assumes "distinct (map key xs)" and "x \<in> set xs" and "y \<in> set xs" and "key x = key y"
  shows "x = y"
  using assms by (meson distinct_map inj_onD)

lemma rowcount_by_key:
  assumes "distinct (map key xs)" and "x \<in> set xs" and "P x"
  shows "rowcount (\<lambda>r. key r = key x \<and> P r) xs = 1"
  using assms
proof (induction xs)
  case Nil
  then show ?case by simp
next
  case (Cons y ys)
  show ?case
  proof (cases "y = x")
    case True
    with Cons.prems have "\<forall>r\<in>set ys. key r \<noteq> key x"
      by (auto simp: rev_image_eqI)
    then have "rowcount (\<lambda>r. key r = key x \<and> P r) ys = 0"
      by (simp add: rowcount_zero_iff)
    with True Cons.prems show ?thesis by simp
  next
    case False
    with Cons.prems have "x \<in> set ys" and "key y \<noteq> key x" by (auto simp: rev_image_eqI)
    with Cons show ?thesis by simp
  qed
qed

lemma update_where_twice:
  assumes "\<And>r. Q (f r) = Q r" and "\<And>r. f (f r) = f r"
  shows "update_where Q f (update_where P f rows) = update_where (\<lambda>r. P r \<or> Q r) f rows"
  using assms by (induction rows) auto

lemma update_where_cong:
  "(\<And>r. r \<in> set rows \<Longrightarrow> P r = Q r) \<Longrightarrow> update_where P f rows = update_where Q f rows"
  by (induction rows) auto

lemma find_update_where:
  assumes "\<And>r. P (f r) = P r"
  shows "find P (update_where Q f rows) = map_option (\<lambda>r. if Q r then f r else r) (find P rows)"
  using assms by (induction rows) auto

section \<open>Operations that may be replayed\<close>

text \<open>
  The interface of an operation with a durable replay guard.  \<open>seen\<close> tells from
  the state that the operation already ran, \<open>run\<close> is the operation and \<open>quiet\<close>
  the answer to a replay.  A provider promises that a run on a state that has seen
  it changes nothing, and that a successful run leaves a state that has.
\<close>

locale replay_guard =
  fixes seen :: "'s \<Rightarrow> bool"
    and run :: "'s \<Rightarrow> 'r \<times> 's"
    and quiet :: "'s \<Rightarrow> 'r"
    and success :: "'r \<Rightarrow> bool"
  assumes guard: "seen s \<Longrightarrow> run s = (quiet s, s)"
    and mark: "success (fst (run s)) \<Longrightarrow> seen (snd (run s))"
begin

lemma replay:
  "run s = (r, s') \<Longrightarrow> success r \<Longrightarrow> run s' = (quiet s', s')"
  using mark [of s] guard [of s'] by simp

lemma replays:
  assumes "run s = (r, s')" and "success r"
  shows "((\<lambda>s. snd (run s)) ^^ n) s' = s'"
  using replay [OF assms] by (induction n) auto

end

section \<open>Dictionaries that keep insertion order\<close>

fun dict_put :: "'k \<Rightarrow> 'v \<Rightarrow> ('k \<times> 'v) list \<Rightarrow> ('k \<times> 'v) list" where
  "dict_put k v [] = [(k, v)]"
| "dict_put k v ((k', v') # kvs) =
     (if k = k' then (k, v) # kvs else (k', v') # dict_put k v kvs)"

text \<open>\<open>{**d, k1: v1, ...}\<close>: the pairs of the second list override those of the first.\<close>

definition dict_merge :: "('k \<times> 'v) list \<Rightarrow> ('k \<times> 'v) list \<Rightarrow> ('k \<times> 'v) list" where
  "dict_merge d kvs = fold (\<lambda>(k, v). dict_put k v) kvs d"

lemma map_of_dict_put [simp]: "map_of (dict_put k v d) = (map_of d)(k \<mapsto> v)"
  by (induction k v d rule: dict_put.induct) (auto simp: fun_eq_iff)

lemma map_of_dict_merge: "map_of (dict_merge d kvs) = map_of d ++ map_of (rev kvs)"
  unfolding dict_merge_def
proof (induction kvs arbitrary: d)
  case Nil
  then show ?case by simp
next
  case (Cons kv kvs)
  then show ?case by (cases kv) (auto simp: map_add_def fun_eq_iff split: option.splits)
qed

section \<open>UUIDs and their text\<close>

text \<open>
  A UUID is the number it encodes.  \<open>uuid_str\<close> is \<open>str(uuid)\<close>: 32 lower-case
  hexadecimal digits in the groups 8-4-4-4-12.
\<close>

type_synonym uuid = nat

fun base16 :: "nat \<Rightarrow> nat list" where
  "base16 n = (if n < 16 then [n] else n mod 16 # base16 (n div 16))"

declare base16.simps [simp del]

definition hex_digit :: "nat \<Rightarrow> char" where
  "hex_digit d = ''0123456789abcdef'' ! d"

definition uuid_digits :: "uuid \<Rightarrow> nat list" where
  "uuid_digits n = (let ds = base16 n in ds @ replicate (32 - length ds) 0)"

definition uuid_hex :: "uuid \<Rightarrow> string" where
  "uuid_hex n = map hex_digit (rev (uuid_digits n))"

definition uuid_str :: "uuid \<Rightarrow> string" where
  "uuid_str n = (let h = uuid_hex n in
     take 8 h @ ''-'' @ take 4 (drop 8 h) @ ''-'' @ take 4 (drop 12 h) @ ''-''
       @ take 4 (drop 16 h) @ ''-'' @ drop 20 h)"

fun base16_value :: "nat list \<Rightarrow> nat" where
  "base16_value [] = 0"
| "base16_value (d # ds) = d + 16 * base16_value ds"

lemma base16_value_base16: "base16_value (base16 n) = n"
proof (induction n rule: base16.induct)
  case (1 n)
  then show ?case by (simp add: base16.simps [of n])
qed

lemma base16_value_pad [simp]: "base16_value (ds @ replicate k 0) = base16_value ds"
proof (induction ds)
  case Nil
  show ?case by (induction k) auto
next
  case (Cons d ds)
  then show ?case by simp
qed

lemma base16_digits: "\<forall>d\<in>set (base16 n). d < 16"
proof (induction n rule: base16.induct)
  case (1 n)
  then show ?case by (auto simp: base16.simps [of n])
qed

lemma uuid_digits_value: "base16_value (uuid_digits n) = n"
  by (simp add: uuid_digits_def Let_def base16_value_base16)

lemma uuid_digits_bound: "\<forall>d\<in>set (uuid_digits n). d < 16"
  using base16_digits [of n] by (auto simp: uuid_digits_def Let_def)

lemma hex_digit_inj: "inj_on hex_digit {..<16}"
proof -
  have "map hex_digit [0..<16] = ''0123456789abcdef''" by (simp add: hex_digit_def upt_rec)
  then have "distinct (map hex_digit [0..<16])" by simp
  then show ?thesis by (simp add: distinct_map atLeast0LessThan)
qed

lemma hex_digit_not_dash: "d < 16 \<Longrightarrow> hex_digit d \<noteq> CHR ''-''"
proof -
  assume "d < 16"
  then have "hex_digit d \<in> set ''0123456789abcdef''"
    unfolding hex_digit_def by (intro nth_mem) simp
  then show ?thesis by auto
qed

lemma uuid_hex_no_dash: "\<forall>c\<in>set (uuid_hex n). c \<noteq> CHR ''-''"
  using uuid_digits_bound [of n] by (auto simp: uuid_hex_def hex_digit_not_dash)

lemma uuid_groups:
  "xs = take 8 xs @ take 4 (drop 8 xs) @ take 4 (drop 12 xs) @ take 4 (drop 16 xs) @ drop 20 xs"
  using append_take_drop_id [of 8 xs] append_take_drop_id [of 4 "drop 8 xs"]
    append_take_drop_id [of 4 "drop 12 xs"] append_take_drop_id [of 4 "drop 16 xs"]
  by simp

lemma uuid_str_strip: "filter (\<lambda>c. c \<noteq> CHR ''-'') (uuid_str n) = uuid_hex n"
proof -
  let ?h = "uuid_hex n"
  have keep: "filter (\<lambda>c. c \<noteq> CHR ''-'') xs = xs" if "set xs \<subseteq> set ?h" for xs
    using that uuid_hex_no_dash [of n] by (induction xs) auto
  have part: "set (take k (drop m ?h)) \<subseteq> set ?h" for k m
    by (meson order_trans set_drop_subset set_take_subset)
  show ?thesis
    using uuid_groups [of ?h]
    by (simp add: uuid_str_def Let_def keep part set_drop_subset set_take_subset)
qed

lemma uuid_str_inj [simp]: "uuid_str m = uuid_str n \<longleftrightarrow> m = n"
proof
  assume "uuid_str m = uuid_str n"
  then have "uuid_hex m = uuid_hex n" by (metis uuid_str_strip)
  then have eq: "map hex_digit (rev (uuid_digits m)) = map hex_digit (rev (uuid_digits n))"
    by (simp add: uuid_hex_def)
  have "rev (uuid_digits m) = rev (uuid_digits n)"
  proof (rule map_inj_on [OF eq])
    show "inj_on hex_digit (set (rev (uuid_digits m)) \<union> set (rev (uuid_digits n)))"
      using uuid_digits_bound [of m] uuid_digits_bound [of n]
      by (intro inj_on_subset [OF hex_digit_inj]) auto
  qed
  then show "m = n" by (metis rev_rev_ident uuid_digits_value)
qed simp

end
