(* ===== verification/Py_Time.thy ===== *)
theory Py_Time
  imports Prelude
begin

text \<open>
  The part of Python's \<open>datetime\<close> and \<open>zoneinfo\<close> that the program uses.  A wall
  clock time is the number of microseconds since 0001-01-01 00:00, so its date
  is \<open>div\<close> and its time of day \<open>mod\<close> a day; a \<open>datetime\<close> adds the PEP 495 \<open>fold\<close>
  and its \<open>tzinfo\<close>, and a timestamp that may lack a zone is a \<open>py_datetime\<close>.
  A zone is the content of one tz database entry: the first offset and the
  transitions (UTC instant, offset from then on).  The database itself is not
  part of the program; it is the parameter \<open>tzdb\<close> of the definitions that
  resolve zone names.
\<close>

section \<open>Units, dates and times of day\<close>

type_synonym usec = int

abbreviation seconds :: "int \<Rightarrow> usec" where "seconds n \<equiv> n * 1000000"
abbreviation minutes :: "int \<Rightarrow> usec" where "minutes n \<equiv> n * 60000000"
abbreviation hours :: "int \<Rightarrow> usec" where "hours n \<equiv> n * 3600000000"
abbreviation days :: "int \<Rightarrow> usec" where "days n \<equiv> n * 86400000000"

definition date_of :: "usec \<Rightarrow> int" where
  "date_of w = w div days 1"

definition time_of :: "usec \<Rightarrow> usec" where
  "time_of w = w mod days 1"

lemma wall_split: "w = days (date_of w) + time_of w"
  by (simp add: date_of_def time_of_def)

lemma time_of_range: "0 \<le> time_of w" "time_of w < days 1"
  by (simp_all add: time_of_def)

lemma date_time_combine [simp]:
  assumes "0 \<le> t" and "t < days 1"
  shows "date_of (days d + t) = d" and "time_of (days d + t) = t"
  using assms by (simp_all add: date_of_def time_of_def)

text \<open>\<open>date.max\<close> is 9999-12-31, the day with index 3652058; day 0 is a Monday.\<close>

definition days_in_range :: int where
  "days_in_range = 3652059"

definition wall_ok :: "usec \<Rightarrow> bool" where
  "wall_ok w \<longleftrightarrow> 0 \<le> w \<and> w < days days_in_range"

definition weekday :: "int \<Rightarrow> int" where
  "weekday d = d mod 7"

section \<open>Zones\<close>

record zone =
  first_offset :: usec
  transitions :: "(usec \<times> usec) list"

datatype tzinfo = FixedOffset usec | ZoneInfo string zone

record datetime =
  dt_wall :: usec
  dt_fold :: bool
  dt_tzinfo :: tzinfo

datatype py_datetime = Naive usec | Aware datetime

text \<open>
  \<open>ZoneInfo.fromutc\<close>: the offset in force at a UTC instant, with the fold bit set
  while the wall clock repeats after a transition to a smaller offset.
\<close>

fun utc_scan :: "usec \<Rightarrow> bool \<Rightarrow> (usec \<times> usec) list \<Rightarrow> usec \<Rightarrow> usec \<times> bool" where
  "utc_scan off fd [] u = (off, fd)"
| "utc_scan off fd ((t, off') # ts) u =
     (if t \<le> u then utc_scan off' (off - off' > u - t) ts u else (off, fd))"

text \<open>
  \<open>ZoneInfo.utcoffset\<close>: the offset of a wall time.  With fold 0 a transition takes
  effect at its instant plus the larger of the two offsets, with fold 1 plus the
  smaller.
\<close>

fun wall_scan :: "bool \<Rightarrow> usec \<Rightarrow> (usec \<times> usec) list \<Rightarrow> usec \<Rightarrow> usec" where
  "wall_scan fd off [] w = off"
| "wall_scan fd off ((t, off') # ts) w =
     (if t + (if fd then min off off' else max off off') \<le> w
      then wall_scan fd off' ts w else off)"

fun utcoffset :: "tzinfo \<Rightarrow> usec \<Rightarrow> bool \<Rightarrow> usec" where
  "utcoffset (FixedOffset off) w fd = off"
| "utcoffset (ZoneInfo key z) w fd = wall_scan fd (first_offset z) (transitions z) w"

fun utc_to_wall :: "tzinfo \<Rightarrow> usec \<Rightarrow> usec \<times> bool" where
  "utc_to_wall (FixedOffset off) u = (u + off, False)"
| "utc_to_wall (ZoneInfo key z) u =
     (let (off, fd) = utc_scan (first_offset z) False (transitions z) u in (u + off, fd))"

text \<open>The UTC instant a datetime denotes, which is what a timestamptz column stores.\<close>

definition instant :: "datetime \<Rightarrow> usec" where
  "instant dt = dt_wall dt - utcoffset (dt_tzinfo dt) (dt_wall dt) (dt_fold dt)"

definition utc :: tzinfo where
  "utc = FixedOffset 0"

definition utc_datetime :: "usec \<Rightarrow> datetime" where
  "utc_datetime u = \<lparr>dt_wall = u, dt_fold = False, dt_tzinfo = utc\<rparr>"

lemma instant_utc_datetime [simp]: "instant (utc_datetime u) = u"
  by (simp add: instant_def utc_datetime_def utc_def)

section \<open>Operations on aware datetimes\<close>

text \<open>
  \<open>datetime + timedelta\<close> moves the wall clock, drops the fold and raises
  \<open>OverflowError\<close> outside years 1 to 9999.
\<close>

definition dt_add :: "datetime \<Rightarrow> usec \<Rightarrow> py_error + datetime" where
  "dt_add dt d =
     (if wall_ok (dt_wall dt + d)
      then Inr (dt\<lparr>dt_wall := dt_wall dt + d, dt_fold := False\<rparr>)
      else Inl OverflowError)"

text \<open>
  \<open>astimezone\<close> returns the datetime itself when it already has that zone (equal
  \<open>ZoneInfo\<close> keys are one cached object), else it converts through UTC.
\<close>

definition astimezone :: "datetime \<Rightarrow> tzinfo \<Rightarrow> py_error + datetime" where
  "astimezone dt tz =
     (if dt_tzinfo dt = tz then Inr dt
      else let u = instant dt; (w, fd) = utc_to_wall tz u in
        if wall_ok u \<and> wall_ok w
        then Inr \<lparr>dt_wall = w, dt_fold = fd, dt_tzinfo = tz\<rparr>
        else Inl OverflowError)"

text \<open>\<open>replace(hour=h, minute=m, second=0, microsecond=0)\<close> keeps date, fold and zone.\<close>

definition replace_time :: "datetime \<Rightarrow> usec \<Rightarrow> datetime" where
  "replace_time dt t = dt\<lparr>dt_wall := days (date_of (dt_wall dt)) + t\<rparr>"

text \<open>\<open>datetime.combine(date, time, tzinfo=tz)\<close>.\<close>

definition combine :: "int \<Rightarrow> usec \<Rightarrow> tzinfo \<Rightarrow> datetime" where
  "combine d t tz = \<lparr>dt_wall = days d + t, dt_fold = False, dt_tzinfo = tz\<rparr>"

section \<open>ISO 8601 text\<close>

text \<open>
  \<open>datetime.isoformat()\<close>: year, month and day of a date index by the cycles of
  400, 100, 4 and 1 years, then the time of day, the microseconds when there are
  any, and the UTC offset.
\<close>

definition days_before_month :: "int \<Rightarrow> int" where
  "days_before_month m =
     [-1, 0, 31, 59, 90, 120, 151, 181, 212, 243, 273, 304, 334] ! nat m"

definition days_in_month :: "int \<Rightarrow> int" where
  "days_in_month m = [-1, 31, 28, 31, 30, 31, 30, 31, 31, 30, 31, 30, 31] ! nat m"

definition ymd_of_date :: "int \<Rightarrow> int \<times> int \<times> int" where
  "ymd_of_date d =
     (let n400 = d div 146097; n = d mod 146097;
          n100 = n div 36524; n = n mod 36524;
          n4 = n div 1461; n = n mod 1461;
          n1 = n div 365; n = n mod 365;
          year = n400 * 400 + 1 + n100 * 100 + n4 * 4 + n1
      in if n1 = 4 \<or> n100 = 4 then (year - 1, 12, 31)
         else let leap = (if n1 = 3 \<and> (n4 \<noteq> 24 \<or> n100 = 3) then 1 else 0);
                  month = (n + 50) div 32;
                  preceding = days_before_month month + (if 2 < month then leap else 0)
              in if n < preceding
                 then (year, month - 1,
                   n - (preceding - (days_in_month (month - 1) + (if month - 1 = 2 then leap else 0))) + 1)
                 else (year, month, n - preceding + 1))"

fun padded :: "nat \<Rightarrow> int \<Rightarrow> string" where
  "padded 0 n = []"
| "padded (Suc k) n = padded k (n div 10) @ [hex_digit (nat (n mod 10))]"

definition clock_text :: "usec \<Rightarrow> string" where
  "clock_text t = padded 2 (t div hours 1) @ '':'' @ padded 2 (t mod hours 1 div minutes 1)"

definition offset_text :: "usec \<Rightarrow> string" where
  "offset_text off =
     (let a = \<bar>off\<bar>; s = a mod minutes 1 div seconds 1; us = a mod seconds 1
      in (if off < 0 then ''-'' else ''+'') @ clock_text a
         @ (if s = 0 \<and> us = 0 then [] else '':'' @ padded 2 s)
         @ (if us = 0 then [] else ''.'' @ padded 6 us))"

definition naive_isoformat :: "usec \<Rightarrow> string" where
  "naive_isoformat w =
     (let (y, m, d) = ymd_of_date (date_of w); t = time_of w; us = t mod seconds 1
      in padded 4 y @ ''-'' @ padded 2 m @ ''-'' @ padded 2 d @ ''T'' @ clock_text t
         @ '':'' @ padded 2 (t mod minutes 1 div seconds 1)
         @ (if us = 0 then [] else ''.'' @ padded 6 us))"

definition isoformat :: "datetime \<Rightarrow> string" where
  "isoformat dt = naive_isoformat (dt_wall dt)
     @ offset_text (utcoffset (dt_tzinfo dt) (dt_wall dt) (dt_fold dt))"

fun py_isoformat :: "py_datetime \<Rightarrow> string" where
  "py_isoformat (Naive w) = naive_isoformat w"
| "py_isoformat (Aware dt) = isoformat dt"

section \<open>Facts the components use\<close>

lemma dt_add_Inr: "dt_add dt d = Inr r \<Longrightarrow>
    dt_wall r = dt_wall dt + d \<and> dt_tzinfo r = dt_tzinfo dt \<and> \<not> dt_fold r"
  by (auto simp: dt_add_def split: if_splits)

lemma astimezone_tzinfo: "astimezone dt tz = Inr r \<Longrightarrow> dt_tzinfo r = tz"
  by (auto simp: astimezone_def Let_def split: if_splits prod.splits)

lemma astimezone_self [simp]: "dt_tzinfo dt = tz \<Longrightarrow> astimezone dt tz = Inr dt"
  by (simp add: astimezone_def)

lemma replace_time_simps [simp]:
  "dt_tzinfo (replace_time dt t) = dt_tzinfo dt"
  "dt_fold (replace_time dt t) = dt_fold dt"
  by (simp_all add: replace_time_def)

lemma replace_time_wall:
  assumes "0 \<le> t" and "t < days 1"
  shows "date_of (dt_wall (replace_time dt t)) = date_of (dt_wall dt)"
    and "time_of (dt_wall (replace_time dt t)) = t"
  using assms by (simp_all add: replace_time_def)

end
