(* ===== verification/Models.thy ===== *)
theory Models
  imports Py_Time "HOL-Library.Product_Lexorder"
begin

text \<open>
  \<open>src/orchestrator/models.py\<close>: the enumerations with their stored values, one
  record per table row, the database as the six tables, and the environment of
  a run.  Field names carry a prefix for their table because record fields share
  one name space.  The bookkeeping column \<open>updated_at\<close>, which no decision of the
  program reads, is left out.

  The environment \<open>env\<close> holds what the program takes from outside: the tz database,
  the SHA-256 digest, the clocks (\<open>datetime.now(UTC)\<close> read for the n-th audit row
  and at the start of a pass, \<open>func.now()\<close> of the transaction), the order in which
  the database returns the rows of a select without \<open>ORDER BY\<close>, and whether the
  database enforces column sizes, as PostgreSQL does and SQLite does not.
\<close>

section \<open>Enumerations\<close>

datatype account_status = CURRENT | DELINQUENT | RESOLVED | PAUSED

datatype inbound_event_status = RECEIVED | PROCESSED | EVENT_FAILED

datatype outreach_channel = CALL | SMS | EMAIL

datatype outreach_task_status =
  SCHEDULED | BLOCKED | DISPATCHING | SENT | FAILED | CANCELLED

datatype policy_outcome = ALLOW | BLOCK | DEFER

datatype audit_actor_type = SYSTEM | API_CLIENT | WORKER | POLICY_ENGINE

fun account_status_value :: "account_status \<Rightarrow> string" where
  "account_status_value CURRENT = ''current''"
| "account_status_value DELINQUENT = ''delinquent''"
| "account_status_value RESOLVED = ''resolved''"
| "account_status_value PAUSED = ''paused''"

fun channel_value :: "outreach_channel \<Rightarrow> string" where
  "channel_value CALL = ''call''"
| "channel_value SMS = ''sms''"
| "channel_value EMAIL = ''email''"

fun task_status_value :: "outreach_task_status \<Rightarrow> string" where
  "task_status_value SCHEDULED = ''scheduled''"
| "task_status_value BLOCKED = ''blocked''"
| "task_status_value DISPATCHING = ''dispatching''"
| "task_status_value SENT = ''sent''"
| "task_status_value FAILED = ''failed''"
| "task_status_value CANCELLED = ''cancelled''"

fun outcome_value :: "policy_outcome \<Rightarrow> string" where
  "outcome_value ALLOW = ''allow''"
| "outcome_value BLOCK = ''block''"
| "outcome_value DEFER = ''defer''"

lemma channel_value_inj [simp]: "channel_value a = channel_value b \<longleftrightarrow> a = b"
  by (cases a; cases b) auto

lemma task_status_value_inj [simp]: "task_status_value a = task_status_value b \<longleftrightarrow> a = b"
  by (cases a; cases b) auto

text \<open>
  Outcomes are ordered by how much they restrict: a block wins over a deferral and
  a deferral over an allow, so the verdict of several rules is their maximum.
\<close>

fun severity :: "policy_outcome \<Rightarrow> nat" where
  "severity ALLOW = 0"
| "severity DEFER = 1"
| "severity BLOCK = 2"

instantiation policy_outcome :: linorder
begin

definition less_eq_policy_outcome :: "policy_outcome \<Rightarrow> policy_outcome \<Rightarrow> bool" where
  "less_eq_policy_outcome a b \<longleftrightarrow> severity a \<le> severity b"

definition less_policy_outcome :: "policy_outcome \<Rightarrow> policy_outcome \<Rightarrow> bool" where
  "less_policy_outcome a b \<longleftrightarrow> severity a < severity b"

instance
proof
  fix x y :: policy_outcome
  show "x \<le> y \<Longrightarrow> y \<le> x \<Longrightarrow> x = y"
    by (cases x; cases y) (simp_all add: less_eq_policy_outcome_def)
qed (auto simp: less_eq_policy_outcome_def less_policy_outcome_def)

end

section \<open>JSON values\<close>

datatype json =
    JNull
  | JBool bool
  | JInt int
  | JDecimal int int
  | JStr string
  | JList "json list"
  | JObj "(string \<times> json) list"

type_synonym payload = "(string \<times> json) list"

section \<open>Rows\<close>

record customer =
  cust_id :: uuid
  cust_external_id :: string
  cust_full_name :: string
  cust_timezone :: string
  cust_phone_number :: "string option"
  cust_email :: "string option"
  cust_sms_consent :: bool
  cust_call_consent :: bool
  cust_email_consent :: bool
  cust_opted_out :: bool
  cust_created_at :: usec

record account =
  acct_id :: uuid
  acct_external_id :: string
  acct_customer_id :: uuid
  acct_status :: account_status
  acct_balance_cents :: int
  acct_days_past_due :: int
  acct_created_at :: usec

record inbound_event =
  ev_id :: uuid
  ev_source :: string
  ev_external_id :: string
  ev_event_type :: string
  ev_customer_external_id :: string
  ev_account_external_id :: string
  ev_payload :: payload
  ev_received_at :: usec
  ev_idempotency_key :: string
  ev_processing_status :: inbound_event_status

record policy_decision =
  pd_id :: uuid
  pd_account_id :: uuid
  pd_customer_id :: uuid
  pd_inbound_event_id :: "uuid option"
  pd_decision :: policy_outcome
  pd_channel :: "outreach_channel option"
  pd_reasons :: "string list"
  pd_evaluated_at :: usec

record outreach_task =
  task_id :: uuid
  task_account_id :: uuid
  task_customer_id :: uuid
  task_channel :: outreach_channel
  task_correlation_id :: uuid
  task_status :: outreach_task_status
  task_scheduled_at :: usec
  task_attempt_count :: int
  task_max_attempts :: int
  task_idempotency_key :: string
  task_policy_decision_id :: "uuid option"
  task_last_error :: "string option"
  task_created_at :: usec

record audit_event =
  ae_id :: uuid
  ae_entity_type :: string
  ae_entity_id :: string
  ae_event_type :: string
  ae_actor_type :: audit_actor_type
  ae_actor_id :: "string option"
  ae_correlation_id :: uuid
  ae_payload :: payload
  ae_created_at :: usec

section \<open>The database, a session on it, and the environment\<close>

record db =
  customers :: "customer list"
  accounts :: "account list"
  inbound_events :: "inbound_event list"
  policy_decisions :: "policy_decision list"
  outreach_tasks :: "outreach_task list"
  audit_events :: "audit_event list"
  next_uuid :: uuid

definition empty_db :: db where
  "empty_db = \<lparr>customers = [], accounts = [], inbound_events = [], policy_decisions = [],
     outreach_tasks = [], audit_events = [], next_uuid = 0\<rparr>"

record env =
  tzdb :: "string \<Rightarrow> py_error + zone"
  sha256_hexdigest :: "string \<Rightarrow> string"
  py_now :: "nat \<Rightarrow> usec"
  start_now :: usec
  txn_now :: usec
  scan_order :: "outreach_task list \<Rightarrow> outreach_task list"
  strict_columns :: bool

text \<open>
  \<open>uuid4()\<close> returns an identifier that no row has; the counter stands for the random
  source, whose collisions are ignored.
\<close>

definition uuid4 :: "db \<Rightarrow> uuid \<times> db" where
  "uuid4 d = (next_uuid d, d\<lparr>next_uuid := Suc (next_uuid d)\<rparr>)"

text \<open>
  A session works on \<open>pending\<close>, its view with the changes it has flushed, and \<open>store\<close>
  is what is committed.  An exception leaves \<open>pending\<close> as it is; the rows are lost
  when the session rolls back or closes.
\<close>

record session =
  store :: db
  pending :: db

definition open_session :: "db \<Rightarrow> session" where
  "open_session d = \<lparr>store = d, pending = d\<rparr>"

definition commit :: "session \<Rightarrow> session" where
  "commit s = s\<lparr>store := pending s\<rparr>"

definition rollback :: "session \<Rightarrow> session" where
  "rollback s = s\<lparr>pending := store s\<rparr>"

lemma session_simps [simp]:
  "store (open_session d) = d" "pending (open_session d) = d"
  "store (commit s) = pending s" "pending (commit s) = pending s"
  "store (rollback s) = store s" "pending (rollback s) = store s"
  by (simp_all add: open_session_def commit_def rollback_def)

section \<open>Column sizes\<close>

text \<open>
  The declared sizes of the columns that receive values from outside:
  \<open>String(n)\<close> holds at most n characters and \<open>Integer\<close> is a 32-bit integer.
\<close>

definition varchar :: "nat \<Rightarrow> string \<Rightarrow> bool" where
  "varchar n s \<longleftrightarrow> length s \<le> n"

definition nullable_varchar :: "nat \<Rightarrow> string option \<Rightarrow> bool" where
  "nullable_varchar n v \<longleftrightarrow> (case v of None \<Rightarrow> True | Some s \<Rightarrow> varchar n s)"

definition int4 :: "int \<Rightarrow> bool" where
  "int4 n \<longleftrightarrow> - (2 ^ 31) \<le> n \<and> n < 2 ^ 31"

definition customer_fits :: "customer \<Rightarrow> bool" where
  "customer_fits c \<longleftrightarrow> varchar 255 (cust_external_id c) \<and> varchar 255 (cust_full_name c)
     \<and> varchar 64 (cust_timezone c) \<and> nullable_varchar 64 (cust_phone_number c)
     \<and> nullable_varchar 255 (cust_email c)"

definition account_fits :: "account \<Rightarrow> bool" where
  "account_fits a \<longleftrightarrow> varchar 255 (acct_external_id a) \<and> int4 (acct_balance_cents a)
     \<and> int4 (acct_days_past_due a)"

definition event_fits :: "inbound_event \<Rightarrow> bool" where
  "event_fits e \<longleftrightarrow> varchar 255 (ev_source e) \<and> varchar 255 (ev_external_id e)
     \<and> varchar 255 (ev_event_type e) \<and> varchar 255 (ev_customer_external_id e)
     \<and> varchar 255 (ev_account_external_id e) \<and> varchar 255 (ev_idempotency_key e)"

definition last_error_fits :: "string option \<Rightarrow> bool" where
  "last_error_fits v \<longleftrightarrow> nullable_varchar 1000 v"

end
