(* ===== verification/Audit_Log.thy ===== *)
theory Audit_Log
  imports Models
begin

text \<open>
  \<open>src/orchestrator/domain/audit_log.py\<close>, the only writer of audit rows, and the
  listing of \<open>src/orchestrator/api/audit.py\<close>.  The append flushes inside the
  transaction of its caller and never commits, so it is a function on the
  pending database.
\<close>

definition append_audit_event ::
  "env \<Rightarrow> db \<Rightarrow> string \<Rightarrow> string \<Rightarrow> string \<Rightarrow> audit_actor_type \<Rightarrow> uuid \<Rightarrow> string option
     \<Rightarrow> payload option \<Rightarrow> audit_event \<times> db" where
  "append_audit_event E d entity_type entity_id event_type actor_type correlation_id actor_id payload =
     (let (i, d1) = uuid4 d;
          row = \<lparr>ae_id = i, ae_entity_type = entity_type, ae_entity_id = entity_id,
            ae_event_type = event_type, ae_actor_type = actor_type, ae_actor_id = actor_id,
            ae_correlation_id = correlation_id,
            ae_payload = (case payload of None \<Rightarrow> [] | Some p \<Rightarrow> p),
            ae_created_at = py_now E (length (audit_events d))\<rparr>
      in (row, d1\<lparr>audit_events := audit_events d1 @ [row]\<rparr>))"

definition list_audit_events :: "uuid option \<Rightarrow> db \<Rightarrow> audit_event list" where
  "list_audit_events correlation_id d =
     (let rows = (case correlation_id of None \<Rightarrow> audit_events d
        | Some c \<Rightarrow> filter (\<lambda>r. ae_correlation_id r = c) (audit_events d))
      in sort_key (\<lambda>r. (ae_created_at r, ae_id r)) rows)"

text \<open>An append adds one row at the end and touches nothing else.\<close>

lemma append_audit_event_frame [frame_simps]:
  "customers (snd (append_audit_event E d et ei ev at c ai p)) = customers d"
  "accounts (snd (append_audit_event E d et ei ev at c ai p)) = accounts d"
  "inbound_events (snd (append_audit_event E d et ei ev at c ai p)) = inbound_events d"
  "policy_decisions (snd (append_audit_event E d et ei ev at c ai p)) = policy_decisions d"
  "outreach_tasks (snd (append_audit_event E d et ei ev at c ai p)) = outreach_tasks d"
  "next_uuid (snd (append_audit_event E d et ei ev at c ai p)) = Suc (next_uuid d)"
  by (simp_all add: append_audit_event_def uuid4_def Let_def)

lemma append_audit_event_row [frame_simps]:
  "audit_events (snd (append_audit_event E d et ei ev at c ai p)) = audit_events d @
     [\<lparr>ae_id = next_uuid d, ae_entity_type = et, ae_entity_id = ei, ae_event_type = ev,
       ae_actor_type = at, ae_actor_id = ai, ae_correlation_id = c,
       ae_payload = (case p of None \<Rightarrow> [] | Some p \<Rightarrow> p),
       ae_created_at = py_now E (length (audit_events d))\<rparr>]"
  by (simp add: append_audit_event_def uuid4_def Let_def)

lemma append_audit_event_eq:
  "snd (append_audit_event E d et ei ev at c ai p) =
     d\<lparr>audit_events := audit_events (snd (append_audit_event E d et ei ev at c ai p)),
       next_uuid := Suc (next_uuid d)\<rparr>"
  by (simp add: append_audit_event_def uuid4_def Let_def)

end
