(* ===== verification/Samples.thy ===== *)
theory Samples
  imports Models
begin

text \<open>
  A concrete environment for the witnesses: the 2026 transitions of
  America/New_York, clocks on 2026-05-28, a database that returns rows in
  insertion order and enforces column sizes, and a digest that is the identity,
  which is enough where a witness needs distinct keys.
\<close>

definition new_york :: zone where
  "new_york = \<lparr>first_offset = hours (-5),
     transitions = [(days 739682 + hours 7, hours (-4)), (days 739920 + hours 6, hours (-5))]\<rparr>"

definition sample_tzdb :: "string \<Rightarrow> py_error + zone" where
  "sample_tzdb key = (if key = ''America/New_York'' then Inr new_york
     else Inl (ZoneInfoNotFoundError key))"

definition sample_env :: env where
  "sample_env = \<lparr>tzdb = sample_tzdb, sha256_hexdigest = (\<lambda>s. s),
     py_now = (\<lambda>n. days 739763 + hours 14 + seconds (int n)),
     start_now = days 739763 + hours 14, txn_now = days 739763 + hours 14,
     scan_order = (\<lambda>ts. ts), strict_columns = True\<rparr>"

text \<open>
  A small database: one customer who consents to every channel with a delinquent
  account, and an event of a given type about them.
\<close>

definition sample_customer :: customer where
  "sample_customer = \<lparr>cust_id = 1, cust_external_id = ''c1'', cust_full_name = ''Ada'',
     cust_timezone = ''America/New_York'', cust_phone_number = None, cust_email = None,
     cust_sms_consent = True, cust_call_consent = True, cust_email_consent = True,
     cust_opted_out = False, cust_created_at = days 739763\<rparr>"

definition sample_account :: account where
  "sample_account = \<lparr>acct_id = 2, acct_external_id = ''a1'', acct_customer_id = 1,
     acct_status = DELINQUENT, acct_balance_cents = 12500, acct_days_past_due = 7,
     acct_created_at = days 739763\<rparr>"

definition sample_event :: "uuid \<Rightarrow> string \<Rightarrow> inbound_event" where
  "sample_event i event_type = \<lparr>ev_id = i, ev_source = ''crm'', ev_external_id = ''e'' @ uuid_str i,
     ev_event_type = event_type, ev_customer_external_id = ''c1'', ev_account_external_id = ''a1'',
     ev_payload = [], ev_received_at = days 739763, ev_idempotency_key = ''key'' @ uuid_str i,
     ev_processing_status = RECEIVED\<rparr>"

definition sample_task :: "uuid \<Rightarrow> outreach_task_status \<Rightarrow> outreach_task" where
  "sample_task i st = \<lparr>task_id = i, task_account_id = 2, task_customer_id = 1, task_channel = EMAIL,
     task_correlation_id = 0, task_status = st, task_scheduled_at = days 739763 + hours 14,
     task_attempt_count = 0, task_max_attempts = 3, task_idempotency_key = ''task'' @ uuid_str i,
     task_policy_decision_id = None, task_last_error = None, task_created_at = days 739763\<rparr>"

definition sample_db :: "inbound_event list \<Rightarrow> outreach_task list \<Rightarrow> db" where
  "sample_db evs ts = \<lparr>customers = [sample_customer], accounts = [sample_account],
     inbound_events = evs, policy_decisions = [], outreach_tasks = ts, audit_events = [],
     next_uuid = 9\<rparr>"

end
