(* ===== verification/Policy_Engine.thy ===== *)
theory Policy_Engine
  imports Samples
begin

text \<open>
  \<open>src/orchestrator/policy/engine.py\<close>: the pure policy evaluation.  An input holds
  every fact the decision depends on; the result names the outcome, the channel,
  the ordered reasons and, for a quiet-hours deferral, the next allowed time.
\<close>

section \<open>Inputs and results\<close>

definition OUTREACH_WINDOW_START :: usec where
  "OUTREACH_WINDOW_START = hours 9"

definition OUTREACH_WINDOW_END :: usec where
  "OUTREACH_WINDOW_END = hours 20"

record policy_input =
  pi_channel :: outreach_channel
  pi_scheduled_at :: datetime
  pi_customer_timezone :: string
  pi_sms_consent :: bool
  pi_call_consent :: bool
  pi_email_consent :: bool
  pi_opted_out :: bool
  pi_account_status :: account_status
  pi_recent_outbound_attempt_count :: int
  pi_frequency_cap :: int

record policy_result =
  res_decision :: policy_outcome
  res_channel :: outreach_channel
  res_reasons :: "string list"
  res_defer_until :: "datetime option"

text \<open>The validator of \<open>scheduled_at\<close>, and the construction of an input with its field checks.\<close>

fun scheduled_at_must_be_timezone_aware :: "py_datetime \<Rightarrow> py_error + datetime" where
  "scheduled_at_must_be_timezone_aware (Naive w) =
     Inl (ValidationError ''scheduled_at must be timezone-aware'')"
| "scheduled_at_must_be_timezone_aware (Aware dt) = Inr dt"

definition make_policy_input ::
  "outreach_channel \<Rightarrow> py_datetime \<Rightarrow> string \<Rightarrow> bool \<Rightarrow> bool \<Rightarrow> bool \<Rightarrow> bool \<Rightarrow> account_status
     \<Rightarrow> int \<Rightarrow> int \<Rightarrow> py_error + policy_input" where
  "make_policy_input channel scheduled_at customer_timezone sms call email opted status recent cap =
     (case scheduled_at_must_be_timezone_aware scheduled_at of
        Inl e \<Rightarrow> Inl e
      | Inr dt \<Rightarrow>
          if recent < 0 \<or> cap < 0
          then Inl (ValidationError ''Input should be greater than or equal to 0'')
          else Inr \<lparr>pi_channel = channel, pi_scheduled_at = dt,
            pi_customer_timezone = customer_timezone, pi_sms_consent = sms,
            pi_call_consent = call, pi_email_consent = email, pi_opted_out = opted,
            pi_account_status = status, pi_recent_outbound_attempt_count = recent,
            pi_frequency_cap = cap\<rparr>)"

section \<open>The rules\<close>

definition opt_out_block_reasons :: "policy_input \<Rightarrow> string list" where
  "opt_out_block_reasons pin = (if pi_opted_out pin then [''customer_opted_out''] else [])"

definition channel_consent_block_reasons :: "policy_input \<Rightarrow> string list" where
  "channel_consent_block_reasons pin =
     (if pi_channel pin = SMS \<and> \<not> pi_sms_consent pin then [''missing_sms_consent'']
      else if pi_channel pin = CALL \<and> \<not> pi_call_consent pin then [''missing_call_consent'']
      else if pi_channel pin = EMAIL \<and> \<not> pi_email_consent pin then [''missing_email_consent'']
      else [])"

definition account_status_block_reasons :: "policy_input \<Rightarrow> string list" where
  "account_status_block_reasons pin =
     (if pi_account_status pin = PAUSED then [''account_paused'']
      else if pi_account_status pin = RESOLVED then [''account_resolved'']
      else [])"

definition get_customer_timezone :: "env \<Rightarrow> string \<Rightarrow> py_error + tzinfo" where
  "get_customer_timezone E key =
     (case tzdb E key of
        Inr z \<Rightarrow> Inr (ZoneInfo key z)
      | Inl (ZoneInfoNotFoundError m) \<Rightarrow> Inl (ValueError (''Invalid customer_timezone: '' @ key))
      | Inl e \<Rightarrow> Inl e)"

definition quiet_hours_defer_until :: "env \<Rightarrow> policy_input \<Rightarrow> py_error + datetime option" where
  "quiet_hours_defer_until E pin =
     (if pi_channel pin = EMAIL then Inr None
      else case get_customer_timezone E (pi_customer_timezone pin) of
        Inl e \<Rightarrow> Inl e
      | Inr tz \<Rightarrow>
          (case astimezone (pi_scheduled_at pin) tz of
             Inl e \<Rightarrow> Inl e
           | Inr local \<Rightarrow>
               let t = time_of (dt_wall local) in
               if OUTREACH_WINDOW_START \<le> t \<and> t < OUTREACH_WINDOW_END then Inr None
               else if t < OUTREACH_WINDOW_START
               then Inr (Some (replace_time local OUTREACH_WINDOW_START))
               else (case dt_add local (days 1) of
                       Inl e \<Rightarrow> Inl e
                     | Inr next_day \<Rightarrow> Inr (Some (replace_time next_day OUTREACH_WINDOW_START)))))"

section \<open>The evaluation\<close>

definition evaluate_policy :: "env \<Rightarrow> policy_input \<Rightarrow> py_error + policy_result" where
  "evaluate_policy E pin =
     (let block_reasons = opt_out_block_reasons pin @ channel_consent_block_reasons pin
            @ account_status_block_reasons pin
      in if block_reasons \<noteq> []
         then Inr \<lparr>res_decision = BLOCK, res_channel = pi_channel pin,
                res_reasons = block_reasons, res_defer_until = None\<rparr>
         else case quiet_hours_defer_until E pin of
           Inl e \<Rightarrow> Inl e
         | Inr defer_until \<Rightarrow>
             let defer_reasons = (if defer_until \<noteq> None then [''quiet_hours''] else [])
                   @ (if pi_frequency_cap pin \<le> pi_recent_outbound_attempt_count pin
                      then [''frequency_cap_exceeded''] else [])
             in if defer_reasons \<noteq> []
                then Inr \<lparr>res_decision = DEFER, res_channel = pi_channel pin,
                       res_reasons = defer_reasons, res_defer_until = defer_until\<rparr>
                else Inr \<lparr>res_decision = ALLOW, res_channel = pi_channel pin,
                       res_reasons = [''policy_allowed''], res_defer_until = None\<rparr>)"

section \<open>What the rules say\<close>

text \<open>
  The conditions behind the reason strings: the consent flag of the proposed
  channel, the conditions that block, and the contact window on a wall time.
\<close>

definition channel_consent :: "policy_input \<Rightarrow> bool" where
  "channel_consent pin =
     (case pi_channel pin of SMS \<Rightarrow> pi_sms_consent pin | CALL \<Rightarrow> pi_call_consent pin
      | EMAIL \<Rightarrow> pi_email_consent pin)"

definition hard_block :: "policy_input \<Rightarrow> bool" where
  "hard_block pin \<longleftrightarrow> pi_opted_out pin \<or> \<not> channel_consent pin
     \<or> pi_account_status pin \<in> {PAUSED, RESOLVED}"

definition in_contact_window :: "usec \<Rightarrow> bool" where
  "in_contact_window w \<longleftrightarrow> OUTREACH_WINDOW_START \<le> time_of w \<and> time_of w < OUTREACH_WINDOW_END"

lemma block_reasons_empty_iff:
  "opt_out_block_reasons pin @ channel_consent_block_reasons pin
     @ account_status_block_reasons pin = [] \<longleftrightarrow> \<not> hard_block pin"
  by (auto simp: opt_out_block_reasons_def channel_consent_block_reasons_def
      account_status_block_reasons_def hard_block_def channel_consent_def
      split: outreach_channel.splits)

lemma evaluate_policy_blocked [result_simps]:
  "hard_block pin \<Longrightarrow> evaluate_policy E pin =
     Inr \<lparr>res_decision = BLOCK, res_channel = pi_channel pin,
       res_reasons = opt_out_block_reasons pin @ channel_consent_block_reasons pin
         @ account_status_block_reasons pin, res_defer_until = None\<rparr>"
  using block_reasons_empty_iff [of pin] by (simp add: evaluate_policy_def Let_def)

lemma evaluate_policy_unblocked [result_simps]:
  "\<not> hard_block pin \<Longrightarrow> evaluate_policy E pin =
     (case quiet_hours_defer_until E pin of
        Inl e \<Rightarrow> Inl e
      | Inr defer_until \<Rightarrow>
          let capped = pi_frequency_cap pin \<le> pi_recent_outbound_attempt_count pin
          in if defer_until \<noteq> None \<or> capped
             then Inr \<lparr>res_decision = DEFER, res_channel = pi_channel pin,
               res_reasons = (if defer_until \<noteq> None then [''quiet_hours''] else [])
                 @ (if capped then [''frequency_cap_exceeded''] else []),
               res_defer_until = defer_until\<rparr>
             else Inr \<lparr>res_decision = ALLOW, res_channel = pi_channel pin,
               res_reasons = [''policy_allowed''], res_defer_until = None\<rparr>)"
  using block_reasons_empty_iff [of pin]
  by (auto simp: evaluate_policy_def Let_def split: sum.splits)

lemma quiet_hours_email [result_simps]:
  "pi_channel pin = EMAIL \<Longrightarrow> quiet_hours_defer_until E pin = Inr None"
  by (simp add: quiet_hours_defer_until_def)

text \<open>The next opening after a wall time outside the window, and what lies before it.\<close>

lemma window_bounds: "OUTREACH_WINDOW_START = hours 9" "OUTREACH_WINDOW_END = hours 20"
  by (simp_all add: OUTREACH_WINDOW_START_def OUTREACH_WINDOW_END_def)

lemma same_day_opening:
  assumes "time_of w < OUTREACH_WINDOW_START"
    and "w \<le> v" and "v < days (date_of w) + OUTREACH_WINDOW_START"
  shows "\<not> in_contact_window v"
proof -
  have "date_of v = date_of w"
    using assms time_of_range [of w] wall_split [of w]
    by (simp add: date_of_def window_bounds)
  then show ?thesis
    using assms wall_split [of v] by (simp add: in_contact_window_def)
qed

lemma next_day_opening:
  assumes "OUTREACH_WINDOW_END \<le> time_of w"
    and "w \<le> v" and "v < days (date_of w + 1) + OUTREACH_WINDOW_START"
  shows "\<not> in_contact_window v"
proof (cases "v < days (date_of w + 1)")
  case True
  then have "date_of v = date_of w"
    using assms time_of_range [of w] wall_split [of w] by (simp add: date_of_def)
  then show ?thesis
    using assms wall_split [of w] wall_split [of v] by (simp add: in_contact_window_def)
next
  case False
  then have "date_of v = date_of w + 1"
    using assms by (simp add: date_of_def window_bounds)
  then show ?thesis
    using assms wall_split [of v] by (simp add: in_contact_window_def)
qed

lemma quiet_hours_defer_untilE:
  assumes "quiet_hours_defer_until E pin = Inr (Some u)"
  obtains tz local where "pi_channel pin \<noteq> EMAIL"
    and "get_customer_timezone E (pi_customer_timezone pin) = Inr tz"
    and "astimezone (pi_scheduled_at pin) tz = Inr local"
    and "dt_tzinfo u = tz"
    and "\<not> in_contact_window (dt_wall local)"
    and "time_of (dt_wall u) = OUTREACH_WINDOW_START"
    and "dt_wall u = (if time_of (dt_wall local) < OUTREACH_WINDOW_START
           then days (date_of (dt_wall local)) else days (date_of (dt_wall local) + 1))
         + OUTREACH_WINDOW_START"
proof -
  obtain tz local where *: "pi_channel pin \<noteq> EMAIL"
      "get_customer_timezone E (pi_customer_timezone pin) = Inr tz"
      "astimezone (pi_scheduled_at pin) tz = Inr local"
    using assms by (auto simp: quiet_hours_defer_until_def split: if_splits sum.splits)
  have tz: "dt_tzinfo local = tz" using *(3) by (rule astimezone_tzinfo)
  let ?t = "time_of (dt_wall local)"
  have out: "\<not> in_contact_window (dt_wall local)"
    using assms * by (auto simp: quiet_hours_defer_until_def in_contact_window_def Let_def)
  show thesis
  proof (cases "?t < OUTREACH_WINDOW_START")
    case True
    then have "u = replace_time local OUTREACH_WINDOW_START"
      using assms * by (simp add: quiet_hours_defer_until_def Let_def)
    with that [OF * _ out] True tz show thesis
      by (simp add: replace_time_def window_bounds)
  next
    case False
    then obtain nd where nd: "dt_add local (days 1) = Inr nd"
        and u: "u = replace_time nd OUTREACH_WINDOW_START"
      using assms * out
      by (auto simp: quiet_hours_defer_until_def in_contact_window_def Let_def split: sum.splits if_splits)
    have "date_of (dt_wall nd) = date_of (dt_wall local) + 1"
      using dt_add_Inr [OF nd] by (simp add: date_of_def)
    with that [OF * _ out] False tz u dt_add_Inr [OF nd] show thesis
      by (simp add: replace_time_def window_bounds)
  qed
qed

section \<open>Properties\<close>

text \<open>A hard block: the decision is BLOCK exactly when the customer opted out, the
  channel lacks its consent, or the account is paused or resolved; the reasons are
  listed in the order opt-out, consent, account, no later time is offered, and the
  zone of the customer is never looked at.\<close>

lemma evaluate_policy_block:
  "hard_block pin \<longleftrightarrow> evaluate_policy E pin =
     Inr \<lparr>res_decision = BLOCK, res_channel = pi_channel pin,
       res_reasons =
         (if pi_opted_out pin then [''customer_opted_out''] else [])
         @ (if channel_consent pin then []
            else [''missing_'' @ channel_value (pi_channel pin) @ ''_consent''])
         @ (if pi_account_status pin = PAUSED then [''account_paused'']
            else if pi_account_status pin = RESOLVED then [''account_resolved''] else []),
       res_defer_until = None\<rparr>"
proof
  assume "hard_block pin"
  then show "evaluate_policy E pin = Inr \<lparr>res_decision = BLOCK, res_channel = pi_channel pin,
       res_reasons =
         (if pi_opted_out pin then [''customer_opted_out''] else [])
         @ (if channel_consent pin then []
            else [''missing_'' @ channel_value (pi_channel pin) @ ''_consent''])
         @ (if pi_account_status pin = PAUSED then [''account_paused'']
            else if pi_account_status pin = RESOLVED then [''account_resolved''] else []),
       res_defer_until = None\<rparr>"
    by (cases "pi_channel pin")
      (auto simp: evaluate_policy_blocked opt_out_block_reasons_def
        channel_consent_block_reasons_def account_status_block_reasons_def channel_consent_def)
qed (auto simp: evaluate_policy_unblocked Let_def split: sum.splits if_splits intro: ccontr)

text \<open>An allow: without an error of the zone lookup, ALLOW is the decision exactly when
  nothing blocks, the count of recent attempts is below the cap, and the channel is
  email or the proposed time lies in the contact window of the customer's zone.\<close>

lemma evaluate_policy_allow:
  "(\<exists>r. evaluate_policy E pin = Inr r \<and> res_decision r = ALLOW) \<longleftrightarrow>
     \<not> hard_block pin
     \<and> pi_recent_outbound_attempt_count pin < pi_frequency_cap pin
     \<and> (pi_channel pin = EMAIL \<or>
        (\<exists>tz local. get_customer_timezone E (pi_customer_timezone pin) = Inr tz
           \<and> astimezone (pi_scheduled_at pin) tz = Inr local
           \<and> in_contact_window (dt_wall local)))"
proof (cases "hard_block pin")
  case True
  then show ?thesis by (simp add: evaluate_policy_blocked)
next
  case False
  have quiet: "quiet_hours_defer_until E pin = Inr None \<longleftrightarrow>
      pi_channel pin = EMAIL \<or>
        (\<exists>tz local. get_customer_timezone E (pi_customer_timezone pin) = Inr tz
           \<and> astimezone (pi_scheduled_at pin) tz = Inr local
           \<and> in_contact_window (dt_wall local))"
    by (auto simp: quiet_hours_defer_until_def in_contact_window_def Let_def
        split: sum.splits if_splits)
  have "(\<exists>r. evaluate_policy E pin = Inr r \<and> res_decision r = ALLOW) \<longleftrightarrow>
      quiet_hours_defer_until E pin = Inr None
      \<and> pi_recent_outbound_attempt_count pin < pi_frequency_cap pin"
    using False by (auto simp: evaluate_policy_unblocked Let_def split: sum.splits if_splits)
  with False show ?thesis by (auto simp: quiet)
qed

text \<open>C15. The decision is the most restrictive verdict of the five rules: a hard block wins
  over a deferral, and a deferral over an allow.\<close>

theorem evaluate_policy_precedence:
  assumes "quiet_hours_defer_until E pin = Inr q"
  shows "\<exists>r. evaluate_policy E pin = Inr r \<and>
    res_decision r = Max {if pi_opted_out pin then BLOCK else ALLOW,
      if channel_consent pin then ALLOW else BLOCK,
      if pi_account_status pin \<in> {PAUSED, RESOLVED} then BLOCK else ALLOW,
      if q \<noteq> None then DEFER else ALLOW,
      if pi_frequency_cap pin \<le> pi_recent_outbound_attempt_count pin then DEFER else ALLOW}"
proof (cases "hard_block pin")
  case True
  then show ?thesis
    by (auto simp: evaluate_policy_blocked hard_block_def max_def
        less_eq_policy_outcome_def)
next
  case False
  with assms show ?thesis
    by (auto simp: evaluate_policy_unblocked hard_block_def max_def Let_def
        less_eq_policy_outcome_def)
qed

text \<open>An unknown customer zone raises \<open>ValueError\<close> exactly for calls and messages that
  nothing blocks; blocked attempts and emails are decided without the zone.\<close>

lemma evaluate_policy_unknown_zone:
  assumes "tzdb E (pi_customer_timezone pin) = Inl (ZoneInfoNotFoundError m)"
  shows "evaluate_policy E pin =
      Inl (ValueError (''Invalid customer_timezone: '' @ pi_customer_timezone pin))
    \<and> \<not> hard_block pin \<and> pi_channel pin \<noteq> EMAIL
    \<or> (\<exists>r. evaluate_policy E pin = Inr r) \<and> (hard_block pin \<or> pi_channel pin = EMAIL)"
  using assms
  by (cases "hard_block pin"; cases "pi_channel pin = EMAIL";
      auto simp: evaluate_policy_blocked evaluate_policy_unblocked Let_def
        quiet_hours_defer_until_def get_customer_timezone_def)

text \<open>C16. A deferral time is the next opening of the contact window: it reads 09:00 on the
  customer's clock, lies at most thirteen hours after the proposed time on that
  clock, and every wall time from the proposed one up to it is outside the window.\<close>

theorem defer_until_next_opening:
  assumes "evaluate_policy E pin = Inr r" and "res_defer_until r = Some u"
  shows "\<exists>tz local. get_customer_timezone E (pi_customer_timezone pin) = Inr tz
    \<and> astimezone (pi_scheduled_at pin) tz = Inr local \<and> dt_tzinfo u = tz
    \<and> time_of (dt_wall u) = hours 9
    \<and> dt_wall local < dt_wall u \<and> dt_wall u \<le> dt_wall local + hours 13
    \<and> (\<forall>w. dt_wall local \<le> w \<and> w < dt_wall u \<longrightarrow> \<not> in_contact_window w)"
proof -
  have "quiet_hours_defer_until E pin = Inr (Some u)"
    using assms by (cases "hard_block pin")
      (auto simp: evaluate_policy_blocked evaluate_policy_unblocked Let_def
        split: sum.splits if_splits)
  then obtain tz local where *: "get_customer_timezone E (pi_customer_timezone pin) = Inr tz"
      "astimezone (pi_scheduled_at pin) tz = Inr local" "dt_tzinfo u = tz"
      "time_of (dt_wall u) = OUTREACH_WINDOW_START"
    and out: "\<not> in_contact_window (dt_wall local)"
    and wall: "dt_wall u = (if time_of (dt_wall local) < OUTREACH_WINDOW_START
           then days (date_of (dt_wall local)) else days (date_of (dt_wall local) + 1))
         + OUTREACH_WINDOW_START"
    by (rule quiet_hours_defer_untilE)
  let ?w = "dt_wall local"
  have later: "?w < dt_wall u \<and> dt_wall u \<le> ?w + hours 13"
    using out wall time_of_range [of ?w] wall_split [of ?w]
    by (auto simp: in_contact_window_def window_bounds split: if_splits)
  have closed: "\<not> in_contact_window w" if "?w \<le> w" "w < dt_wall u" for w
  proof (cases "time_of ?w < OUTREACH_WINDOW_START")
    case True
    with that wall show ?thesis by (intro same_day_opening [of ?w]) auto
  next
    case False
    with out have "OUTREACH_WINDOW_END \<le> time_of ?w" by (simp add: in_contact_window_def)
    with False that wall show ?thesis by (intro next_day_opening [of ?w]) auto
  qed
  from * later closed show ?thesis by (auto simp: window_bounds)
qed

text \<open>C17. A deferral for quiet hours alone is honest: evaluated again at the time it
  offers, the same attempt is allowed.\<close>

theorem deferred_attempt_allowed_later:
  assumes "evaluate_policy E pin = Inr r" and "res_defer_until r = Some u"
    and "''frequency_cap_exceeded'' \<notin> set (res_reasons r)"
  shows "evaluate_policy E (pin\<lparr>pi_scheduled_at := u\<rparr>) =
    Inr \<lparr>res_decision = ALLOW, res_channel = pi_channel pin,
      res_reasons = [''policy_allowed''], res_defer_until = None\<rparr>"
proof -
  have free: "\<not> hard_block pin" and "quiet_hours_defer_until E pin = Inr (Some u)"
    and cap: "pi_recent_outbound_attempt_count pin < pi_frequency_cap pin"
    using assms by (cases "hard_block pin";
        auto simp: evaluate_policy_blocked evaluate_policy_unblocked Let_def
          split: sum.splits if_splits)+
  from this(2) obtain tz local where "pi_channel pin \<noteq> EMAIL"
      and "get_customer_timezone E (pi_customer_timezone pin) = Inr tz"
      and "dt_tzinfo u = tz" and "time_of (dt_wall u) = OUTREACH_WINDOW_START"
    by (rule quiet_hours_defer_untilE)
  then have "quiet_hours_defer_until E (pin\<lparr>pi_scheduled_at := u\<rparr>) = Inr None"
    by (simp add: quiet_hours_defer_until_def window_bounds Let_def)
  moreover have "\<not> hard_block (pin\<lparr>pi_scheduled_at := u\<rparr>)"
    using free by (simp add: hard_block_def channel_consent_def split: outreach_channel.splits)
  ultimately show ?thesis using cap by (simp add: evaluate_policy_unblocked Let_def)
qed

section \<open>Witnesses\<close>

text \<open>An attempt by SMS at 08:30 New York time on 2026-05-28, as in the unit tests.\<close>

definition sample_input :: policy_input where
  "sample_input = \<lparr>pi_channel = SMS, pi_scheduled_at = utc_datetime (days 739763 + minutes 750),
     pi_customer_timezone = ''America/New_York'', pi_sms_consent = True, pi_call_consent = True,
     pi_email_consent = True, pi_opted_out = False, pi_account_status = CURRENT,
     pi_recent_outbound_attempt_count = 0, pi_frequency_cap = 3\<rparr>"

definition sample_opening :: datetime where
  "sample_opening = \<lparr>dt_wall = days 739763 + hours 9, dt_fold = False,
     dt_tzinfo = ZoneInfo ''America/New_York'' new_york\<rparr>"

lemma sample_quiet_hours: "quiet_hours_defer_until sample_env sample_input = Inr (Some sample_opening)"
  by (simp add: quiet_hours_defer_until_def sample_input_def sample_env_def sample_tzdb_def
      get_customer_timezone_def astimezone_def utc_datetime_def utc_def instant_def wall_ok_def
      days_in_range_def new_york_def time_of_def date_of_def window_bounds Let_def
      sample_opening_def replace_time_def)

lemma sample_deferral: "evaluate_policy sample_env sample_input =
    Inr \<lparr>res_decision = DEFER, res_channel = SMS, res_reasons = [''quiet_hours''],
      res_defer_until = Some sample_opening\<rparr>"
proof -
  have "\<not> hard_block sample_input"
    by (simp add: hard_block_def channel_consent_def sample_input_def)
  then show ?thesis
    by (simp add: evaluate_policy_unblocked sample_quiet_hours Let_def) (simp add: sample_input_def)
qed

theorem evaluate_policy_precedence_witness:
  "\<exists>r. evaluate_policy sample_env sample_input = Inr r \<and> res_decision r = Max {ALLOW, DEFER}"
proof -
  have "\<not> pi_opted_out sample_input" "channel_consent sample_input"
    "pi_account_status sample_input = CURRENT"
    "pi_recent_outbound_attempt_count sample_input < pi_frequency_cap sample_input"
    by (simp_all add: sample_input_def channel_consent_def)
  then show ?thesis
    using evaluate_policy_precedence [OF sample_quiet_hours] by (simp add: insert_commute)
qed

theorem evaluate_policy_unknown_zone_witness:
  "evaluate_policy sample_env (sample_input\<lparr>pi_customer_timezone := ''Mars/Base''\<rparr>) =
     Inl (ValueError ''Invalid customer_timezone: Mars/Base'')"
  using evaluate_policy_unknown_zone [of sample_env "sample_input\<lparr>pi_customer_timezone := ''Mars/Base''\<rparr>"
      "''Mars/Base''"]
  by (simp add: sample_env_def sample_tzdb_def sample_input_def hard_block_def channel_consent_def)

theorem defer_until_next_opening_witness:
  "\<exists>tz local. get_customer_timezone sample_env ''America/New_York'' = Inr tz
    \<and> astimezone (utc_datetime (days 739763 + minutes 750)) tz = Inr local
    \<and> dt_wall local < dt_wall sample_opening"
  using defer_until_next_opening [OF sample_deferral] by (auto simp: sample_input_def)

theorem deferred_attempt_allowed_later_witness:
  "evaluate_policy sample_env (sample_input\<lparr>pi_scheduled_at := sample_opening\<rparr>) =
    Inr \<lparr>res_decision = ALLOW, res_channel = SMS, res_reasons = [''policy_allowed''],
      res_defer_until = None\<rparr>"
  using deferred_attempt_allowed_later [OF sample_deferral] by (simp add: sample_input_def)

end
