(* ===== verification/Planner.thy ===== *)
theory Planner
  imports Audit_Log Policy_Engine
begin

text \<open>
  \<open>src/orchestrator/orchestration/planner.py\<close>: the side effects of one inbound event,
  inside the transaction of the caller.  A planner operation takes the pending
  database and returns its result or the exception it raises, together with the
  pending database it leaves; nothing here commits.
\<close>

section \<open>Constants, results and proposals\<close>

definition RECENT_ATTEMPT_STATUSES :: "outreach_task_status set" where
  "RECENT_ATTEMPT_STATUSES = {SCHEDULED, DISPATCHING, SENT, FAILED}"

definition SCHEDULED_STATUSES :: "outreach_task_status set" where
  "SCHEDULED_STATUSES = {SCHEDULED}"

definition PROCESSED_MARKERS :: "(string \<times> string) list" where
  "PROCESSED_MARKERS =
     [(''payment_received'', ''planner_payment_received_processed''),
      (''opt_out_received'', ''planner_opt_out_processed''),
      (''hardship_requested'', ''planner_hardship_processed''),
      (''account_paused'', ''planner_account_paused_processed'')]"

record planner_result =
  pr_inbound_event_id :: uuid
  pr_created_tasks :: nat
  pr_cancelled_tasks :: nat
  pr_policy_decisions :: nat
  pr_blocked_attempts :: nat
  pr_deferred_attempts :: nat

definition no_effects :: "uuid \<Rightarrow> planner_result" where
  "no_effects i = \<lparr>pr_inbound_event_id = i, pr_created_tasks = 0, pr_cancelled_tasks = 0,
     pr_policy_decisions = 0, pr_blocked_attempts = 0, pr_deferred_attempts = 0\<rparr>"

record proposed_outreach =
  prop_channel :: outreach_channel
  prop_scheduled_at :: datetime

fun aware_now :: "env \<Rightarrow> py_datetime option \<Rightarrow> py_error + datetime" where
  "aware_now E None = Inr (utc_datetime (start_now E))"
| "aware_now E (Some (Naive w)) = Inl (ValueError ''now must be timezone-aware'')"
| "aware_now E (Some (Aware dt)) = Inr dt"

section \<open>Proposals\<close>

text \<open>The loop \<open>while candidate.weekday() >= 5: candidate += timedelta(days=1)\<close>.\<close>

function skip_weekend :: "int \<Rightarrow> py_error + int" where
  "skip_weekend d =
     (if 5 \<le> weekday d
      then (if d + 1 < days_in_range then skip_weekend (d + 1) else Inl OverflowError)
      else Inr d)"
  by pat_completeness auto
termination
proof (relation "measure (\<lambda>d. nat ((- d) mod 7))")
  fix d :: int
  assume "5 \<le> weekday d"
  then have "(- (d + 1)) mod 7 < (- d) mod 7" unfolding weekday_def by presburger
  then show "(d + 1, d) \<in> measure (\<lambda>d. nat ((- d) mod 7))" by simp
qed simp

declare skip_weekend.simps [simp del]

definition next_business_day_at_10 :: "env \<Rightarrow> datetime \<Rightarrow> string \<Rightarrow> py_error + datetime" where
  "next_business_day_at_10 E now customer_timezone =
     (case tzdb E customer_timezone of
        Inl e \<Rightarrow> Inl e
      | Inr z \<Rightarrow>
          (case astimezone now (ZoneInfo customer_timezone z) of
             Inl e \<Rightarrow> Inl e
           | Inr local_now \<Rightarrow>
               let tomorrow = date_of (dt_wall local_now) + 1 in
               if \<not> tomorrow < days_in_range then Inl OverflowError
               else case skip_weekend tomorrow of
                 Inl e \<Rightarrow> Inl e
               | Inr candidate \<Rightarrow>
                   Inr (combine candidate (hours 10) (ZoneInfo customer_timezone z))))"

definition proposals_for_event ::
  "env \<Rightarrow> string \<Rightarrow> datetime \<Rightarrow> string \<Rightarrow> py_error + proposed_outreach list" where
  "proposals_for_event E event_type now customer_timezone =
     (if event_type = ''account_delinquent'' then
        (case dt_add now (minutes 30) of
           Inl e \<Rightarrow> Inl e
         | Inr sms_at \<Rightarrow>
             (case next_business_day_at_10 E now customer_timezone of
                Inl e \<Rightarrow> Inl e
              | Inr call_at \<Rightarrow>
                  Inr [\<lparr>prop_channel = EMAIL, prop_scheduled_at = now\<rparr>,
                       \<lparr>prop_channel = SMS, prop_scheduled_at = sms_at\<rparr>,
                       \<lparr>prop_channel = CALL, prop_scheduled_at = call_at\<rparr>]))
      else if event_type = ''payment_failed'' then
        (case dt_add now (minutes 15) of
           Inl e \<Rightarrow> Inl e
         | Inr sms_at \<Rightarrow>
             Inr [\<lparr>prop_channel = EMAIL, prop_scheduled_at = now\<rparr>,
                  \<lparr>prop_channel = SMS, prop_scheduled_at = sms_at\<rparr>])
      else Inl (ValueError (''Unsupported policy event type: '' @ event_type)))"

section \<open>Reading the event, its customer and its account\<close>

definition load_customer_and_account :: "db \<Rightarrow> inbound_event \<Rightarrow> py_error + customer \<times> account" where
  "load_customer_and_account d ev =
     (case find (\<lambda>c. cust_external_id c = ev_customer_external_id ev) (customers d) of
        None \<Rightarrow> Inl (ValueError (''Customer not found for inbound event: '' @ ev_customer_external_id ev))
      | Some customer \<Rightarrow>
          (case find (\<lambda>a. acct_external_id a = ev_account_external_id ev) (accounts d) of
             None \<Rightarrow> Inl (ValueError (''Account not found for inbound event: '' @ ev_account_external_id ev))
           | Some account \<Rightarrow>
               if acct_customer_id account \<noteq> cust_id customer
               then Inl (ValueError ''Inbound event customer/account do not match'')
               else Inr (customer, account)))"

definition recent_attempt_count :: "db \<Rightarrow> customer \<Rightarrow> datetime \<Rightarrow> py_error + nat" where
  "recent_attempt_count d customer now =
     (case dt_add now (- hours 24) of
        Inl e \<Rightarrow> Inl e
      | Inr since \<Rightarrow> Inr (rowcount (\<lambda>t. task_customer_id t = cust_id customer
            \<and> task_status t \<in> RECENT_ATTEMPT_STATUSES
            \<and> instant since \<le> task_created_at t) (outreach_tasks d)))"

section \<open>Audit rows and processed markers\<close>

definition planner_audit ::
  "env \<Rightarrow> inbound_event \<Rightarrow> uuid \<Rightarrow> string \<Rightarrow> string \<Rightarrow> string \<Rightarrow> payload \<Rightarrow> db \<Rightarrow> db" where
  "planner_audit E ev correlation_id event_type entity_type entity_id payload d =
     snd (append_audit_event E d entity_type entity_id event_type SYSTEM correlation_id
       (Some ''outreach-planner'')
       (Some (dict_merge payload
          [(''inbound_event_id'', JStr (uuid_str (ev_id ev))),
           (''inbound_event_type'', JStr (ev_event_type ev))])))"

text \<open>
  The marker of an event type is looked up in the table above; the handlers below
  ask for it only for the four types that have one.
\<close>

definition has_processed_marker :: "db \<Rightarrow> inbound_event \<Rightarrow> bool" where
  "has_processed_marker d ev \<longleftrightarrow>
     find (\<lambda>r. ae_entity_type r = ''inbound_event'' \<and> ae_entity_id r = uuid_str (ev_id ev)
       \<and> Some (ae_event_type r) = map_of PROCESSED_MARKERS (ev_event_type ev)) (audit_events d) \<noteq> None"

definition append_processed_marker :: "env \<Rightarrow> inbound_event \<Rightarrow> uuid \<Rightarrow> db \<Rightarrow> db" where
  "append_processed_marker E ev correlation_id d =
     (case map_of PROCESSED_MARKERS (ev_event_type ev) of
        None \<Rightarrow> d
      | Some marker \<Rightarrow>
          snd (append_audit_event E d ''inbound_event'' (uuid_str (ev_id ev)) marker SYSTEM
            correlation_id (Some ''outreach-planner'')
            (Some [(''marker'', JStr marker), (''inbound_event_type'', JStr (ev_event_type ev))])))"

section \<open>Cancelling scheduled tasks\<close>

definition set_task_status :: "uuid \<Rightarrow> outreach_task_status \<Rightarrow> db \<Rightarrow> db" where
  "set_task_status i st d =
     d\<lparr>outreach_tasks := update_where (\<lambda>t. task_id t = i) (\<lambda>t. t\<lparr>task_status := st\<rparr>) (outreach_tasks d)\<rparr>"

text \<open>
  The loop writes \<open>CANCELLED\<close> to the rows the select returned, by primary key and
  without looking at their status again.
\<close>

fun cancel_tasks ::
  "env \<Rightarrow> inbound_event \<Rightarrow> account \<Rightarrow> uuid \<Rightarrow> outreach_task list \<Rightarrow> db \<Rightarrow> db" where
  "cancel_tasks E ev account correlation_id [] d = d"
| "cancel_tasks E ev account correlation_id (t # ts) d =
     cancel_tasks E ev account correlation_id ts
       (planner_audit E ev correlation_id ''outreach_cancelled'' ''outreach_task'' (uuid_str (task_id t))
          [(''channel'', JStr (channel_value (task_channel t))),
           (''account_external_id'', JStr (acct_external_id account))]
          (set_task_status (task_id t) CANCELLED d))"

definition cancellable :: "customer \<Rightarrow> account \<Rightarrow> outreach_task \<Rightarrow> bool" where
  "cancellable customer account t \<longleftrightarrow> task_account_id t = acct_id account
     \<and> task_customer_id t = cust_id customer \<and> task_status t \<in> SCHEDULED_STATUSES"

definition cancel_scheduled_tasks ::
  "env \<Rightarrow> inbound_event \<Rightarrow> customer \<Rightarrow> account \<Rightarrow> uuid \<Rightarrow> db \<Rightarrow> nat \<times> db" where
  "cancel_scheduled_tasks E ev customer account correlation_id d =
     (let tasks = scan_order E (filter (cancellable customer account) (outreach_tasks d))
      in (length tasks, cancel_tasks E ev account correlation_id tasks d))"

section \<open>Policy events\<close>

record plan_progress =
  pg_recent_count :: nat
  pg_created_tasks :: nat
  pg_policy_decisions :: nat
  pg_blocked_attempts :: nat
  pg_deferred_attempts :: nat

definition record_decision ::
  "env \<Rightarrow> inbound_event \<Rightarrow> customer \<Rightarrow> account \<Rightarrow> uuid \<Rightarrow> policy_result \<Rightarrow> db \<Rightarrow> policy_decision \<times> db" where
  "record_decision E ev customer account correlation_id r d =
     (let (i, d1) = uuid4 d;
          decision = \<lparr>pd_id = i, pd_account_id = acct_id account, pd_customer_id = cust_id customer,
            pd_inbound_event_id = Some (ev_id ev), pd_decision = res_decision r,
            pd_channel = Some (res_channel r), pd_reasons = res_reasons r,
            pd_evaluated_at = txn_now E\<rparr>
      in (decision,
          planner_audit E ev correlation_id ''policy_decision_recorded'' ''policy_decision'' (uuid_str i)
            [(''decision'', JStr (outcome_value (res_decision r))),
             (''channel'', JStr (channel_value (res_channel r))),
             (''reasons'', JList (map JStr (res_reasons r)))]
            (d1\<lparr>policy_decisions := policy_decisions d1 @ [decision]\<rparr>)))"

definition task_key :: "inbound_event \<Rightarrow> outreach_channel \<Rightarrow> string" where
  "task_key ev channel = ''outreach_task:'' @ uuid_str (ev_id ev) @ '':'' @ channel_value channel"

text \<open>The flush of a new task: its idempotency key is unique in the table.\<close>

definition insert_task :: "outreach_task \<Rightarrow> db \<Rightarrow> py_error + db" where
  "insert_task t d =
     (if find (\<lambda>t'. task_idempotency_key t' = task_idempotency_key t) (outreach_tasks d) \<noteq> None
      then Inl IntegrityError
      else Inr (d\<lparr>outreach_tasks := outreach_tasks d @ [t]\<rparr>))"

definition schedule_task ::
  "env \<Rightarrow> inbound_event \<Rightarrow> customer \<Rightarrow> account \<Rightarrow> uuid \<Rightarrow> policy_decision \<Rightarrow> outreach_channel
     \<Rightarrow> datetime \<Rightarrow> db \<Rightarrow> py_error + db" where
  "schedule_task E ev customer account correlation_id decision channel scheduled_at d =
     (let (i, d1) = uuid4 d in
      case insert_task \<lparr>task_id = i, task_account_id = acct_id account,
             task_customer_id = cust_id customer, task_channel = channel,
             task_correlation_id = correlation_id, task_status = SCHEDULED,
             task_scheduled_at = instant scheduled_at, task_attempt_count = 0,
             task_max_attempts = 3, task_idempotency_key = task_key ev channel,
             task_policy_decision_id = Some (pd_id decision), task_last_error = None,
             task_created_at = txn_now E\<rparr> d1 of
        Inl e \<Rightarrow> Inl e
      | Inr d2 \<Rightarrow>
          Inr (planner_audit E ev correlation_id ''outreach_task_scheduled'' ''account''
            (uuid_str (acct_id account))
            [(''channel'', JStr (channel_value channel)),
             (''scheduled_at'', JStr (isoformat scheduled_at))] d2))"

definition proposal_input :: "customer \<Rightarrow> account \<Rightarrow> int \<Rightarrow> proposed_outreach \<Rightarrow> nat \<Rightarrow> py_error + policy_input" where
  "proposal_input customer account frequency_cap p recent =
     make_policy_input (prop_channel p) (Aware (prop_scheduled_at p)) (cust_timezone customer)
       (cust_sms_consent customer) (cust_call_consent customer) (cust_email_consent customer)
       (cust_opted_out customer) (acct_status account) (int recent) frequency_cap"

text \<open>One pass of the loop over the proposals, from the evaluated result on.\<close>

definition apply_policy_result ::
  "env \<Rightarrow> inbound_event \<Rightarrow> customer \<Rightarrow> account \<Rightarrow> uuid \<Rightarrow> proposed_outreach \<Rightarrow> policy_result
     \<Rightarrow> plan_progress \<Rightarrow> db \<Rightarrow> (py_error + plan_progress) \<times> db" where
  "apply_policy_result E ev customer account correlation_id p r pg d =
     (let (decision, d1) = record_decision E ev customer account correlation_id r d;
          pg1 = pg\<lparr>pg_policy_decisions := Suc (pg_policy_decisions pg)\<rparr>;
          context = [(''channel'', JStr (channel_value (res_channel r))),
                     (''reasons'', JList (map JStr (res_reasons r)))]
      in if res_decision r = BLOCK
         then (Inr (pg1\<lparr>pg_blocked_attempts := Suc (pg_blocked_attempts pg1)\<rparr>),
               planner_audit E ev correlation_id ''outreach_blocked'' ''account''
                 (uuid_str (acct_id account)) context d1)
         else
           let deferred = (res_decision r = DEFER);
               pg2 = (if deferred then pg1\<lparr>pg_deferred_attempts := Suc (pg_deferred_attempts pg1)\<rparr>
                      else pg1);
               d2 = (if deferred
                     then planner_audit E ev correlation_id ''outreach_deferred'' ''account''
                       (uuid_str (acct_id account))
                       (context @ [(''defer_until'', case res_defer_until r of None \<Rightarrow> JNull
                          | Some u \<Rightarrow> JStr (isoformat u))]) d1
                     else d1)
           in if deferred \<and> (''frequency_cap_exceeded'' \<in> set (res_reasons r) \<or> res_defer_until r = None)
              then (Inr pg2, d2)
              else
                let scheduled_at = (if deferred then the (res_defer_until r) else prop_scheduled_at p)
                in case schedule_task E ev customer account correlation_id decision
                          (res_channel r) scheduled_at d2 of
                     Inl e \<Rightarrow> (Inl e, d2)
                   | Inr d3 \<Rightarrow>
                       (Inr (pg2\<lparr>pg_created_tasks := Suc (pg_created_tasks pg2),
                          pg_recent_count := Suc (pg_recent_count pg2)\<rparr>), d3))"

fun plan_proposals ::
  "env \<Rightarrow> inbound_event \<Rightarrow> customer \<Rightarrow> account \<Rightarrow> uuid \<Rightarrow> int \<Rightarrow> proposed_outreach list
     \<Rightarrow> plan_progress \<Rightarrow> db \<Rightarrow> (py_error + plan_progress) \<times> db" where
  "plan_proposals E ev customer account correlation_id cap [] pg d = (Inr pg, d)"
| "plan_proposals E ev customer account correlation_id cap (p # ps) pg d =
     (case proposal_input customer account cap p (pg_recent_count pg) of
        Inl e \<Rightarrow> (Inl e, d)
      | Inr pin \<Rightarrow>
          (case evaluate_policy E pin of
             Inl e \<Rightarrow> (Inl e, d)
           | Inr r \<Rightarrow>
               (case apply_policy_result E ev customer account correlation_id p r pg d of
                  (Inl e, d1) \<Rightarrow> (Inl e, d1)
                | (Inr pg1, d1) \<Rightarrow>
                    plan_proposals E ev customer account correlation_id cap ps pg1 d1)))"

definition plan_policy_event ::
  "env \<Rightarrow> inbound_event \<Rightarrow> customer \<Rightarrow> account \<Rightarrow> uuid \<Rightarrow> datetime \<Rightarrow> int \<Rightarrow> db
     \<Rightarrow> (py_error + planner_result) \<times> db" where
  "plan_policy_event E ev customer account correlation_id now cap d =
     (if find (\<lambda>pd. pd_inbound_event_id pd = Some (ev_id ev)) (policy_decisions d) \<noteq> None
      then (Inr (no_effects (ev_id ev)), d)
      else case recent_attempt_count d customer now of
        Inl e \<Rightarrow> (Inl e, d)
      | Inr recent \<Rightarrow>
          (case proposals_for_event E (ev_event_type ev) now (cust_timezone customer) of
             Inl e \<Rightarrow> (Inl e, d)
           | Inr ps \<Rightarrow>
               (case plan_proposals E ev customer account correlation_id cap ps
                       \<lparr>pg_recent_count = recent, pg_created_tasks = 0, pg_policy_decisions = 0,
                         pg_blocked_attempts = 0, pg_deferred_attempts = 0\<rparr> d of
                  (Inl e, d1) \<Rightarrow> (Inl e, d1)
                | (Inr pg, d1) \<Rightarrow>
                    (Inr \<lparr>pr_inbound_event_id = ev_id ev, pr_created_tasks = pg_created_tasks pg,
                       pr_cancelled_tasks = 0, pr_policy_decisions = pg_policy_decisions pg,
                       pr_blocked_attempts = pg_blocked_attempts pg,
                       pr_deferred_attempts = pg_deferred_attempts pg\<rparr>, d1))))"

section \<open>Cancellation and state events\<close>

definition cancelled_result :: "inbound_event \<Rightarrow> nat \<Rightarrow> planner_result" where
  "cancelled_result ev n = (no_effects (ev_id ev))\<lparr>pr_cancelled_tasks := n\<rparr>"

definition handle_cancellation_event ::
  "env \<Rightarrow> inbound_event \<Rightarrow> customer \<Rightarrow> account \<Rightarrow> uuid \<Rightarrow> db \<Rightarrow> planner_result \<times> db" where
  "handle_cancellation_event E ev customer account correlation_id d =
     (if has_processed_marker d ev then (no_effects (ev_id ev), d)
      else let (n, d1) = cancel_scheduled_tasks E ev customer account correlation_id d
           in (cancelled_result ev n, append_processed_marker E ev correlation_id d1))"

definition set_opted_out :: "customer \<Rightarrow> db \<Rightarrow> db" where
  "set_opted_out customer d =
     d\<lparr>customers := update_where (\<lambda>c. cust_id c = cust_id customer) (\<lambda>c. c\<lparr>cust_opted_out := True\<rparr>)
        (customers d)\<rparr>"

definition handle_opt_out ::
  "env \<Rightarrow> inbound_event \<Rightarrow> customer \<Rightarrow> account \<Rightarrow> uuid \<Rightarrow> db \<Rightarrow> planner_result \<times> db" where
  "handle_opt_out E ev customer account correlation_id d =
     (if has_processed_marker d ev then (no_effects (ev_id ev), d)
      else let d1 = planner_audit E ev correlation_id ''customer_opted_out'' ''customer''
                 (uuid_str (cust_id customer))
                 [(''customer_external_id'', JStr (cust_external_id customer))] (set_opted_out customer d);
               (n, d2) = cancel_scheduled_tasks E ev customer account correlation_id d1
           in (cancelled_result ev n, append_processed_marker E ev correlation_id d2))"

definition handle_hardship ::
  "env \<Rightarrow> inbound_event \<Rightarrow> customer \<Rightarrow> account \<Rightarrow> uuid \<Rightarrow> db \<Rightarrow> planner_result \<times> db" where
  "handle_hardship E ev customer account correlation_id d =
     (if has_processed_marker d ev then (no_effects (ev_id ev), d)
      else let d1 = planner_audit E ev correlation_id ''hardship_escalation_required'' ''account''
                 (uuid_str (acct_id account))
                 [(''account_external_id'', JStr (acct_external_id account))] d;
               (n, d2) = cancel_scheduled_tasks E ev customer account correlation_id d1
           in (cancelled_result ev n, append_processed_marker E ev correlation_id d2))"

definition set_paused :: "account \<Rightarrow> db \<Rightarrow> db" where
  "set_paused account d =
     d\<lparr>accounts := update_where (\<lambda>a. acct_id a = acct_id account) (\<lambda>a. a\<lparr>acct_status := PAUSED\<rparr>)
        (accounts d)\<rparr>"

definition handle_account_paused ::
  "env \<Rightarrow> inbound_event \<Rightarrow> customer \<Rightarrow> account \<Rightarrow> uuid \<Rightarrow> db \<Rightarrow> planner_result \<times> db" where
  "handle_account_paused E ev customer account correlation_id d =
     (if has_processed_marker d ev then (no_effects (ev_id ev), d)
      else let d1 = planner_audit E ev correlation_id ''account_paused'' ''account''
                 (uuid_str (acct_id account))
                 [(''account_external_id'', JStr (acct_external_id account))] (set_paused account d);
               (n, d2) = cancel_scheduled_tasks E ev customer account correlation_id d1
           in (cancelled_result ev n, append_processed_marker E ev correlation_id d2))"

section \<open>The planner\<close>

definition plan_outreach_for_event ::
  "env \<Rightarrow> uuid \<Rightarrow> uuid \<Rightarrow> py_datetime option \<Rightarrow> int \<Rightarrow> db \<Rightarrow> (py_error + planner_result) \<times> db" where
  "plan_outreach_for_event E inbound_event_id correlation_id now frequency_cap d =
     (case aware_now E now of
        Inl e \<Rightarrow> (Inl e, d)
      | Inr now' \<Rightarrow>
     (case find (\<lambda>ev. ev_id ev = inbound_event_id) (inbound_events d) of
        None \<Rightarrow> (Inl (ValueError (''Inbound event not found: '' @ uuid_str inbound_event_id)), d)
      | Some ev \<Rightarrow>
     (case load_customer_and_account d ev of
        Inl e \<Rightarrow> (Inl e, d)
      | Inr (customer, account) \<Rightarrow>
          if ev_event_type ev \<in> {''account_delinquent'', ''payment_failed''}
          then plan_policy_event E ev customer account correlation_id now' frequency_cap d
          else if ev_event_type ev = ''payment_received''
          then map_prod Inr id (handle_cancellation_event E ev customer account correlation_id d)
          else if ev_event_type ev = ''opt_out_received''
          then map_prod Inr id (handle_opt_out E ev customer account correlation_id d)
          else if ev_event_type ev = ''hardship_requested''
          then map_prod Inr id (handle_hardship E ev customer account correlation_id d)
          else if ev_event_type ev = ''account_paused''
          then map_prod Inr id (handle_account_paused E ev customer account correlation_id d)
          else (Inl (ValueError (''Unsupported inbound event type: '' @ ev_event_type ev)), d))))"

end
