(* ===== verification/Writes.thy ===== *)
theory Writes
  imports Planner "HOL-Library.Multiset"
begin

text \<open>
  The writes the program performs on its tables, one definition per kind of write,
  and what holds in every database they build up: the invariant \<open>wf_db\<close>.  The locale
  \<open>db_frame\<close> is the interface between the components and the relations one wants to
  know between the database before and after: a relation that every single write
  respects is respected by every operation of every component.
\<close>

section \<open>Rows replaced by their key\<close>

definition put_row :: "('r \<Rightarrow> 'k) \<Rightarrow> 'r \<Rightarrow> 'r list \<Rightarrow> 'r list" where
  "put_row key r' rows = update_where (\<lambda>r. key r = key r') (\<lambda>_. r') rows"

lemma update_where_put_row:
  assumes "distinct (map key rows)" and "r \<in> set rows" and "key (f r) = key r"
  shows "update_where (\<lambda>x. key x = key r) f rows = put_row key (f r) rows"
  using key_row_unique [OF assms(1) _ assms(2)] assms(3)
  by (auto simp: put_row_def update_where_def)

lemma map_put_row:
  assumes "distinct (map key rows)" and "r \<in> set rows" and "key r' = key r" and "g r' = g r"
  shows "map g (put_row key r' rows) = map g rows"
  using key_row_unique [OF assms(1) _ assms(2)] assms(3,4)
  by (auto simp: put_row_def update_where_def)

lemma in_put_row: "x \<in> set (put_row key r' rows) \<Longrightarrow> x = r' \<or> x \<in> set rows \<and> key x \<noteq> key r'"
  by (auto simp: put_row_def in_update_where split: if_splits)

lemma put_row_keeps: "x \<in> set rows \<Longrightarrow> key x \<noteq> key r' \<Longrightarrow> x \<in> set (put_row key r' rows)"
  by (force simp: put_row_def in_update_where)

lemma put_row_has: "r \<in> set rows \<Longrightarrow> key r = key r' \<Longrightarrow> r' \<in> set (put_row key r' rows)"
  by (force simp: put_row_def in_update_where)

text \<open>A conditional update by key that matched a row replaces that row.\<close>

lemma matched_put_row:
  assumes "distinct (map key rows)" and "rowcount (\<lambda>r. key r = k \<and> P r) rows \<noteq> 0"
    and "\<And>r. key (f r) = key r"
  obtains r where "r \<in> set rows" and "key r = k" and "P r"
    and "update_where (\<lambda>r. key r = k \<and> P r) f rows = put_row key (f r) rows"
proof -
  obtain r where r: "r \<in> set rows" "key r = k" "P r"
    using assms(2) by (auto simp: rowcount_zero_iff)
  have "update_where (\<lambda>x. key x = k \<and> P x) f rows = update_where (\<lambda>x. key x = key r) f rows"
    using key_row_unique [OF assms(1) _ r(1)] r(2,3) by (intro update_where_cong) auto
  with r assms(3) update_where_put_row [OF assms(1) r(1), of f] that show thesis by simp
qed

section \<open>The writes\<close>

definition add_audit :: "audit_event \<Rightarrow> db \<Rightarrow> db" where
  "add_audit r d = d\<lparr>audit_events := audit_events d @ [r], next_uuid := Suc (next_uuid d)\<rparr>"

definition add_customer :: "customer \<Rightarrow> db \<Rightarrow> db" where
  "add_customer c d = d\<lparr>customers := customers d @ [c], next_uuid := Suc (next_uuid d)\<rparr>"

definition add_account :: "account \<Rightarrow> db \<Rightarrow> db" where
  "add_account a d = d\<lparr>accounts := accounts d @ [a], next_uuid := Suc (next_uuid d)\<rparr>"

definition add_event :: "inbound_event \<Rightarrow> db \<Rightarrow> db" where
  "add_event e d = d\<lparr>inbound_events := inbound_events d @ [e], next_uuid := Suc (next_uuid d)\<rparr>"

definition add_decision :: "policy_decision \<Rightarrow> db \<Rightarrow> db" where
  "add_decision p d = d\<lparr>policy_decisions := policy_decisions d @ [p], next_uuid := Suc (next_uuid d)\<rparr>"

definition add_task :: "outreach_task \<Rightarrow> db \<Rightarrow> db" where
  "add_task t d = d\<lparr>outreach_tasks := outreach_tasks d @ [t], next_uuid := Suc (next_uuid d)\<rparr>"

definition put_customer :: "customer \<Rightarrow> db \<Rightarrow> db" where
  "put_customer c d = d\<lparr>customers := put_row cust_id c (customers d)\<rparr>"

definition put_account :: "account \<Rightarrow> db \<Rightarrow> db" where
  "put_account a d = d\<lparr>accounts := put_row acct_id a (accounts d)\<rparr>"

definition put_event :: "inbound_event \<Rightarrow> db \<Rightarrow> db" where
  "put_event e d = d\<lparr>inbound_events := put_row ev_id e (inbound_events d)\<rparr>"

definition put_task :: "outreach_task \<Rightarrow> db \<Rightarrow> db" where
  "put_task t d = d\<lparr>outreach_tasks := put_row task_id t (outreach_tasks d)\<rparr>"

lemmas write_defs = add_audit_def add_customer_def add_account_def add_event_def add_decision_def
  add_task_def put_customer_def put_account_def put_event_def put_task_def

section \<open>How rows may change\<close>

text \<open>
  The life of a task.  The API may record a result by hand until the task was sent or
  cancelled, and cancels scheduled tasks; the planner cancels the tasks it has selected
  as scheduled by their primary key, whatever their status has become meanwhile.  A
  worker claims a scheduled task and counts the attempt, then records that it was sent,
  that it is to be tried again, or that its attempts are used up.
\<close>

inductive api_task_step :: "outreach_task \<Rightarrow> outreach_task \<Rightarrow> bool" where
  manual: "task_status t \<in> {SCHEDULED, DISPATCHING, FAILED} \<Longrightarrow> st \<in> {SENT, FAILED} \<Longrightarrow>
    api_task_step t (t\<lparr>task_status := st, task_last_error := err\<rparr>)"
| cancel: "api_task_step t (t\<lparr>task_status := CANCELLED\<rparr>)"

inductive worker_task_step :: "outreach_task \<Rightarrow> outreach_task \<Rightarrow> bool" where
  claim: "task_status t = SCHEDULED \<Longrightarrow>
    worker_task_step t (t\<lparr>task_status := DISPATCHING, task_attempt_count := task_attempt_count t + 1\<rparr>)"
| sent: "task_status t = DISPATCHING \<Longrightarrow>
    worker_task_step t (t\<lparr>task_status := SENT, task_last_error := None\<rparr>)"
| retry: "task_status t = DISPATCHING \<Longrightarrow> task_attempt_count t < task_max_attempts t \<Longrightarrow>
    worker_task_step t (t\<lparr>task_status := SCHEDULED, task_scheduled_at := at, task_last_error := Some err\<rparr>)"
| exhausted: "task_status t = DISPATCHING \<Longrightarrow> \<not> task_attempt_count t < task_max_attempts t \<Longrightarrow>
    worker_task_step t (t\<lparr>task_status := FAILED, task_scheduled_at := task_scheduled_at t,
      task_last_error := Some err\<rparr>)"

inductive_cases api_task_stepE: "api_task_step t t'"
inductive_cases worker_task_stepE: "worker_task_step t t'"

definition task_step :: "outreach_task \<Rightarrow> outreach_task \<Rightarrow> bool" where
  "task_step t t' \<longleftrightarrow> api_task_step t t' \<or> worker_task_step t t'"

lemma task_stepE:
  assumes "task_step t t'"
  obtains (api) "api_task_step t t'" | (worker) "worker_task_step t t'"
  using assms by (auto simp: task_step_def)

text \<open>What every step keeps, and which rows no step can change.\<close>

lemma task_step_keeps:
  assumes "task_step t t'"
  shows "task_id t' = task_id t" "task_idempotency_key t' = task_idempotency_key t"
    "task_account_id t' = task_account_id t" "task_customer_id t' = task_customer_id t"
    "task_channel t' = task_channel t" "task_policy_decision_id t' = task_policy_decision_id t"
    "task_max_attempts t' = task_max_attempts t" "task_correlation_id t' = task_correlation_id t"
    "task_created_at t' = task_created_at t" "task_attempt_count t \<le> task_attempt_count t'"
  using assms by (auto elim!: task_stepE api_task_stepE worker_task_stepE)

lemma task_step_final: "task_step t t' \<Longrightarrow> task_status t \<in> {SENT, CANCELLED} \<Longrightarrow> task_status t' = CANCELLED"
  by (auto elim!: task_stepE api_task_stepE worker_task_stepE)

definition customer_step :: "customer \<Rightarrow> customer \<Rightarrow> bool" where
  "customer_step c c' \<longleftrightarrow> cust_id c' = cust_id c \<and> cust_external_id c' = cust_external_id c
     \<and> cust_created_at c' = cust_created_at c \<and> (cust_opted_out c \<longrightarrow> cust_opted_out c')"

definition account_step :: "account \<Rightarrow> account \<Rightarrow> bool" where
  "account_step a a' \<longleftrightarrow> acct_id a' = acct_id a \<and> acct_external_id a' = acct_external_id a
     \<and> acct_created_at a' = acct_created_at a \<and> acct_customer_id a' = acct_customer_id a"

section \<open>The invariant\<close>

definition row_ids :: "db \<Rightarrow> uuid list" where
  "row_ids d = map cust_id (customers d) @ map acct_id (accounts d) @ map ev_id (inbound_events d)
     @ map pd_id (policy_decisions d) @ map task_id (outreach_tasks d) @ map ae_id (audit_events d)"

definition fresh_ids :: "db \<Rightarrow> bool" where
  "fresh_ids d \<longleftrightarrow> distinct (row_ids d) \<and> (\<forall>i\<in>set (row_ids d). i < next_uuid d)"

definition unique_keys :: "db \<Rightarrow> bool" where
  "unique_keys d \<longleftrightarrow> distinct (map cust_external_id (customers d))
     \<and> distinct (map acct_external_id (accounts d))
     \<and> distinct (map (\<lambda>e. (ev_source e, ev_external_id e)) (inbound_events d))
     \<and> distinct (map ev_idempotency_key (inbound_events d))
     \<and> distinct (map task_idempotency_key (outreach_tasks d))"

definition owners :: "db \<Rightarrow> (uuid \<times> uuid) set" where
  "owners d = set (map (\<lambda>a. (acct_id a, acct_customer_id a)) (accounts d))"

definition decision_ok :: "db \<Rightarrow> policy_decision \<Rightarrow> bool" where
  "decision_ok d p \<longleftrightarrow> (pd_account_id p, pd_customer_id p) \<in> owners d
     \<and> (\<exists>i\<in>set (map ev_id (inbound_events d)). pd_inbound_event_id p = Some i)"

text \<open>
  A task rests on a decision of the same account, customer and channel that is not
  a block, and its key names the event of that decision.
\<close>

definition task_basis :: "policy_decision \<Rightarrow> outreach_task \<Rightarrow> bool" where
  "task_basis p t \<longleftrightarrow> task_policy_decision_id t = Some (pd_id p) \<and> pd_decision p \<noteq> BLOCK
     \<and> pd_account_id p = task_account_id t \<and> pd_customer_id p = task_customer_id t
     \<and> pd_channel p = Some (task_channel t)
     \<and> task_idempotency_key t = ''outreach_task:'' @ uuid_str (the (pd_inbound_event_id p))
         @ '':'' @ channel_value (task_channel t)"

definition attempts_ok :: "outreach_task \<Rightarrow> bool" where
  "attempts_ok t \<longleftrightarrow> 0 \<le> task_attempt_count t \<and> task_attempt_count t \<le> task_max_attempts t
     \<and> (task_status t = SCHEDULED \<longrightarrow> task_attempt_count t < task_max_attempts t)
     \<and> (task_status t = DISPATCHING \<longrightarrow> 0 < task_attempt_count t)"

definition task_ok :: "db \<Rightarrow> outreach_task \<Rightarrow> bool" where
  "task_ok d t \<longleftrightarrow> attempts_ok t \<and> (\<exists>p\<in>set (policy_decisions d). task_basis p t)"

text \<open>
  An audit row that names an event, as its entity or in its payload, names one that
  is stored.
\<close>

definition audit_ok :: "db \<Rightarrow> audit_event \<Rightarrow> bool" where
  "audit_ok d r \<longleftrightarrow> (\<forall>i. map_of (ae_payload r) ''inbound_event_id'' = Some (JStr (uuid_str i))
       \<or> ae_entity_type r = ''inbound_event'' \<and> ae_entity_id r = uuid_str i
     \<longrightarrow> i \<in> set (map ev_id (inbound_events d)))"

definition wf_db :: "db \<Rightarrow> bool" where
  "wf_db d \<longleftrightarrow> fresh_ids d \<and> unique_keys d
     \<and> set (map acct_customer_id (accounts d)) \<subseteq> set (map cust_id (customers d))
     \<and> (\<forall>p\<in>set (policy_decisions d). decision_ok d p)
     \<and> (\<forall>t\<in>set (outreach_tasks d). task_ok d t)
     \<and> (\<forall>r\<in>set (audit_events d). audit_ok d r)"

lemma wf_empty: "wf_db empty_db"
  by (simp add: wf_db_def fresh_ids_def row_ids_def unique_keys_def owners_def empty_db_def)

lemma wf_distinct:
  assumes "wf_db d"
  shows "distinct (map cust_id (customers d))" "distinct (map acct_id (accounts d))"
    "distinct (map ev_id (inbound_events d))" "distinct (map pd_id (policy_decisions d))"
    "distinct (map task_id (outreach_tasks d))" "distinct (map ae_id (audit_events d))"
  using assms by (auto simp: wf_db_def fresh_ids_def row_ids_def)

lemma wf_unique:
  assumes "wf_db d"
  shows "distinct (map cust_external_id (customers d))" "distinct (map acct_external_id (accounts d))"
    "distinct (map (\<lambda>e. (ev_source e, ev_external_id e)) (inbound_events d))"
    "distinct (map ev_idempotency_key (inbound_events d))"
    "distinct (map task_idempotency_key (outreach_tasks d))"
  using assms by (auto simp: wf_db_def unique_keys_def)

lemma wf_ids_below:
  assumes "wf_db d"
  shows "c \<in> set (customers d) \<Longrightarrow> cust_id c < next_uuid d"
    "a \<in> set (accounts d) \<Longrightarrow> acct_id a < next_uuid d"
    "e \<in> set (inbound_events d) \<Longrightarrow> ev_id e < next_uuid d"
    "p \<in> set (policy_decisions d) \<Longrightarrow> pd_id p < next_uuid d"
    "t \<in> set (outreach_tasks d) \<Longrightarrow> task_id t < next_uuid d"
  using assms by (auto simp: wf_db_def fresh_ids_def row_ids_def)

section \<open>Every write keeps the invariant\<close>

lemma fresh_ids_add:
  assumes "fresh_ids d" and "mset (row_ids d') = add_mset (next_uuid d) (mset (row_ids d))"
    and "next_uuid d' = Suc (next_uuid d)"
  shows "fresh_ids d'"
proof -
  have m: "mset (row_ids d') = mset (next_uuid d # row_ids d)" using assms(2) by simp
  have "next_uuid d \<notin> set (row_ids d)" using assms(1) by (auto simp: fresh_ids_def)
  then have "distinct (row_ids d')"
    using assms(1) mset_eq_imp_distinct_iff [OF m] by (simp add: fresh_ids_def)
  moreover have "set (row_ids d') = insert (next_uuid d) (set (row_ids d))"
    using mset_eq_setD [OF m] by simp
  ultimately show ?thesis using assms(1,3) by (auto simp: fresh_ids_def less_Suc_eq)
qed

lemma fresh_ids_put:
  "fresh_ids d \<Longrightarrow> row_ids d' = row_ids d \<Longrightarrow> next_uuid d' = next_uuid d \<Longrightarrow> fresh_ids d'"
  by (simp add: fresh_ids_def)

lemma wf_add_audit:
  assumes "wf_db d" and "ae_id r = next_uuid d" and "audit_ok d r"
  shows "wf_db (add_audit r d)"
proof -
  have "fresh_ids (add_audit r d)"
    by (rule fresh_ids_add [of d]) (use assms in \<open>simp_all add: wf_db_def row_ids_def add_audit_def\<close>)
  with assms show ?thesis
    by (auto simp: wf_db_def unique_keys_def owners_def decision_ok_def task_ok_def audit_ok_def add_audit_def)
qed

lemma wf_add_customer:
  assumes "wf_db d" and "cust_id c = next_uuid d"
    and "cust_external_id c \<notin> cust_external_id ` set (customers d)"
  shows "wf_db (add_customer c d)"
proof -
  have "fresh_ids (add_customer c d)"
    by (rule fresh_ids_add [of d]) (use assms in \<open>simp_all add: wf_db_def row_ids_def add_customer_def\<close>)
  with assms show ?thesis
    by (auto simp: wf_db_def unique_keys_def owners_def decision_ok_def task_ok_def audit_ok_def add_customer_def)
qed

lemma wf_add_account:
  assumes "wf_db d" and "acct_id a = next_uuid d"
    and "acct_external_id a \<notin> acct_external_id ` set (accounts d)"
    and "acct_customer_id a \<in> cust_id ` set (customers d)"
  shows "wf_db (add_account a d)"
proof -
  have "fresh_ids (add_account a d)"
    by (rule fresh_ids_add [of d]) (use assms in \<open>simp_all add: wf_db_def row_ids_def add_account_def\<close>)
  with assms show ?thesis
    by (auto simp: wf_db_def unique_keys_def owners_def decision_ok_def task_ok_def audit_ok_def add_account_def)
qed

lemma wf_add_event:
  assumes "wf_db d" and "ev_id e = next_uuid d"
    and "(ev_source e, ev_external_id e) \<notin> (\<lambda>e. (ev_source e, ev_external_id e)) ` set (inbound_events d)"
    and "ev_idempotency_key e \<notin> ev_idempotency_key ` set (inbound_events d)"
  shows "wf_db (add_event e d)"
proof -
  have "fresh_ids (add_event e d)"
    by (rule fresh_ids_add [of d]) (use assms in \<open>simp_all add: wf_db_def row_ids_def add_event_def\<close>)
  with assms show ?thesis
    by (auto simp: wf_db_def unique_keys_def owners_def decision_ok_def task_ok_def audit_ok_def add_event_def)
qed

lemma wf_add_decision:
  assumes "wf_db d" and "pd_id p = next_uuid d" and "decision_ok d p"
  shows "wf_db (add_decision p d)"
proof -
  have "fresh_ids (add_decision p d)"
    by (rule fresh_ids_add [of d]) (use assms in \<open>simp_all add: wf_db_def row_ids_def add_decision_def\<close>)
  with assms show ?thesis
    by (auto simp: wf_db_def unique_keys_def owners_def decision_ok_def task_ok_def audit_ok_def add_decision_def)
qed

lemma wf_add_task:
  assumes "wf_db d" and "task_id t = next_uuid d" and "task_ok d t"
    and "task_idempotency_key t \<notin> task_idempotency_key ` set (outreach_tasks d)"
  shows "wf_db (add_task t d)"
proof -
  have "fresh_ids (add_task t d)"
    by (rule fresh_ids_add [of d]) (use assms in \<open>simp_all add: wf_db_def row_ids_def add_task_def\<close>)
  with assms show ?thesis
    by (auto simp: wf_db_def unique_keys_def owners_def decision_ok_def task_ok_def audit_ok_def add_task_def)
qed

lemma wf_put_customer:
  assumes "wf_db d" and "c \<in> set (customers d)" and "customer_step c c'"
  shows "wf_db (put_customer c' d)"
proof -
  have same: "map g (put_row cust_id c' (customers d)) = map g (customers d)" if "g c' = g c" for g :: "customer \<Rightarrow> 'b"
    using map_put_row [OF wf_distinct(1) [OF assms(1)] assms(2) _ that] assms(3) by (simp add: customer_step_def)
  have id: "cust_id c' = cust_id c" and ext: "cust_external_id c' = cust_external_id c"
    using assms(3) by (auto simp: customer_step_def)
  have "fresh_ids (put_customer c' d)"
    by (rule fresh_ids_put [of d])
      (use assms same [of cust_id] id in \<open>simp_all add: wf_db_def row_ids_def put_customer_def\<close>)
  with assms(1) same [of cust_id, OF id] same [of cust_external_id, OF ext] show ?thesis
    by (simp add: wf_db_def unique_keys_def owners_def decision_ok_def task_ok_def audit_ok_def put_customer_def
        del: set_map)
qed

lemma wf_put_account:
  assumes "wf_db d" and "a \<in> set (accounts d)" and "account_step a a'"
  shows "wf_db (put_account a' d)"
proof -
  have same: "map g (put_row acct_id a' (accounts d)) = map g (accounts d)" if "g a' = g a" for g :: "account \<Rightarrow> 'b"
    using map_put_row [OF wf_distinct(2) [OF assms(1)] assms(2) _ that] assms(3) by (simp add: account_step_def)
  have id: "acct_id a' = acct_id a" and ext: "acct_external_id a' = acct_external_id a"
    and own: "acct_customer_id a' = acct_customer_id a"
    and pair: "(acct_id a', acct_customer_id a') = (acct_id a, acct_customer_id a)"
    using assms(3) by (auto simp: account_step_def)
  have "owners (put_account a' d) = owners d"
    using same [of "\<lambda>a. (acct_id a, acct_customer_id a)", OF pair]
    unfolding owners_def put_account_def by simp
  moreover have "fresh_ids (put_account a' d)"
    by (rule fresh_ids_put [of d])
      (use assms same [of acct_id] id in \<open>simp_all add: wf_db_def row_ids_def put_account_def\<close>)
  ultimately show ?thesis
    using assms(1) same [of acct_external_id, OF ext] same [of acct_customer_id, OF own]
    by (simp add: wf_db_def unique_keys_def decision_ok_def task_ok_def audit_ok_def put_account_def del: set_map)
qed

lemma wf_put_event:
  assumes "wf_db d" and "e \<in> set (inbound_events d)" and "ev_id e' = ev_id e"
    and "ev_source e' = ev_source e" and "ev_external_id e' = ev_external_id e"
    and "ev_idempotency_key e' = ev_idempotency_key e"
  shows "wf_db (put_event e' d)"
proof -
  have same: "map g (put_row ev_id e' (inbound_events d)) = map g (inbound_events d)"
    if "g e' = g e" for g :: "inbound_event \<Rightarrow> 'b"
    using map_put_row [OF wf_distinct(3) [OF assms(1)] assms(2,3) that] .
  have "fresh_ids (put_event e' d)"
    by (rule fresh_ids_put [of d])
      (use assms same [of ev_id] in \<open>simp_all add: wf_db_def row_ids_def put_event_def\<close>)
  then show ?thesis
    using assms same [of ev_id] same [of ev_idempotency_key] same [of "\<lambda>e. (ev_source e, ev_external_id e)"]
    by (simp add: wf_db_def unique_keys_def owners_def decision_ok_def task_ok_def audit_ok_def put_event_def
        del: set_map)
qed

lemma task_step_ok: "task_step t t' \<Longrightarrow> task_ok d t \<Longrightarrow> task_ok d t'"
  by (auto simp: task_ok_def attempts_ok_def task_basis_def
      elim!: task_stepE api_task_stepE worker_task_stepE)

lemma wf_put_task:
  assumes "wf_db d" and "t \<in> set (outreach_tasks d)" and "task_step t t'"
  shows "wf_db (put_task t' d)"
proof -
  note keeps = task_step_keeps [OF assms(3)]
  have same: "map g (put_row task_id t' (outreach_tasks d)) = map g (outreach_tasks d)"
    if "g t' = g t" for g :: "outreach_task \<Rightarrow> 'b"
    using map_put_row [OF wf_distinct(5) [OF assms(1)] assms(2) keeps(1) that] .
  have "fresh_ids (put_task t' d)"
    by (rule fresh_ids_put [of d])
      (use assms same [of task_id] keeps in \<open>simp_all add: wf_db_def row_ids_def put_task_def\<close>)
  moreover have "task_ok d x" if "x \<in> set (put_row task_id t' (outreach_tasks d))" for x
    using in_put_row [OF that] assms task_step_ok [OF assms(3)] by (auto simp: wf_db_def)
  ultimately show ?thesis
    using assms(1) same [of task_idempotency_key] keeps(2)
    by (auto simp: wf_db_def unique_keys_def owners_def decision_ok_def task_ok_def audit_ok_def put_task_def)
qed

section \<open>The interface: relations every write respects\<close>

text \<open>
  \<open>keeps R d d'\<close>: starting from a database that satisfies the invariant, \<open>d'\<close>
  satisfies it again and stands in the relation \<open>R\<close> to \<open>d\<close>.
\<close>

definition keeps :: "(db \<Rightarrow> db \<Rightarrow> bool) \<Rightarrow> db \<Rightarrow> db \<Rightarrow> bool" where
  "keeps R d d' \<longleftrightarrow> (wf_db d \<longrightarrow> wf_db d' \<and> R d d')"

lemma keepsI: "(wf_db d \<Longrightarrow> wf_db d') \<Longrightarrow> (wf_db d \<Longrightarrow> R d d') \<Longrightarrow> keeps R d d'"
  by (simp add: keeps_def)

locale api_frame =
  fixes R :: "db \<Rightarrow> db \<Rightarrow> bool"
  assumes refl: "R d d"
    and trans: "R d d' \<Longrightarrow> R d' d'' \<Longrightarrow> R d d''"
    and audit: "wf_db d \<Longrightarrow> ae_id r = next_uuid d \<Longrightarrow> audit_ok d r \<Longrightarrow>
      ae_event_type r \<noteq> ''dispatch_started'' \<Longrightarrow> R d (add_audit r d)"
    and new_customer: "wf_db d \<Longrightarrow> cust_id c = next_uuid d \<Longrightarrow> R d (add_customer c d)"
    and new_account: "wf_db d \<Longrightarrow> acct_id a = next_uuid d \<Longrightarrow>
      acct_customer_id a \<in> cust_id ` set (customers d) \<Longrightarrow> R d (add_account a d)"
    and new_event: "wf_db d \<Longrightarrow> ev_id e = next_uuid d \<Longrightarrow> R d (add_event e d)"
    and new_decision: "wf_db d \<Longrightarrow> pd_id p = next_uuid d \<Longrightarrow> decision_ok d p \<Longrightarrow> R d (add_decision p d)"
    and new_task: "wf_db d \<Longrightarrow> task_id t = next_uuid d \<Longrightarrow> task_ok d t \<Longrightarrow> task_status t = SCHEDULED \<Longrightarrow>
      task_attempt_count t = 0 \<Longrightarrow> R d (add_task t d)"
    and customer_change: "wf_db d \<Longrightarrow> c \<in> set (customers d) \<Longrightarrow> customer_step c c' \<Longrightarrow> R d (put_customer c' d)"
    and account_change: "wf_db d \<Longrightarrow> a \<in> set (accounts d) \<Longrightarrow> account_step a a' \<Longrightarrow> R d (put_account a' d)"
    and event_change: "wf_db d \<Longrightarrow> e \<in> set (inbound_events d) \<Longrightarrow> e' = e\<lparr>ev_processing_status := st\<rparr> \<Longrightarrow>
      R d (put_event e' d)"
    and api_task_change: "wf_db d \<Longrightarrow> t \<in> set (outreach_tasks d) \<Longrightarrow> api_task_step t t' \<Longrightarrow>
      R d (put_task t' d)"
begin

lemma keeps_refl [simp]: "keeps R d d"
  by (simp add: keeps_def refl)

lemma keeps_trans: "keeps R d d' \<Longrightarrow> (wf_db d' \<Longrightarrow> keeps R d' d'') \<Longrightarrow> keeps R d d''"
  using trans by (auto simp: keeps_def)

lemma keeps_audit:
  "ae_id r = next_uuid d \<Longrightarrow> audit_ok d r \<Longrightarrow> ae_event_type r \<noteq> ''dispatch_started'' \<Longrightarrow>
     keeps R d (add_audit r d)"
  by (auto intro: keepsI wf_add_audit audit)

lemma keeps_api_task_change:
  "(wf_db d \<Longrightarrow> t \<in> set (outreach_tasks d)) \<Longrightarrow> api_task_step t t' \<Longrightarrow> keeps R d (put_task t' d)"
  by (rule keepsI) (auto intro: wf_put_task api_task_change simp: task_step_def)

lemma keeps_customer_change:
  "(wf_db d \<Longrightarrow> c \<in> set (customers d)) \<Longrightarrow> customer_step c c' \<Longrightarrow> keeps R d (put_customer c' d)"
  by (auto intro: keepsI wf_put_customer customer_change)

lemma keeps_account_change:
  "(wf_db d \<Longrightarrow> a \<in> set (accounts d)) \<Longrightarrow> account_step a a' \<Longrightarrow> keeps R d (put_account a' d)"
  by (auto intro: keepsI wf_put_account account_change)

lemma keeps_event_change:
  "(wf_db d \<Longrightarrow> e \<in> set (inbound_events d)) \<Longrightarrow> keeps R d (put_event (e\<lparr>ev_processing_status := st\<rparr>) d)"
  by (auto intro!: keepsI event_change wf_put_event [of d e])

end

text \<open>
  The relations that also allow the steps of the worker, which commits the claim of a
  task and the row of its start together.
\<close>

locale db_frame = api_frame +
  assumes outcome_change: "wf_db d \<Longrightarrow> t \<in> set (outreach_tasks d) \<Longrightarrow> worker_task_step t t' \<Longrightarrow>
    task_status t = DISPATCHING \<Longrightarrow> R d (put_task t' d)"
    and logged_claim: "wf_db d \<Longrightarrow> t \<in> set (outreach_tasks d) \<Longrightarrow> task_status t = SCHEDULED \<Longrightarrow>
    t' = t\<lparr>task_status := DISPATCHING, task_attempt_count := task_attempt_count t + 1\<rparr> \<Longrightarrow>
    ae_id r = next_uuid d \<Longrightarrow> ae_event_type r = ''dispatch_started'' \<Longrightarrow>
    ae_entity_id r = uuid_str (task_id t) \<Longrightarrow> R d (add_audit r (put_task t' d))"
begin

lemma keeps_outcome_change:
  "(wf_db d \<Longrightarrow> t \<in> set (outreach_tasks d)) \<Longrightarrow> worker_task_step t t' \<Longrightarrow> task_status t = DISPATCHING \<Longrightarrow>
     keeps R d (put_task t' d)"
  by (rule keepsI) (auto intro: wf_put_task outcome_change simp: task_step_def)

lemma keeps_logged_claim:
  assumes "t \<in> set (outreach_tasks d)" and "task_status t = SCHEDULED"
    and "t' = t\<lparr>task_status := DISPATCHING, task_attempt_count := task_attempt_count t + 1\<rparr>"
    and "ae_id r = next_uuid d" and "ae_event_type r = ''dispatch_started''"
    and "ae_entity_id r = uuid_str (task_id t)" and "audit_ok (put_task t' d) r"
  shows "keeps R d (add_audit r (put_task t' d))"
proof (rule keepsI)
  assume "wf_db d"
  moreover have "task_step t t'" using assms(2,3) by (auto simp: task_step_def intro: worker_task_step.claim)
  ultimately have "wf_db (put_task t' d)" using assms(1) by (blast intro: wf_put_task)
  then show "wf_db (add_audit r (put_task t' d))"
    using assms(4,7) by (intro wf_add_audit) (simp_all add: put_task_def)
next
  assume "wf_db d"
  then show "R d (add_audit r (put_task t' d))" using assms(1-6) by (rule logged_claim)
qed

end

section \<open>The relations the development is about\<close>

text \<open>
  Audit rows are only appended; so are decisions.  An opt-out is never taken back.
  No account moves to another customer.  A task only moves along its life cycle.
\<close>

definition audit_appended :: "db \<Rightarrow> db \<Rightarrow> bool" where
  "audit_appended d d' \<longleftrightarrow> (\<exists>rows. audit_events d' = audit_events d @ rows)"

definition decisions_appended :: "db \<Rightarrow> db \<Rightarrow> bool" where
  "decisions_appended d d' \<longleftrightarrow> (\<exists>rows. policy_decisions d' = policy_decisions d @ rows)"

definition opt_out_kept :: "db \<Rightarrow> db \<Rightarrow> bool" where
  "opt_out_kept d d' \<longleftrightarrow> (\<forall>c\<in>set (customers d). \<exists>c'\<in>set (customers d'). customer_step c c')"

definition lineage_kept :: "db \<Rightarrow> db \<Rightarrow> bool" where
  "lineage_kept d d' \<longleftrightarrow> (\<forall>a\<in>set (accounts d). \<exists>a'\<in>set (accounts d'). account_step a a')"

definition tasks_evolved :: "db \<Rightarrow> db \<Rightarrow> bool" where
  "tasks_evolved d d' \<longleftrightarrow> (\<forall>t\<in>set (outreach_tasks d). \<exists>t'\<in>set (outreach_tasks d'). task_step\<^sup>*\<^sup>* t t')"

lemma customer_step_refl [simp]: "customer_step c c"
  by (simp add: customer_step_def)

lemma customer_step_trans: "customer_step c c' \<Longrightarrow> customer_step c' c'' \<Longrightarrow> customer_step c c''"
  by (auto simp: customer_step_def)

lemma account_step_refl [simp]: "account_step a a"
  by (simp add: account_step_def)

lemma account_step_trans: "account_step a a' \<Longrightarrow> account_step a' a'' \<Longrightarrow> account_step a a''"
  by (auto simp: account_step_def)

text \<open>A relation on rows that holds of a replaced row holds of the table.\<close>

lemma put_row_evolves:
  assumes "distinct (map key rows)" and "r \<in> set rows" and "key r' = key r"
    and "S r r'" and "\<And>x. S x x" and "x \<in> set rows"
  shows "\<exists>x'\<in>set (put_row key r' rows). S x x'"
proof (cases "key x = key r")
  case True
  then have "x = r" using key_row_unique [OF assms(1,6,2)] by simp
  then show ?thesis using assms(2-4) put_row_has [of r rows key r'] by auto
next
  case False
  then show ?thesis using assms(3,5,6) put_row_keeps [of x rows key r'] by auto
qed

interpretation audit_log: db_frame audit_appended
  by unfold_locales (auto simp: audit_appended_def write_defs)

interpretation decision_log: db_frame decisions_appended
  by unfold_locales (auto simp: decisions_appended_def write_defs)

interpretation opt_outs: db_frame opt_out_kept
proof unfold_locales
  fix d d' d'' assume "opt_out_kept d d'" and "opt_out_kept d' d''"
  then show "opt_out_kept d d''" unfolding opt_out_kept_def by (meson customer_step_trans)
next
  fix d c c' assume "wf_db d" "c \<in> set (customers d)" "customer_step c c'"
  then show "opt_out_kept d (put_customer c' d)"
    using put_row_evolves [of cust_id "customers d" c c' customer_step] wf_distinct(1) [of d]
    by (simp add: opt_out_kept_def put_customer_def customer_step_def [of c c'])
qed (auto simp: opt_out_kept_def write_defs intro: customer_step_refl)

interpretation lineage: db_frame lineage_kept
proof unfold_locales
  fix d d' d'' assume "lineage_kept d d'" and "lineage_kept d' d''"
  then show "lineage_kept d d''" unfolding lineage_kept_def by (meson account_step_trans)
next
  fix d a a' assume "wf_db d" "a \<in> set (accounts d)" "account_step a a'"
  then show "lineage_kept d (put_account a' d)"
    using put_row_evolves [of acct_id "accounts d" a a' account_step] wf_distinct(2) [of d]
    by (simp add: lineage_kept_def put_account_def account_step_def [of a a'])
qed (auto simp: lineage_kept_def write_defs intro: account_step_refl)

lemma put_task_evolves:
  assumes "wf_db d" and "t \<in> set (outreach_tasks d)" and "task_step t t'"
  shows "tasks_evolved d (put_task t' d)"
  using assms put_row_evolves [of task_id "outreach_tasks d" t t' "task_step\<^sup>*\<^sup>*"] wf_distinct(5) [of d]
    task_step_keeps(1) [of t t'] by (auto simp: tasks_evolved_def put_task_def)

interpretation life_cycle: db_frame tasks_evolved
proof unfold_locales
  fix d d' d'' assume "tasks_evolved d d'" and "tasks_evolved d' d''"
  then show "tasks_evolved d d''" unfolding tasks_evolved_def by (meson rtranclp_trans)
next
  fix d t t' r
  assume "wf_db d" "t \<in> set (outreach_tasks d)" "task_status t = SCHEDULED"
    "t' = t\<lparr>task_status := DISPATCHING, task_attempt_count := task_attempt_count t + 1\<rparr>"
  then have "tasks_evolved d (put_task t' d)"
    by (auto intro!: put_task_evolves simp: task_step_def intro: worker_task_step.claim)
  then show "tasks_evolved d (add_audit r (put_task t' d))" by (simp add: tasks_evolved_def add_audit_def)
qed (auto simp: put_task_evolves task_step_def, auto simp: tasks_evolved_def write_defs)

text \<open>
  A task that a worker has claimed stays as it is under the steps of the others, or
  reaches a status from which no step leads back to a worker.
\<close>

definition claim_kept :: "uuid \<Rightarrow> db \<Rightarrow> db \<Rightarrow> bool" where
  "claim_kept i d d' \<longleftrightarrow> (\<forall>t\<in>set (outreach_tasks d). task_id t = i
     \<and> task_status t \<notin> {SCHEDULED, BLOCKED} \<longrightarrow>
     (\<exists>t'\<in>set (outreach_tasks d'). task_id t' = i
        \<and> (t' = t \<or> task_status t' \<in> {SENT, FAILED, CANCELLED})))"

interpretation claims: api_frame "claim_kept i" for i
proof unfold_locales
  fix d d' d'' assume "claim_kept i d d'" and "claim_kept i d' d''"
  then show "claim_kept i d d''" unfolding claim_kept_def
    by (metis insertCI insertE outreach_task_status.distinct singletonD)
next
  fix d t t' assume wf: "wf_db d" and t: "t \<in> set (outreach_tasks d)" and step: "api_task_step t t'"
  have id: "task_id t' = task_id t" using step task_step_keeps(1) by (simp add: task_step_def)
  have st: "task_status t' \<in> {SENT, FAILED, CANCELLED}" using step by (auto elim: api_task_stepE)
  show "claim_kept i d (put_task t' d)"
    unfolding claim_kept_def
  proof (intro ballI impI)
    fix x assume x: "x \<in> set (outreach_tasks d)" "task_id x = i \<and> task_status x \<notin> {SCHEDULED, BLOCKED}"
    show "\<exists>x'\<in>set (outreach_tasks (put_task t' d)). task_id x' = i \<and>
        (x' = x \<or> task_status x' \<in> {SENT, FAILED, CANCELLED})"
    proof (cases "task_id x = task_id t")
      case True
      then show ?thesis
        using put_row_has [OF t, of task_id t'] id st x(2) by (auto simp: put_task_def)
    next
      case False
      then show ?thesis
        using put_row_keeps [OF x(1), of task_id t'] id x(2) by (auto simp: put_task_def)
    qed
  qed
qed (auto simp: claim_kept_def write_defs)

text \<open>
  The audit log has one row for every attempt: as many rows of the start of a dispatch
  as the task counts attempts, and no such row without its task.
\<close>

definition started_row :: "uuid \<Rightarrow> audit_event \<Rightarrow> bool" where
  "started_row i r \<longleftrightarrow> ae_event_type r = ''dispatch_started'' \<and> ae_entity_id r = uuid_str i"

definition attempts_logged :: "db \<Rightarrow> bool" where
  "attempts_logged d \<longleftrightarrow>
     (\<forall>t\<in>set (outreach_tasks d). task_attempt_count t = int (rowcount (started_row (task_id t)) (audit_events d)))
     \<and> (\<forall>r\<in>set (audit_events d). ae_event_type r = ''dispatch_started'' \<longrightarrow>
          (\<exists>t\<in>set (outreach_tasks d). ae_entity_id r = uuid_str (task_id t)))"

lemma attempts_logged_same:
  assumes "attempts_logged d" and "audit_events d' = audit_events d"
    and "map (\<lambda>t. (task_id t, task_attempt_count t)) (outreach_tasks d') =
      map (\<lambda>t. (task_id t, task_attempt_count t)) (outreach_tasks d)"
  shows "attempts_logged d'"
proof -
  have same: "(\<lambda>t. (task_id t, task_attempt_count t)) ` set (outreach_tasks d') =
      (\<lambda>t. (task_id t, task_attempt_count t)) ` set (outreach_tasks d)"
    using arg_cong [OF assms(3), of set] by simp
  have "\<exists>x\<in>set (outreach_tasks d). task_id x = task_id t \<and> task_attempt_count x = task_attempt_count t"
    if "t \<in> set (outreach_tasks d')" for t
    using imageI [OF that, of "\<lambda>t. (task_id t, task_attempt_count t)"] unfolding same by auto
  moreover have "\<exists>x\<in>set (outreach_tasks d'). task_id x = task_id t" if "t \<in> set (outreach_tasks d)" for t
    using imageI [OF that, of "\<lambda>t. (task_id t, task_attempt_count t)"] unfolding same [symmetric] by auto
  ultimately show ?thesis using assms(1) unfolding attempts_logged_def assms(2) by metis
qed

lemma attempts_logged_put:
  assumes "wf_db d" and "t \<in> set (outreach_tasks d)" and "task_id t' = task_id t"
    and "task_attempt_count t' = task_attempt_count t" and "attempts_logged d"
  shows "attempts_logged (put_task t' d)"
  using assms(5)
proof (rule attempts_logged_same)
  show "map (\<lambda>t. (task_id t, task_attempt_count t)) (outreach_tasks (put_task t' d)) =
      map (\<lambda>t. (task_id t, task_attempt_count t)) (outreach_tasks d)"
    using map_put_row [OF wf_distinct(5) [OF assms(1)] assms(2,3), of "\<lambda>t. (task_id t, task_attempt_count t)"]
      assms(3,4) by (simp add: put_task_def)
qed (simp add: put_task_def)

lemma attempts_logged_claim:
  assumes "wf_db d" and "t \<in> set (outreach_tasks d)" and "task_id t' = task_id t"
    and "task_attempt_count t' = task_attempt_count t + 1" and "ae_event_type r = ''dispatch_started''"
    and "ae_entity_id r = uuid_str (task_id t)" and "attempts_logged d"
  shows "attempts_logged (add_audit r (put_task t' d))"
proof -
  let ?rows = "put_row task_id t' (outreach_tasks d)"
  have old: "task_attempt_count x = int (rowcount (started_row (task_id x)) (audit_events d))"
    if "x \<in> set (outreach_tasks d)" for x
    using that assms(7) by (simp add: attempts_logged_def)
  have row: "rowcount (started_row i) (audit_events d @ [r]) =
      rowcount (started_row i) (audit_events d) + (if i = task_id t then 1 else 0)" for i
    using assms(5,6) by (auto simp: rowcount_def started_row_def)
  have "task_attempt_count x = int (rowcount (started_row (task_id x)) (audit_events d @ [r]))"
    if "x \<in> set ?rows" for x
    using in_put_row [OF that]
  proof
    assume "x = t'"
    then show ?thesis using old [OF assms(2)] assms(3,4) row by simp
  next
    assume "x \<in> set (outreach_tasks d) \<and> task_id x \<noteq> task_id t'"
    then show ?thesis using old [of x] assms(3) row by simp
  qed
  moreover have here: "\<exists>x\<in>set (put_row task_id t' (outreach_tasks d)). task_id x = task_id u"
    if "u \<in> set (outreach_tasks d)" for u
    using that put_row_has [OF assms(2), of task_id t'] put_row_keeps [OF that, of task_id t'] assms(3)
    by (cases "task_id u = task_id t'") auto
  have "\<exists>x\<in>set (put_row task_id t' (outreach_tasks d)). ae_entity_id s = uuid_str (task_id x)"
    if s: "s \<in> set (audit_events d @ [r])" "ae_event_type s = ''dispatch_started''" for s
  proof -
    obtain u where "u \<in> set (outreach_tasks d)" "ae_entity_id s = uuid_str (task_id u)"
      using s assms(2,6,7) by (auto simp: attempts_logged_def)
    with here show ?thesis by metis
  qed
  ultimately show ?thesis
    unfolding attempts_logged_def by (simp add: add_audit_def put_task_def)
qed

lemma attempts_logged_new:
  assumes "wf_db d" and "task_id t = next_uuid d" and "task_attempt_count t = 0" and "attempts_logged d"
  shows "attempts_logged (add_task t d)"
proof -
  have "rowcount (started_row (next_uuid d)) (audit_events d) = 0"
    using assms(4) wf_ids_below [OF assms(1)]
    by (fastforce simp: rowcount_zero_iff started_row_def attempts_logged_def)
  then show ?thesis
    using assms(2-4) by (auto simp: attempts_logged_def add_task_def)
qed

interpretation attempt_log: db_frame "\<lambda>d d'. attempts_logged d \<longrightarrow> attempts_logged d'"
proof unfold_locales
  fix d and r :: audit_event assume "ae_event_type r \<noteq> ''dispatch_started''"
  then show "attempts_logged d \<longrightarrow> attempts_logged (add_audit r d)"
    by (auto simp: attempts_logged_def add_audit_def rowcount_def started_row_def)
next
  fix d t t' assume "wf_db d" "t \<in> set (outreach_tasks d)" "api_task_step t t'"
  moreover have "task_id t' = task_id t \<and> task_attempt_count t' = task_attempt_count t"
    using \<open>api_task_step t t'\<close> by (auto elim!: api_task_stepE)
  ultimately show "attempts_logged d \<longrightarrow> attempts_logged (put_task t' d)"
    using attempts_logged_put [of d t t'] by simp
next
  fix d t t' assume "wf_db d" "t \<in> set (outreach_tasks d)" "worker_task_step t t'" "task_status t = DISPATCHING"
  moreover have "task_id t' = task_id t \<and> task_attempt_count t' = task_attempt_count t"
    using \<open>worker_task_step t t'\<close> \<open>task_status t = DISPATCHING\<close> by (auto elim!: worker_task_stepE)
  ultimately show "attempts_logged d \<longrightarrow> attempts_logged (put_task t' d)"
    using attempts_logged_put [of d t t'] by simp
qed (auto simp: attempts_logged_new intro!: attempts_logged_claim, auto simp: attempts_logged_def write_defs)

text \<open>No stored event is lost.\<close>

definition events_kept :: "db \<Rightarrow> db \<Rightarrow> bool" where
  "events_kept d d' \<longleftrightarrow> ev_id ` set (inbound_events d) \<subseteq> ev_id ` set (inbound_events d')"

interpretation stored_events: db_frame events_kept
proof unfold_locales
  fix d d' d'' assume "events_kept d d'" and "events_kept d' d''"
  then show "events_kept d d''" unfolding events_kept_def by (rule subset_trans)
next
  fix d e e' st assume "wf_db d" "e \<in> set (inbound_events d)" "e' = e\<lparr>ev_processing_status := st\<rparr>"
  then have "map ev_id (inbound_events (put_event e' d)) = map ev_id (inbound_events d)"
    using map_put_row [of ev_id "inbound_events d" e e' ev_id] wf_distinct(3) [of d] by (simp add: put_event_def)
  then show "events_kept d (put_event e' d)" by (metis events_kept_def list.set_map order_refl)
qed (auto simp: events_kept_def write_defs)

text \<open>All of them at once.\<close>

definition history_kept :: "db \<Rightarrow> db \<Rightarrow> bool" where
  "history_kept d d' \<longleftrightarrow> audit_appended d d' \<and> decisions_appended d d' \<and> opt_out_kept d d'
     \<and> lineage_kept d d' \<and> tasks_evolved d d' \<and> events_kept d d'"

interpretation history: db_frame history_kept
proof unfold_locales
  show "history_kept d d" for d
    by (simp add: history_kept_def audit_log.refl decision_log.refl opt_outs.refl lineage.refl life_cycle.refl stored_events.refl)
  show "history_kept d d' \<Longrightarrow> history_kept d' d'' \<Longrightarrow> history_kept d d''" for d d' d''
    unfolding history_kept_def
    by (meson audit_log.trans decision_log.trans opt_outs.trans lineage.trans life_cycle.trans stored_events.trans)
qed (simp_all add: history_kept_def audit_log.audit audit_log.new_customer audit_log.new_account
    audit_log.new_event audit_log.new_decision audit_log.new_task
    audit_log.customer_change audit_log.account_change audit_log.event_change audit_log.api_task_change audit_log.outcome_change audit_log.logged_claim
    decision_log.audit decision_log.new_customer decision_log.new_account
    decision_log.new_event decision_log.new_decision decision_log.new_task
    decision_log.customer_change decision_log.account_change decision_log.event_change decision_log.api_task_change decision_log.outcome_change decision_log.logged_claim
    opt_outs.audit opt_outs.new_customer opt_outs.new_account
    opt_outs.new_event opt_outs.new_decision opt_outs.new_task
    opt_outs.customer_change opt_outs.account_change opt_outs.event_change opt_outs.api_task_change opt_outs.outcome_change opt_outs.logged_claim
    lineage.audit lineage.new_customer lineage.new_account
    lineage.new_event lineage.new_decision lineage.new_task
    lineage.customer_change lineage.account_change lineage.event_change lineage.api_task_change lineage.outcome_change lineage.logged_claim
    life_cycle.audit life_cycle.new_customer life_cycle.new_account
    life_cycle.new_event life_cycle.new_decision life_cycle.new_task
    life_cycle.customer_change life_cycle.account_change life_cycle.event_change life_cycle.api_task_change life_cycle.outcome_change life_cycle.logged_claim
    stored_events.audit stored_events.new_customer stored_events.new_account
    stored_events.new_event stored_events.new_decision stored_events.new_task
    stored_events.customer_change stored_events.account_change stored_events.event_change stored_events.api_task_change stored_events.outcome_change stored_events.logged_claim)

end
