(* ===== verification/Planner_Facts.thy ===== *)
theory Planner_Facts
  imports Planner "HOL-Library.Multiset"
begin

text \<open>
  What the planner does: the explicit effect of each write on the database, the
  proposals of an event, the accounting of the loop over the proposals, the
  cancellation of scheduled tasks, and that a second run of an event does nothing.
\<close>

section \<open>Writes as record updates\<close>

definition audit_row ::
  "env \<Rightarrow> db \<Rightarrow> string \<Rightarrow> string \<Rightarrow> string \<Rightarrow> audit_actor_type \<Rightarrow> uuid \<Rightarrow> string option
     \<Rightarrow> payload \<Rightarrow> audit_event" where
  "audit_row E d et ei ev at c ai p =
     \<lparr>ae_id = next_uuid d, ae_entity_type = et, ae_entity_id = ei, ae_event_type = ev,
       ae_actor_type = at, ae_actor_id = ai, ae_correlation_id = c, ae_payload = p,
       ae_created_at = py_now E (length (audit_events d))\<rparr>"

lemma audit_row_fields [simp]:
  "ae_entity_type (audit_row E d et ei ev at c ai p) = et"
  "ae_entity_id (audit_row E d et ei ev at c ai p) = ei"
  "ae_event_type (audit_row E d et ei ev at c ai p) = ev"
  "ae_payload (audit_row E d et ei ev at c ai p) = p"
  "ae_correlation_id (audit_row E d et ei ev at c ai p) = c"
  "ae_actor_type (audit_row E d et ei ev at c ai p) = at"
  "ae_actor_id (audit_row E d et ei ev at c ai p) = ai"
  "ae_id (audit_row E d et ei ev at c ai p) = next_uuid d"
  by (simp_all add: audit_row_def)

lemma append_audit_event_update:
  "snd (append_audit_event E d et ei ev at c ai (Some p)) =
     d\<lparr>audit_events := audit_events d @ [audit_row E d et ei ev at c ai p],
       next_uuid := Suc (next_uuid d)\<rparr>"
  by (simp add: append_audit_event_def uuid4_def Let_def audit_row_def)

definition planner_payload :: "inbound_event \<Rightarrow> payload \<Rightarrow> payload" where
  "planner_payload ev p = dict_merge p
     [(''inbound_event_id'', JStr (uuid_str (ev_id ev))),
      (''inbound_event_type'', JStr (ev_event_type ev))]"

lemma planner_payload_event:
  "map_of (planner_payload ev p) ''inbound_event_id'' = Some (JStr (uuid_str (ev_id ev)))"
  by (simp add: planner_payload_def map_of_dict_merge)

definition planner_row ::
  "env \<Rightarrow> inbound_event \<Rightarrow> uuid \<Rightarrow> string \<Rightarrow> string \<Rightarrow> string \<Rightarrow> payload \<Rightarrow> db \<Rightarrow> audit_event" where
  "planner_row E ev c et ent ei p d =
     audit_row E d ent ei et SYSTEM c (Some ''outreach-planner'') (planner_payload ev p)"

lemma planner_row_fields [simp]:
  "ae_entity_type (planner_row E ev c et ent ei p d) = ent"
  "ae_entity_id (planner_row E ev c et ent ei p d) = ei"
  "ae_event_type (planner_row E ev c et ent ei p d) = et"
  "ae_payload (planner_row E ev c et ent ei p d) = planner_payload ev p"
  "ae_correlation_id (planner_row E ev c et ent ei p d) = c"
  "ae_id (planner_row E ev c et ent ei p d) = next_uuid d"
  by (simp_all add: planner_row_def)

lemma planner_audit_update:
  "planner_audit E ev c et ent ei p d =
     d\<lparr>audit_events := audit_events d @ [planner_row E ev c et ent ei p d],
       next_uuid := Suc (next_uuid d)\<rparr>"
  by (simp add: planner_audit_def append_audit_event_update planner_row_def planner_payload_def)

lemma append_processed_marker_update:
  assumes "map_of PROCESSED_MARKERS (ev_event_type ev) = Some m"
  shows "append_processed_marker E ev c d =
     d\<lparr>audit_events := audit_events d @ [audit_row E d ''inbound_event'' (uuid_str (ev_id ev)) m
         SYSTEM c (Some ''outreach-planner'')
         [(''marker'', JStr m), (''inbound_event_type'', JStr (ev_event_type ev))]],
       next_uuid := Suc (next_uuid d)\<rparr>"
  using assms by (simp add: append_processed_marker_def append_audit_event_update)

section \<open>The next business day\<close>

lemma skip_weekend_Inr:
  "skip_weekend d = Inr c \<Longrightarrow> d \<le> c \<and> c \<le> d + 2 \<and> weekday c < 5
     \<and> (\<forall>e. d \<le> e \<and> e < c \<longrightarrow> 5 \<le> weekday e)"
proof (induction d rule: skip_weekend.induct)
  case (1 d)
  show ?case
  proof (cases "5 \<le> weekday d")
    case True
    with 1 have *: "d + 1 \<le> c" "weekday c < 5"
        "\<forall>e. d + 1 \<le> e \<and> e < c \<longrightarrow> 5 \<le> weekday e" "skip_weekend (d + 1) = Inr c"
      by (auto simp: skip_weekend.simps [of d] split: if_splits)
    have all: "\<forall>e. d \<le> e \<and> e < c \<longrightarrow> 5 \<le> weekday e"
      using *(3) True by (metis add1_zle_eq le_less)
    have "c \<le> d + 2"
    proof (rule ccontr)
      assume "\<not> c \<le> d + 2"
      then have "5 \<le> weekday d" "5 \<le> weekday (d + 1)" "5 \<le> weekday (d + 2)"
        using all by auto
      then show False unfolding weekday_def by presburger
    qed
    with * all show ?thesis by simp
  next
    case False
    with 1(2) show ?thesis by (auto simp: skip_weekend.simps [of d])
  qed
qed

lemma skip_weekend_total:
  "d + 2 < days_in_range \<Longrightarrow> \<exists>c. skip_weekend d = Inr c"
proof -
  assume bound: "d + 2 < days_in_range"
  have "weekday d < 5 \<or> weekday (d + 1) < 5 \<or> weekday (d + 2) < 5"
    unfolding weekday_def by presburger
  then show ?thesis
    using bound by (auto simp: skip_weekend.simps [of d] skip_weekend.simps [of "d + 1"]
        skip_weekend.simps [of "d + 2"] add.assoc)
qed

text \<open>C18. The call of a delinquency is proposed for 10:00 on the customer's clock on the
  first weekday after the local date of the event: the days skipped are all
  weekend days, so it is one to three days ahead; the loop that skips them always ends.\<close>

theorem next_business_day_correct:
  assumes "tzdb E tzname = Inr z" and "astimezone now (ZoneInfo tzname z) = Inr local"
    and "date_of (dt_wall local) + 3 < days_in_range"
  shows "\<exists>dt. next_business_day_at_10 E now tzname = Inr dt
    \<and> dt_tzinfo dt = ZoneInfo tzname z \<and> time_of (dt_wall dt) = hours 10
    \<and> weekday (date_of (dt_wall dt)) < 5
    \<and> date_of (dt_wall local) < date_of (dt_wall dt)
    \<and> date_of (dt_wall dt) \<le> date_of (dt_wall local) + 3
    \<and> (\<forall>d. date_of (dt_wall local) < d \<and> d < date_of (dt_wall dt) \<longrightarrow> 5 \<le> weekday d)"
proof -
  let ?tomorrow = "date_of (dt_wall local) + 1"
  have "?tomorrow + 2 < days_in_range" using assms(3) by simp
  then obtain c where c: "skip_weekend ?tomorrow = Inr c" using skip_weekend_total by blast
  have "next_business_day_at_10 E now tzname = Inr (combine c (hours 10) (ZoneInfo tzname z))"
    using assms c by (simp add: next_business_day_at_10_def Let_def)
  moreover have "date_of (days c + hours 10) = c" "time_of (days c + hours 10) = hours 10"
    by (simp_all del: mult_numeral_1)
  ultimately show ?thesis
    using skip_weekend_Inr [OF c] by (auto simp: combine_def)
qed

section \<open>One pass of the loop\<close>

text \<open>
  The decision row and the task row a pass writes for a proposal, as conditions on
  their columns.  \<open>compliant_time\<close> is the promise about the time of a task: for a
  call or a message the customer's clock is inside the contact window.
\<close>

definition planned_decision ::
  "inbound_event \<Rightarrow> customer \<Rightarrow> account \<Rightarrow> proposed_outreach \<Rightarrow> policy_decision \<Rightarrow> bool" where
  "planned_decision ev c a p pd \<longleftrightarrow> pd_account_id pd = acct_id a \<and> pd_customer_id pd = cust_id c
     \<and> pd_inbound_event_id pd = Some (ev_id ev) \<and> pd_channel pd = Some (prop_channel p)"

definition compliant_time :: "env \<Rightarrow> customer \<Rightarrow> outreach_task \<Rightarrow> bool" where
  "compliant_time E c t \<longleftrightarrow> task_channel t = EMAIL \<or>
     (\<exists>dt tz local. task_scheduled_at t = instant dt
        \<and> get_customer_timezone E (cust_timezone c) = Inr tz
        \<and> astimezone dt tz = Inr local \<and> in_contact_window (dt_wall local))"

definition contact_permitted :: "customer \<Rightarrow> account \<Rightarrow> outreach_channel \<Rightarrow> bool" where
  "contact_permitted c a ch \<longleftrightarrow> \<not> cust_opted_out c \<and> acct_status a \<notin> {PAUSED, RESOLVED}
     \<and> (case ch of SMS \<Rightarrow> cust_sms_consent c | CALL \<Rightarrow> cust_call_consent c
        | EMAIL \<Rightarrow> cust_email_consent c)"

definition planned_task ::
  "env \<Rightarrow> inbound_event \<Rightarrow> customer \<Rightarrow> account \<Rightarrow> uuid \<Rightarrow> policy_decision list \<Rightarrow> outreach_task \<Rightarrow> bool" where
  "planned_task E ev c a corr ds t \<longleftrightarrow> task_account_id t = acct_id a
     \<and> task_customer_id t = cust_id c \<and> task_correlation_id t = corr
     \<and> task_status t = SCHEDULED \<and> task_attempt_count t = 0 \<and> task_max_attempts t = 3
     \<and> task_idempotency_key t = task_key ev (task_channel t) \<and> task_last_error t = None
     \<and> task_created_at t = txn_now E
     \<and> contact_permitted c a (task_channel t) \<and> compliant_time E c t
     \<and> (\<exists>pd\<in>set ds. task_policy_decision_id t = Some (pd_id pd) \<and> pd_decision pd \<noteq> BLOCK
          \<and> pd_channel pd = Some (task_channel t))"

lemma planned_task_mono:
  "planned_task E ev c a corr ds t \<Longrightarrow> set ds \<subseteq> set ds' \<Longrightarrow> planned_task E ev c a corr ds' t"
  unfolding planned_task_def by blast

lemma proposal_input_Inr:
  assumes "proposal_input c a cap p recent = Inr pin"
  shows "pin = \<lparr>pi_channel = prop_channel p, pi_scheduled_at = prop_scheduled_at p,
    pi_customer_timezone = cust_timezone c, pi_sms_consent = cust_sms_consent c,
    pi_call_consent = cust_call_consent c, pi_email_consent = cust_email_consent c,
    pi_opted_out = cust_opted_out c, pi_account_status = acct_status a,
    pi_recent_outbound_attempt_count = int recent, pi_frequency_cap = cap\<rparr>"
  using assms by (auto simp: proposal_input_def make_policy_input_def split: if_splits)

lemma hard_block_proposal:
  assumes "proposal_input c a cap p recent = Inr pin"
  shows "hard_block pin \<longleftrightarrow> \<not> contact_permitted c a (prop_channel p)"
  using proposal_input_Inr [OF assms]
  by (auto simp: hard_block_def channel_consent_def contact_permitted_def
      split: outreach_channel.splits)

lemma evaluate_policy_channel: "evaluate_policy E pin = Inr r \<Longrightarrow> res_channel r = pi_channel pin"
  by (cases "hard_block pin")
    (auto simp: evaluate_policy_blocked evaluate_policy_unblocked Let_def split: sum.splits if_splits)

text \<open>When a pass schedules: the result is not a block, the cap leaves room, and the time is compliant.\<close>

definition schedules :: "policy_result \<Rightarrow> bool" where
  "schedules r \<longleftrightarrow> res_decision r = ALLOW \<or> res_decision r = DEFER
     \<and> ''frequency_cap_exceeded'' \<notin> set (res_reasons r) \<and> res_defer_until r \<noteq> None"

definition scheduled_time :: "policy_result \<Rightarrow> proposed_outreach \<Rightarrow> datetime" where
  "scheduled_time r p = (if res_decision r = DEFER then the (res_defer_until r) else prop_scheduled_at p)"

lemma schedules_below_cap:
  assumes "evaluate_policy E pin = Inr r" and "schedules r"
  shows "\<not> hard_block pin" "pi_recent_outbound_attempt_count pin < pi_frequency_cap pin"
  using assms by (cases "hard_block pin";
      auto simp: evaluate_policy_blocked evaluate_policy_unblocked schedules_def Let_def
        split: sum.splits if_splits)+

lemma schedules_in_window:
  assumes eval: "evaluate_policy E pin = Inr r" and "schedules r"
    and "pi_channel pin \<noteq> EMAIL" and "pi_scheduled_at pin = prop_scheduled_at p"
  shows "\<exists>tz local. get_customer_timezone E (pi_customer_timezone pin) = Inr tz
    \<and> astimezone (scheduled_time r p) tz = Inr local \<and> in_contact_window (dt_wall local)"
proof -
  have free: "\<not> hard_block pin" using eval \<open>schedules r\<close> by (rule schedules_below_cap)
  show ?thesis
  proof (cases "res_decision r = DEFER")
    case True
    with eval free \<open>schedules r\<close> obtain u where u: "res_defer_until r = Some u"
        "quiet_hours_defer_until E pin = Inr (Some u)"
      by (auto simp: evaluate_policy_unblocked schedules_def Let_def split: sum.splits if_splits)
    from u(2) obtain tz local where "get_customer_timezone E (pi_customer_timezone pin) = Inr tz"
        "dt_tzinfo u = tz" "time_of (dt_wall u) = OUTREACH_WINDOW_START"
      by (rule quiet_hours_defer_untilE)
    with True u(1) show ?thesis
      by (simp add: scheduled_time_def in_contact_window_def window_bounds)
  next
    case False
    with \<open>schedules r\<close> have "res_decision r = ALLOW" by (auto simp: schedules_def)
    with False eval free assms(3,4) show ?thesis
      by (auto simp: evaluate_policy_unblocked quiet_hours_defer_until_def in_contact_window_def
          scheduled_time_def Let_def split: sum.splits if_splits)
  qed
qed

text \<open>The effect of recording a decision and of scheduling a task.\<close>

definition new_decision :: "env \<Rightarrow> inbound_event \<Rightarrow> customer \<Rightarrow> account \<Rightarrow> policy_result \<Rightarrow> db \<Rightarrow> policy_decision" where
  "new_decision E ev c a r d = \<lparr>pd_id = next_uuid d, pd_account_id = acct_id a,
     pd_customer_id = cust_id c, pd_inbound_event_id = Some (ev_id ev),
     pd_decision = res_decision r, pd_channel = Some (res_channel r),
     pd_reasons = res_reasons r, pd_evaluated_at = txn_now E\<rparr>"

definition new_task ::
  "env \<Rightarrow> inbound_event \<Rightarrow> customer \<Rightarrow> account \<Rightarrow> uuid \<Rightarrow> policy_decision \<Rightarrow> outreach_channel
     \<Rightarrow> datetime \<Rightarrow> db \<Rightarrow> outreach_task" where
  "new_task E ev c a corr pd ch at d = \<lparr>task_id = next_uuid d, task_account_id = acct_id a,
     task_customer_id = cust_id c, task_channel = ch, task_correlation_id = corr,
     task_status = SCHEDULED, task_scheduled_at = instant at, task_attempt_count = 0,
     task_max_attempts = 3, task_idempotency_key = task_key ev ch,
     task_policy_decision_id = Some (pd_id pd), task_last_error = None,
     task_created_at = txn_now E\<rparr>"

lemma record_decision_effect:
  assumes "record_decision E ev c a corr r d = (pd, d1)"
  obtains row where "pd = new_decision E ev c a r d"
    and "ae_event_type row = ''policy_decision_recorded''"
    and "d1 = d\<lparr>policy_decisions := policy_decisions d @ [pd],
          audit_events := audit_events d @ [row], next_uuid := next_uuid d + 2\<rparr>"
proof -
  let ?row = "planner_row E ev corr ''policy_decision_recorded'' ''policy_decision''
    (uuid_str (next_uuid d))
    [(''decision'', JStr (outcome_value (res_decision r))),
     (''channel'', JStr (channel_value (res_channel r))),
     (''reasons'', JList (map JStr (res_reasons r)))]
    (d\<lparr>next_uuid := Suc (next_uuid d),
       policy_decisions := policy_decisions d @ [new_decision E ev c a r d]\<rparr>)"
  show thesis
    using assms
    by (intro that [of ?row])
      (auto simp: record_decision_def uuid4_def planner_audit_update Let_def new_decision_def)
qed

lemma schedule_task_effect:
  assumes "schedule_task E ev c a corr pd ch at d = Inr d1"
  obtains row where "task_key ev ch \<notin> task_idempotency_key ` set (outreach_tasks d)"
    and "ae_event_type row = ''outreach_task_scheduled''"
    and "d1 = d\<lparr>outreach_tasks := outreach_tasks d @ [new_task E ev c a corr pd ch at d],
          audit_events := audit_events d @ [row], next_uuid := next_uuid d + 2\<rparr>"
proof -
  let ?row = "planner_row E ev corr ''outreach_task_scheduled'' ''account'' (uuid_str (acct_id a))
    [(''channel'', JStr (channel_value ch)), (''scheduled_at'', JStr (isoformat at))]
    (d\<lparr>next_uuid := Suc (next_uuid d),
       outreach_tasks := outreach_tasks d @ [new_task E ev c a corr pd ch at d]\<rparr>)"
  show thesis
    using assms
    by (intro that [of ?row])
      (auto simp: schedule_task_def insert_task_def uuid4_def planner_audit_update Let_def
        find_None_ball new_task_def split: if_splits)
qed

section \<open>The loop\<close>

text \<open>
  What the loop leaves: one decision per proposal, the tasks it scheduled, audit
  rows, and counters that count exactly these rows; once a task was scheduled the
  running count of attempts is within the cap.
\<close>

definition loop_effect ::
  "env \<Rightarrow> inbound_event \<Rightarrow> customer \<Rightarrow> account \<Rightarrow> uuid \<Rightarrow> int \<Rightarrow> proposed_outreach list
     \<Rightarrow> plan_progress \<Rightarrow> db \<Rightarrow> plan_progress \<Rightarrow> db
     \<Rightarrow> policy_decision list \<Rightarrow> outreach_task list \<Rightarrow> audit_event list \<Rightarrow> bool" where
  "loop_effect E ev c a corr cap ps pg d pg' d' ds ts rows \<longleftrightarrow>
     list_all2 (planned_decision ev c a) ps ds
     \<and> (\<forall>t\<in>set ts. planned_task E ev c a corr ds t)
     \<and> (\<forall>r\<in>set rows. ae_event_type r \<noteq> ''outreach_cancelled'')
     \<and> customers d' = customers d \<and> accounts d' = accounts d
     \<and> inbound_events d' = inbound_events d
     \<and> policy_decisions d' = policy_decisions d @ ds
     \<and> outreach_tasks d' = outreach_tasks d @ ts
     \<and> audit_events d' = audit_events d @ rows
     \<and> pg' = \<lparr>pg_recent_count = pg_recent_count pg + length ts,
           pg_created_tasks = pg_created_tasks pg + length ts,
           pg_policy_decisions = pg_policy_decisions pg + length ds,
           pg_blocked_attempts = pg_blocked_attempts pg + rowcount (\<lambda>pd. pd_decision pd = BLOCK) ds,
           pg_deferred_attempts = pg_deferred_attempts pg + rowcount (\<lambda>pd. pd_decision pd = DEFER) ds\<rparr>
     \<and> (ts \<noteq> [] \<longrightarrow> int (pg_recent_count pg') \<le> cap)
     \<and> length ts + rowcount (\<lambda>pd. pd_decision pd = BLOCK) ds \<le> length ds"

lemma loop_effect_Nil: "loop_effect E ev c a corr cap [] pg d pg d [] [] []"
  by (simp add: loop_effect_def)

lemma loop_effect_length:
  "loop_effect E ev c a corr cap ps pg d pg' d' ds ts rows \<Longrightarrow> length ds = length ps"
  unfolding loop_effect_def using list_all2_lengthD by fastforce

lemma loop_effect_append:
  assumes "loop_effect E ev c a corr cap ps1 pg d pg1 d1 ds1 ts1 rows1"
    and "loop_effect E ev c a corr cap ps2 pg1 d1 pg2 d2 ds2 ts2 rows2"
  shows "loop_effect E ev c a corr cap (ps1 @ ps2) pg d pg2 d2 (ds1 @ ds2) (ts1 @ ts2) (rows1 @ rows2)"
proof -
  have "planned_task E ev c a corr (ds1 @ ds2) t" if "t \<in> set (ts1 @ ts2)" for t
    using that assms unfolding loop_effect_def by (auto intro: planned_task_mono)
  then show ?thesis
    using assms unfolding loop_effect_def by (auto simp: list_all2_appendI)
qed

lemma pass_effect:
  assumes pin: "proposal_input c a cap p (pg_recent_count pg) = Inr pin"
    and eval: "evaluate_policy E pin = Inr r"
    and run: "apply_policy_result E ev c a corr p r pg d = (Inr pg1, d1)"
  shows "\<exists>ds ts rows. loop_effect E ev c a corr cap [p] pg d pg1 d1 ds ts rows"
proof -
  obtain pd dd where rec: "record_decision E ev c a corr r d = (pd, dd)" by fastforce
  from rec obtain row where pd: "pd = new_decision E ev c a r d"
    and row: "ae_event_type row = ''policy_decision_recorded''"
    and dd: "dd = d\<lparr>policy_decisions := policy_decisions d @ [pd],
        audit_events := audit_events d @ [row], next_uuid := next_uuid d + 2\<rparr>"
    by (rule record_decision_effect)
  have ch: "res_channel r = prop_channel p"
    using evaluate_policy_channel [OF eval] proposal_input_Inr [OF pin] by simp
  have planned: "planned_decision ev c a p pd"
    by (simp add: pd ch planned_decision_def new_decision_def)
  show ?thesis
  proof (cases "schedules r")
    case False
    let ?rows = "drop (length (audit_events d)) (audit_events d1)"
    have "loop_effect E ev c a corr cap [p] pg d pg1 d1 [pd] [] ?rows"
      using run False planned row
      by (cases "res_decision r")
        (auto simp: apply_policy_result_def rec dd loop_effect_def schedules_def Let_def
          planner_audit_update pd new_decision_def split: if_splits sum.splits)
    then show ?thesis by blast
  next
    case True
    define d2 where "d2 = (if res_decision r = DEFER
      then planner_audit E ev corr ''outreach_deferred'' ''account'' (uuid_str (acct_id a))
        ([(''channel'', JStr (channel_value (res_channel r))),
          (''reasons'', JList (map JStr (res_reasons r)))]
         @ [(''defer_until'', case res_defer_until r of None \<Rightarrow> JNull
              | Some u \<Rightarrow> JStr (isoformat u))]) dd else dd)"
    obtain d3 where sched: "schedule_task E ev c a corr pd (res_channel r) (scheduled_time r p) d2 = Inr d3"
      and d1: "d1 = d3" and pg1: "pg1 = \<lparr>pg_recent_count = Suc (pg_recent_count pg),
          pg_created_tasks = Suc (pg_created_tasks pg),
          pg_policy_decisions = Suc (pg_policy_decisions pg),
          pg_blocked_attempts = pg_blocked_attempts pg,
          pg_deferred_attempts = pg_deferred_attempts pg + (if res_decision r = DEFER then 1 else 0)\<rparr>"
      using run True
      by (auto simp: apply_policy_result_def rec schedules_def Let_def d2_def scheduled_time_def
          split: if_splits sum.splits)
    from sched obtain row2 where "ae_event_type row2 = ''outreach_task_scheduled''"
      and d3: "d3 = d2\<lparr>outreach_tasks := outreach_tasks d2 @
            [new_task E ev c a corr pd (res_channel r) (scheduled_time r p) d2],
          audit_events := audit_events d2 @ [row2], next_uuid := next_uuid d2 + 2\<rparr>"
      by (rule schedule_task_effect)
    let ?t = "new_task E ev c a corr pd (res_channel r) (scheduled_time r p) d2"
    let ?rows = "drop (length (audit_events d)) (audit_events d1)"
    have notblock: "res_decision r \<noteq> BLOCK" using True by (auto simp: schedules_def)
    have permitted: "contact_permitted c a (prop_channel p)"
      using schedules_below_cap(1) [OF eval True] hard_block_proposal [OF pin] by simp
    have time: "compliant_time E c ?t"
      using schedules_in_window [OF eval True, of p] proposal_input_Inr [OF pin] ch
      by (auto simp: compliant_time_def new_task_def)
    have task: "planned_task E ev c a corr [pd] ?t"
      using permitted time notblock
      by (simp add: planned_task_def new_task_def ch pd new_decision_def)
    have "int (Suc (pg_recent_count pg)) \<le> cap"
      using schedules_below_cap(2) [OF eval True] proposal_input_Inr [OF pin] by simp
    then have "loop_effect E ev c a corr cap [p] pg d pg1 d1 [pd] [?t] ?rows"
      using planned task notblock row \<open>ae_event_type row2 = ''outreach_task_scheduled''\<close>
      by (auto simp: loop_effect_def d1 d3 d2_def dd pg1 planner_audit_update pd new_decision_def)
    then show ?thesis by blast
  qed
qed

lemma plan_proposals_effect:
  assumes "plan_proposals E ev c a corr cap ps pg d = (Inr pg', d')"
  shows "\<exists>ds ts rows. loop_effect E ev c a corr cap ps pg d pg' d' ds ts rows"
  using assms
proof (induction ps arbitrary: pg d)
  case Nil
  then have "loop_effect E ev c a corr cap [] pg d pg' d' [] [] []"
    by (simp add: loop_effect_Nil)
  then show ?case by blast
next
  case (Cons p ps)
  then obtain pin r pg1 d1 where "proposal_input c a cap p (pg_recent_count pg) = Inr pin"
      and "evaluate_policy E pin = Inr r"
      and "apply_policy_result E ev c a corr p r pg d = (Inr pg1, d1)"
      and rest: "plan_proposals E ev c a corr cap ps pg1 d1 = (Inr pg', d')"
    by (auto split: sum.splits prod.splits)
  then obtain ds1 ts1 rows1 where "loop_effect E ev c a corr cap [p] pg d pg1 d1 ds1 ts1 rows1"
    using pass_effect by blast
  moreover obtain ds2 ts2 rows2 where "loop_effect E ev c a corr cap ps pg1 d1 pg' d' ds2 ts2 rows2"
    using Cons.IH [OF rest] by blast
  ultimately show ?case using loop_effect_append [of E ev c a corr cap "[p]"] by fastforce
qed

section \<open>Cancellation\<close>

text \<open>
  A select without \<open>ORDER BY\<close> returns each matching row once, in an order the
  database chooses.
\<close>

definition fair_scan :: "env \<Rightarrow> bool" where
  "fair_scan E \<longleftrightarrow> (\<forall>ts. mset (scan_order E ts) = mset ts)"

lemma fair_scan_set: "fair_scan E \<Longrightarrow> set (scan_order E ts) = set ts"
  by (metis fair_scan_def set_mset_mset)

lemma fair_scan_length: "fair_scan E \<Longrightarrow> length (scan_order E ts) = length ts"
  by (metis fair_scan_def size_mset)

text \<open>An audit row that attributes the cancellation of a task to an event.\<close>

definition cancellation_row :: "inbound_event \<Rightarrow> audit_event \<Rightarrow> bool" where
  "cancellation_row ev r \<longleftrightarrow> ae_entity_type r = ''outreach_task''
     \<and> ae_event_type r = ''outreach_cancelled''
     \<and> map_of (ae_payload r) ''inbound_event_id'' = Some (JStr (uuid_str (ev_id ev)))"

lemma cancel_tasks_frame [frame_simps]:
  "customers (cancel_tasks E ev a corr ts d) = customers d"
  "accounts (cancel_tasks E ev a corr ts d) = accounts d"
  "inbound_events (cancel_tasks E ev a corr ts d) = inbound_events d"
  "policy_decisions (cancel_tasks E ev a corr ts d) = policy_decisions d"
  by (induction ts arbitrary: d) (simp_all add: planner_audit_update set_task_status_def)

lemma cancel_tasks_rows:
  "outreach_tasks (cancel_tasks E ev a corr ts d) =
     update_where (\<lambda>t. task_id t \<in> task_id ` set ts) (\<lambda>t. t\<lparr>task_status := CANCELLED\<rparr>)
       (outreach_tasks d)"
proof (induction ts arbitrary: d)
  case Nil
  then show ?case by (simp add: update_where_none)
next
  case (Cons t ts)
  show ?case
    by (simp add: Cons.IH planner_audit_update set_task_status_def update_where_twice
        disj_commute eq_commute [of "task_id t"] cong: disj_cong)
qed

lemma cancel_tasks_audit:
  "\<exists>rows. audit_events (cancel_tasks E ev a corr ts d) = audit_events d @ rows
     \<and> (\<forall>r\<in>set rows. cancellation_row ev r)
     \<and> map ae_entity_id rows = map (\<lambda>t. uuid_str (task_id t)) ts"
proof (induction ts arbitrary: d)
  case Nil
  then show ?case by simp
next
  case (Cons t ts)
  let ?p = "[(''channel'', JStr (channel_value (task_channel t))),
    (''account_external_id'', JStr (acct_external_id a))]"
  let ?row = "planner_row E ev corr ''outreach_cancelled'' ''outreach_task'' (uuid_str (task_id t)) ?p
    (set_task_status (task_id t) CANCELLED d)"
  let ?d = "planner_audit E ev corr ''outreach_cancelled'' ''outreach_task'' (uuid_str (task_id t)) ?p
    (set_task_status (task_id t) CANCELLED d)"
  have d: "audit_events ?d = audit_events d @ [?row]"
    by (simp add: planner_audit_update set_task_status_def)
  have "cancellation_row ev ?row" by (simp add: cancellation_row_def planner_payload_event)
  moreover obtain rows where "audit_events (cancel_tasks E ev a corr ts ?d) = audit_events ?d @ rows"
      "\<forall>r\<in>set rows. cancellation_row ev r"
      "map ae_entity_id rows = map (\<lambda>t. uuid_str (task_id t)) ts"
    using Cons.IH by blast
  ultimately show ?case using d by (intro exI [of _ "?row # rows"]) simp
qed

text \<open>The effect of the cancellation on the task table, when task ids are distinct.\<close>

lemma cancel_scheduled_tasks_effect:
  assumes run: "cancel_scheduled_tasks E ev c a corr d = (n, d')"
    and fair: "fair_scan E" and ids: "distinct (map task_id (outreach_tasks d))"
  shows "outreach_tasks d' =
      update_where (cancellable c a) (\<lambda>t. t\<lparr>task_status := CANCELLED\<rparr>) (outreach_tasks d)"
    and "n = rowcount (cancellable c a) (outreach_tasks d)"
    and "\<exists>rows. audit_events d' = audit_events d @ rows \<and> length rows = n
      \<and> (\<forall>r\<in>set rows. cancellation_row ev r)
      \<and> set (map ae_entity_id rows) = (\<lambda>t. uuid_str (task_id t)) ` {t \<in> set (outreach_tasks d). cancellable c a t}"
    and "customers d' = customers d" "accounts d' = accounts d"
      "inbound_events d' = inbound_events d" "policy_decisions d' = policy_decisions d"
proof -
  let ?ts = "scan_order E (filter (cancellable c a) (outreach_tasks d))"
  have d': "d' = cancel_tasks E ev a corr ?ts d" and n: "n = length ?ts"
    using run by (auto simp: cancel_scheduled_tasks_def Let_def)
  have set: "set ?ts = {t \<in> set (outreach_tasks d). cancellable c a t}"
    using fair_scan_set [OF fair] by auto
  have "task_id t \<in> task_id ` set ?ts \<longleftrightarrow> cancellable c a t" if "t \<in> set (outreach_tasks d)" for t
    using that key_row_unique [OF ids] by (auto simp: set)
  then show "outreach_tasks d' =
      update_where (cancellable c a) (\<lambda>t. t\<lparr>task_status := CANCELLED\<rparr>) (outreach_tasks d)"
    by (simp add: d' cancel_tasks_rows cong: update_where_cong)
  show "n = rowcount (cancellable c a) (outreach_tasks d)"
    by (simp add: n fair_scan_length [OF fair] rowcount_def)
  from cancel_tasks_audit [of E ev a corr ?ts d] obtain rows where
      "audit_events d' = audit_events d @ rows" "\<forall>r\<in>set rows. cancellation_row ev r"
      and m: "map ae_entity_id rows = map (\<lambda>t. uuid_str (task_id t)) ?ts"
    by (auto simp: d')
  moreover have "length rows = n" using arg_cong [OF m, of length] n by simp
  moreover have "set (map ae_entity_id rows) = (\<lambda>t. uuid_str (task_id t)) ` {t \<in> set (outreach_tasks d). cancellable c a t}"
    using arg_cong [OF m, of set] by (simp add: set)
  ultimately show "\<exists>rows. audit_events d' = audit_events d @ rows \<and> length rows = n
      \<and> (\<forall>r\<in>set rows. cancellation_row ev r)
      \<and> set (map ae_entity_id rows) = (\<lambda>t. uuid_str (task_id t)) ` {t \<in> set (outreach_tasks d). cancellable c a t}"
    by blast
qed (use run in \<open>auto simp: cancel_scheduled_tasks_def Let_def frame_simps\<close>)

section \<open>State events\<close>

text \<open>
  The four handlers of cancellation and state events share one shape: a write that
  is particular to the event, the cancellation, and the marker.
\<close>

definition state_event_types :: "string set" where
  "state_event_types = {''payment_received'', ''opt_out_received'', ''hardship_requested'', ''account_paused''}"

definition event_write :: "env \<Rightarrow> inbound_event \<Rightarrow> customer \<Rightarrow> account \<Rightarrow> uuid \<Rightarrow> db \<Rightarrow> db" where
  "event_write E ev c a corr d =
     (if ev_event_type ev = ''opt_out_received''
      then planner_audit E ev corr ''customer_opted_out'' ''customer'' (uuid_str (cust_id c))
             [(''customer_external_id'', JStr (cust_external_id c))] (set_opted_out c d)
      else if ev_event_type ev = ''hardship_requested''
      then planner_audit E ev corr ''hardship_escalation_required'' ''account'' (uuid_str (acct_id a))
             [(''account_external_id'', JStr (acct_external_id a))] d
      else if ev_event_type ev = ''account_paused''
      then planner_audit E ev corr ''account_paused'' ''account'' (uuid_str (acct_id a))
             [(''account_external_id'', JStr (acct_external_id a))] (set_paused a d)
      else d)"

lemma event_write_frame [frame_simps]:
  "outreach_tasks (event_write E ev c a corr d) = outreach_tasks d"
  "policy_decisions (event_write E ev c a corr d) = policy_decisions d"
  "inbound_events (event_write E ev c a corr d) = inbound_events d"
  "customers (event_write E ev c a corr d) =
     (if ev_event_type ev = ''opt_out_received'' then customers (set_opted_out c d) else customers d)"
  "accounts (event_write E ev c a corr d) =
     (if ev_event_type ev = ''account_paused'' then accounts (set_paused a d) else accounts d)"
  by (simp_all add: event_write_def planner_audit_update set_opted_out_def set_paused_def)

lemma event_write_audit:
  "\<exists>rows. audit_events (event_write E ev c a corr d) = audit_events d @ rows
     \<and> (\<forall>r\<in>set rows. ae_event_type r \<noteq> ''outreach_cancelled'')"
  by (simp add: event_write_def planner_audit_update set_opted_out_def set_paused_def)

lemma marker_exists:
  "ev_event_type ev \<in> state_event_types \<longleftrightarrow> map_of PROCESSED_MARKERS (ev_event_type ev) \<noteq> None"
  by (auto simp: state_event_types_def PROCESSED_MARKERS_def split: if_splits)

lemma plan_state_event:
  assumes "find (\<lambda>ev. ev_id ev = i) (inbound_events d) = Some ev"
    and "load_customer_and_account d ev = Inr (c, a)"
    and "ev_event_type ev \<in> state_event_types"
  shows "plan_outreach_for_event E i corr (Some (Aware now)) cap d =
     (if has_processed_marker d ev then (Inr (no_effects (ev_id ev)), d)
      else let (n, d1) = cancel_scheduled_tasks E ev c a corr (event_write E ev c a corr d)
           in (Inr (cancelled_result ev n), append_processed_marker E ev corr d1))"
  using assms
  by (auto simp: plan_outreach_for_event_def state_event_types_def handle_cancellation_event_def
      handle_opt_out_def handle_hardship_def handle_account_paused_def event_write_def Let_def
      split: prod.splits)

lemma append_processed_marker_frame [frame_simps]:
  "outreach_tasks (append_processed_marker E ev c d) = outreach_tasks d"
  "policy_decisions (append_processed_marker E ev c d) = policy_decisions d"
  "inbound_events (append_processed_marker E ev c d) = inbound_events d"
  "customers (append_processed_marker E ev c d) = customers d"
  "accounts (append_processed_marker E ev c d) = accounts d"
  by (simp_all add: append_processed_marker_def append_audit_event_update split: option.splits)

lemma append_processed_marker_marks:
  assumes "ev_event_type ev \<in> state_event_types"
  shows "has_processed_marker (append_processed_marker E ev c d) ev"
proof -
  obtain m where m: "map_of PROCESSED_MARKERS (ev_event_type ev) = Some m"
    using assms marker_exists by blast
  then show ?thesis
    by (auto simp: has_processed_marker_def append_processed_marker_update find_None_ball)
qed

lemma marker_is_no_cancellation:
  assumes "ev_event_type ev \<in> state_event_types"
  obtains row where "audit_events (append_processed_marker E ev c d) = audit_events d @ [row]"
    and "ae_event_type row \<noteq> ''outreach_cancelled''"
proof -
  obtain m where m: "map_of PROCESSED_MARKERS (ev_event_type ev) = Some m"
    using assms marker_exists by blast
  then have "m \<noteq> ''outreach_cancelled''" by (auto simp: PROCESSED_MARKERS_def split: if_splits)
  with m that show thesis by (auto simp: append_processed_marker_update)
qed

section \<open>Properties of the planner\<close>

lemma state_event_effect:
  assumes "find (\<lambda>ev. ev_id ev = i) (inbound_events d) = Some ev"
    and "load_customer_and_account d ev = Inr (c, a)"
    and "ev_event_type ev \<in> state_event_types" and "\<not> has_processed_marker d ev"
    and "fair_scan E" and "distinct (map task_id (outreach_tasks d))"
  shows "\<exists>d' rows rest. plan_outreach_for_event E i corr (Some (Aware now)) cap d =
      (Inr (cancelled_result ev (rowcount (cancellable c a) (outreach_tasks d))), d')
    \<and> outreach_tasks d' =
        update_where (cancellable c a) (\<lambda>t. t\<lparr>task_status := CANCELLED\<rparr>) (outreach_tasks d)
    \<and> mset (audit_events d') = mset (audit_events d) + mset rows + mset rest
    \<and> length rows = rowcount (cancellable c a) (outreach_tasks d)
    \<and> set (map ae_entity_id rows) =
        (\<lambda>t. uuid_str (task_id t)) ` {t \<in> set (outreach_tasks d). cancellable c a t}
    \<and> (\<forall>r\<in>set rows. cancellation_row ev r)
    \<and> (\<forall>r\<in>set rest. ae_event_type r \<noteq> ''outreach_cancelled'')
    \<and> customers d' = (if ev_event_type ev = ''opt_out_received''
        then customers (set_opted_out c d) else customers d)
    \<and> accounts d' = (if ev_event_type ev = ''account_paused''
        then accounts (set_paused a d) else accounts d)
    \<and> policy_decisions d' = policy_decisions d \<and> has_processed_marker d' ev"
proof -
  let ?w = "event_write E ev c a corr d"
  obtain n d1 where run: "cancel_scheduled_tasks E ev c a corr ?w = (n, d1)" by fastforce
  let ?d' = "append_processed_marker E ev corr d1"
  have ids: "distinct (map task_id (outreach_tasks ?w))" using assms(6) by (simp add: frame_simps)
  note eff = cancel_scheduled_tasks_effect [OF run assms(5) ids, unfolded frame_simps]
  from event_write_audit [of E ev c a corr d] obtain pre where
    pre: "audit_events ?w = audit_events d @ pre" "\<forall>r\<in>set pre. ae_event_type r \<noteq> ''outreach_cancelled''"
    by blast
  from eff(3) obtain rows where rows: "audit_events d1 = audit_events ?w @ rows" "length rows = n"
      "\<forall>r\<in>set rows. cancellation_row ev r"
      "set (map ae_entity_id rows) = (\<lambda>t. uuid_str (task_id t)) ` {t \<in> set (outreach_tasks d). cancellable c a t}"
    by blast
  obtain m where m: "audit_events ?d' = audit_events d1 @ [m]" "ae_event_type m \<noteq> ''outreach_cancelled''"
    using assms(3) by (rule marker_is_no_cancellation)
  have "plan_outreach_for_event E i corr (Some (Aware now)) cap d = (Inr (cancelled_result ev n), ?d')"
    using plan_state_event [OF assms(1-3)] assms(4) run by simp
  then show ?thesis
    using eff rows pre m append_processed_marker_marks [OF assms(3)]
    by (intro exI [of _ ?d'] exI [of _ rows] exI [of _ "pre @ [m]"]) (auto simp: frame_simps)
qed

text \<open>C14. An event that stops outreach, processed for the first time, cancels exactly the
  scheduled tasks of its customer and account; every other task keeps its row, the
  answer counts the cancelled tasks, each of them has one audit row attributed to
  the event, only an opt-out touches the customer and only a pause the account.\<close>

theorem state_event_cancels:
  assumes "find (\<lambda>ev. ev_id ev = i) (inbound_events d) = Some ev"
    and "load_customer_and_account d ev = Inr (c, a)"
    and "ev_event_type ev \<in> {''payment_received'', ''opt_out_received'', ''hardship_requested'', ''account_paused''}"
    and "\<not> has_processed_marker d ev" and "fair_scan E" and "distinct (map task_id (outreach_tasks d))"
    and "stops = (\<lambda>t. task_account_id t = acct_id a \<and> task_customer_id t = cust_id c \<and> task_status t = SCHEDULED)"
  shows "\<exists>d' rows rest. plan_outreach_for_event E i corr (Some (Aware now)) cap d =
      (Inr ((no_effects i)\<lparr>pr_cancelled_tasks := rowcount stops (outreach_tasks d)\<rparr>), d')
    \<and> outreach_tasks d' = update_where stops (\<lambda>t. t\<lparr>task_status := CANCELLED\<rparr>) (outreach_tasks d)
    \<and> mset (audit_events d') = mset (audit_events d) + mset rows + mset rest
    \<and> length rows = rowcount stops (outreach_tasks d)
    \<and> set (map ae_entity_id rows) = (\<lambda>t. uuid_str (task_id t)) ` {t \<in> set (outreach_tasks d). stops t}
    \<and> (\<forall>r\<in>set rows. cancellation_row ev r)
    \<and> (\<forall>r\<in>set rest. ae_event_type r \<noteq> ''outreach_cancelled'')
    \<and> customers d' = update_where (\<lambda>x. ev_event_type ev = ''opt_out_received'' \<and> cust_id x = cust_id c)
        (\<lambda>x. x\<lparr>cust_opted_out := True\<rparr>) (customers d)
    \<and> accounts d' = update_where (\<lambda>x. ev_event_type ev = ''account_paused'' \<and> acct_id x = acct_id a)
        (\<lambda>x. x\<lparr>acct_status := PAUSED\<rparr>) (accounts d)
    \<and> policy_decisions d' = policy_decisions d \<and> has_processed_marker d' ev"
proof -
  have stops: "stops = cancellable c a"
    by (auto simp: assms(7) cancellable_def SCHEDULED_STATUSES_def fun_eq_iff)
  have ty: "ev_event_type ev \<in> state_event_types" using assms(3) by (auto simp: state_event_types_def)
  have id: "ev_id ev = i" using find_Some_in [OF assms(1)] by simp
  have cust: "(if ev_event_type ev = ''opt_out_received'' then customers (set_opted_out c d) else customers d) =
      update_where (\<lambda>x. ev_event_type ev = ''opt_out_received'' \<and> cust_id x = cust_id c)
        (\<lambda>x. x\<lparr>cust_opted_out := True\<rparr>) (customers d)"
    by (simp add: set_opted_out_def update_where_def)
  have acct: "(if ev_event_type ev = ''account_paused'' then accounts (set_paused a d) else accounts d) =
      update_where (\<lambda>x. ev_event_type ev = ''account_paused'' \<and> acct_id x = acct_id a)
        (\<lambda>x. x\<lparr>acct_status := PAUSED\<rparr>) (accounts d)"
    by (simp add: set_paused_def update_where_def)
  show ?thesis
    using state_event_effect [OF assms(1,2) ty assms(4-6), of corr now cap]
    unfolding stops cust acct cancelled_result_def id .
qed

section \<open>The three ways a planner run ends well\<close>

definition policy_event_types :: "string set" where
  "policy_event_types = {''account_delinquent'', ''payment_failed''}"

definition has_decision :: "db \<Rightarrow> inbound_event \<Rightarrow> bool" where
  "has_decision d ev \<longleftrightarrow> (\<exists>pd\<in>set (policy_decisions d). pd_inbound_event_id pd = Some (ev_id ev))"

definition initial_progress :: "nat \<Rightarrow> plan_progress" where
  "initial_progress recent = \<lparr>pg_recent_count = recent, pg_created_tasks = 0,
     pg_policy_decisions = 0, pg_blocked_attempts = 0, pg_deferred_attempts = 0\<rparr>"

definition policy_event_result :: "inbound_event \<Rightarrow> policy_decision list \<Rightarrow> outreach_task list \<Rightarrow> planner_result" where
  "policy_event_result ev ds ts = \<lparr>pr_inbound_event_id = ev_id ev, pr_created_tasks = length ts,
     pr_cancelled_tasks = 0, pr_policy_decisions = length ds,
     pr_blocked_attempts = rowcount (\<lambda>pd. pd_decision pd = BLOCK) ds,
     pr_deferred_attempts = rowcount (\<lambda>pd. pd_decision pd = DEFER) ds\<rparr>"

lemma proposals_channels:
  assumes "proposals_for_event E ty now z = Inr ps"
  shows "map prop_channel ps = (if ty = ''account_delinquent'' then [EMAIL, SMS, CALL] else [EMAIL, SMS])"
    and "ty \<in> policy_event_types"
  using assms by (auto simp: proposals_for_event_def policy_event_types_def split: if_splits sum.splits)

lemma plan_policy_event_success:
  assumes "plan_policy_event E ev c a corr now cap d = (Inr r, d')" and "\<not> has_decision d ev"
  obtains recent ps pg ds ts rows where
    "recent_attempt_count d c now = Inr recent"
    "proposals_for_event E (ev_event_type ev) now (cust_timezone c) = Inr ps"
    "loop_effect E ev c a corr cap ps (initial_progress recent) d pg d' ds ts rows"
    "r = policy_event_result ev ds ts"
proof -
  from assms obtain recent ps pg where *: "recent_attempt_count d c now = Inr recent"
      "proposals_for_event E (ev_event_type ev) now (cust_timezone c) = Inr ps"
      "plan_proposals E ev c a corr cap ps (initial_progress recent) d = (Inr pg, d')"
    and r: "r = \<lparr>pr_inbound_event_id = ev_id ev, pr_created_tasks = pg_created_tasks pg,
       pr_cancelled_tasks = 0, pr_policy_decisions = pg_policy_decisions pg,
       pr_blocked_attempts = pg_blocked_attempts pg,
       pr_deferred_attempts = pg_deferred_attempts pg\<rparr>"
    by (auto simp: plan_policy_event_def has_decision_def find_None_ball initial_progress_def
        split: if_splits sum.splits prod.splits)
  from plan_proposals_effect [OF *(3)] obtain ds ts rows where
    eff: "loop_effect E ev c a corr cap ps (initial_progress recent) d pg d' ds ts rows" by blast
  then have "r = policy_event_result ev ds ts"
    by (simp add: r policy_event_result_def loop_effect_def initial_progress_def)
  with * eff that show thesis by blast
qed

lemma plan_outreach_aware:
  "aware_now E now = Inr now' \<Longrightarrow>
     plan_outreach_for_event E i corr now cap d = plan_outreach_for_event E i corr (Some (Aware now')) cap d"
  by (simp add: plan_outreach_for_event_def)

lemma plan_outreach_cases:
  assumes "plan_outreach_for_event E i corr now cap d = (Inr r, d')"
  obtains (replay) ev c a where "find (\<lambda>ev. ev_id ev = i) (inbound_events d) = Some ev"
      and "load_customer_and_account d ev = Inr (c, a)"
      and "d' = d" and "r = no_effects i"
      and "ev_event_type ev \<in> policy_event_types \<and> has_decision d ev
        \<or> ev_event_type ev \<in> state_event_types \<and> has_processed_marker d ev"
  | (policy) ev c a now' recent ps pg ds ts rows where
      "find (\<lambda>ev. ev_id ev = i) (inbound_events d) = Some ev"
      and "load_customer_and_account d ev = Inr (c, a)"
      and "ev_event_type ev \<in> policy_event_types" and "\<not> has_decision d ev"
      and "aware_now E now = Inr now'" and "recent_attempt_count d c now' = Inr recent"
      and "proposals_for_event E (ev_event_type ev) now' (cust_timezone c) = Inr ps"
      and "loop_effect E ev c a corr cap ps (initial_progress recent) d pg d' ds ts rows"
      and "r = policy_event_result ev ds ts"
  | (state) ev c a n d1 where "find (\<lambda>ev. ev_id ev = i) (inbound_events d) = Some ev"
      and "load_customer_and_account d ev = Inr (c, a)"
      and "ev_event_type ev \<in> state_event_types" and "\<not> has_processed_marker d ev"
      and "cancel_scheduled_tasks E ev c a corr (event_write E ev c a corr d) = (n, d1)"
      and "d' = append_processed_marker E ev corr d1" and "r = cancelled_result ev n"
proof -
  obtain now' where now: "aware_now E now = Inr now'"
    using assms by (auto simp: plan_outreach_for_event_def split: sum.splits)
  obtain ev where ev: "find (\<lambda>ev. ev_id ev = i) (inbound_events d) = Some ev"
    using assms now by (auto simp: plan_outreach_for_event_def split: option.splits)
  obtain c a where load: "load_customer_and_account d ev = Inr (c, a)"
    using assms now ev by (auto simp: plan_outreach_for_event_def split: sum.splits)
  have id: "ev_id ev = i" using find_Some_in [OF ev] by simp
  consider "ev_event_type ev \<in> policy_event_types" | "ev_event_type ev \<in> state_event_types"
    using assms now ev load
    by (auto simp: plan_outreach_for_event_def policy_event_types_def state_event_types_def split: if_splits)
  then show thesis
  proof cases
    case 1
    then have run: "plan_policy_event E ev c a corr now' cap d = (Inr r, d')"
      using assms now ev load by (auto simp: plan_outreach_for_event_def policy_event_types_def)
    show thesis
    proof (cases "has_decision d ev")
      case True
      then have "d' = d \<and> r = no_effects i"
        using run id by (auto simp: plan_policy_event_def has_decision_def find_None_ball split: if_splits)
      with ev load 1 True show thesis by (intro replay) auto
    next
      case False
      with run obtain recent ps pg ds ts rows where "recent_attempt_count d c now' = Inr recent"
          "proposals_for_event E (ev_event_type ev) now' (cust_timezone c) = Inr ps"
          "loop_effect E ev c a corr cap ps (initial_progress recent) d pg d' ds ts rows"
          "r = policy_event_result ev ds ts"
        by (rule plan_policy_event_success)
      with ev load 1 False now show thesis by (intro policy)
    qed
  next
    case 2
    have run: "(if has_processed_marker d ev then (Inr (no_effects (ev_id ev)), d)
      else let (n, d1) = cancel_scheduled_tasks E ev c a corr (event_write E ev c a corr d)
           in (Inr (cancelled_result ev n), append_processed_marker E ev corr d1))
      = (Inr r :: py_error + planner_result, d')"
      using assms unfolding plan_outreach_aware [OF now] plan_state_event [OF ev load 2] .
    show thesis
    proof (cases "has_processed_marker d ev")
      case True
      with run ev load 2 id show thesis by (intro replay) auto
    next
      case False
      obtain n d1 where c: "cancel_scheduled_tasks E ev c a corr (event_write E ev c a corr d) = (n, d1)"
        by fastforce
      with run False have "d' = append_processed_marker E ev corr d1" "r = cancelled_result ev n"
        by auto
      with ev load 2 False c show thesis by (intro state)
    qed
  qed
qed

section \<open>What a planner run promises\<close>

text \<open>Where the tasks a run adds come from.\<close>

lemma new_task_origin:
  assumes "plan_outreach_for_event E i corr now cap d = (Inr r, d')"
    and "t \<in> set (outreach_tasks d')" and "task_id t \<notin> task_id ` set (outreach_tasks d)"
    and "fair_scan E" and "distinct (map task_id (outreach_tasks d))"
  obtains ev c a ds where "find (\<lambda>ev. ev_id ev = i) (inbound_events d) = Some ev"
    and "planned_task E ev c a corr ds t"
    and "c \<in> set (customers d)" and "a \<in> set (accounts d)" and "acct_customer_id a = cust_id c"
    and "customers d' = customers d" and "accounts d' = accounts d"
    and "set ds \<subseteq> set (policy_decisions d')" and "\<forall>pd\<in>set ds. pd_inbound_event_id pd = Some i"
    and "load_customer_and_account d ev = Inr (c, a)"
  using assms(1)
proof (cases rule: plan_outreach_cases)
  case (replay ev c a)
  with assms(2,3) show thesis by auto
next
  case (policy ev c a now' recent ps pg ds ts rows)
  have id: "ev_id ev = i" using find_Some_in [OF policy(1)] by simp
  have "t \<in> set ts" using policy assms(2,3) by (auto simp: loop_effect_def)
  then have task: "planned_task E ev c a corr ds t" using policy by (auto simp: loop_effect_def)
  have pds: "\<forall>pd\<in>set ds. pd_inbound_event_id pd = Some i"
    using policy(8) id
    by (auto simp: loop_effect_def planned_decision_def list_all2_conv_all_nth in_set_conv_nth)
  have rows: "c \<in> set (customers d)" "a \<in> set (accounts d)" "acct_customer_id a = cust_id c"
    using policy(2) by (auto simp: load_customer_and_account_def dest: find_Some_in
        split: option.splits if_splits)
  have "customers d' = customers d" "accounts d' = accounts d" "set ds \<subseteq> set (policy_decisions d')"
    using policy(8) by (simp_all add: loop_effect_def)
  with that [OF policy(1) task rows] pds policy(2) show thesis by blast
next
  case (state ev c a n d1)
  have "distinct (map task_id (outreach_tasks (event_write E ev c a corr d)))"
    using assms(5) by (simp add: frame_simps)
  from cancel_scheduled_tasks_effect(1) [OF state(5) assms(4) this]
  have "map task_id (outreach_tasks d') = map task_id (outreach_tasks d)"
    by (simp add: state frame_simps map_update_where)
  with assms(2,3) show thesis by (metis image_eqI list.set_map)
qed

text \<open>Every task a successful run adds is compliant: its customer had not opted out and
  consented to the channel, its account was neither paused nor resolved, a call or
  message is scheduled inside the contact window of the customer's zone, the task
  starts scheduled with no attempts, and it carries a decision of the same event and
  channel that is not a block.\<close>

lemma planned_tasks_compliant:
  assumes "plan_outreach_for_event E i corr now cap d = (Inr r, d')"
    and "t \<in> set (outreach_tasks d')"
    and "task_id t \<notin> task_id ` set (outreach_tasks d)" and "fair_scan E"
    and "distinct (map task_id (outreach_tasks d))"
  shows "\<exists>c\<in>set (customers d). \<exists>a\<in>set (accounts d).
      cust_id c = task_customer_id t \<and> acct_id a = task_account_id t
      \<and> acct_customer_id a = cust_id c
      \<and> contact_permitted c a (task_channel t) \<and> compliant_time E c t
      \<and> task_status t = SCHEDULED \<and> task_attempt_count t = 0
      \<and> (\<exists>pd\<in>set (policy_decisions d'). task_policy_decision_id t = Some (pd_id pd)
          \<and> pd_decision pd \<noteq> BLOCK \<and> pd_channel pd = Some (task_channel t)
          \<and> pd_inbound_event_id pd = Some i)"
proof -
  obtain ev c a ds where o: "planned_task E ev c a corr ds t" "c \<in> set (customers d)"
      "a \<in> set (accounts d)" "acct_customer_id a = cust_id c"
      "set ds \<subseteq> set (policy_decisions d')" "\<forall>pd\<in>set ds. pd_inbound_event_id pd = Some i"
    using assms by (rule new_task_origin)
  have "\<exists>pd\<in>set (policy_decisions d'). task_policy_decision_id t = Some (pd_id pd)
      \<and> pd_decision pd \<noteq> BLOCK \<and> pd_channel pd = Some (task_channel t) \<and> pd_inbound_event_id pd = Some i"
    using o(1,5,6) unfolding planned_task_def by blast
  with o(1-4) show ?thesis unfolding planned_task_def
    by - (rule bexI [of _ c], rule bexI [of _ a], simp_all)
qed


section \<open>Replays\<close>

text \<open>
  An event the planner has processed is one whose rows still resolve and that left
  a decision or, for a state event, its marker.
\<close>

definition processed_event :: "uuid \<Rightarrow> db \<Rightarrow> bool" where
  "processed_event i d \<longleftrightarrow>
     (case find (\<lambda>ev. ev_id ev = i) (inbound_events d) of None \<Rightarrow> False
      | Some ev \<Rightarrow> (case load_customer_and_account d ev of Inl e \<Rightarrow> False
         | Inr ca \<Rightarrow> ev_event_type ev \<in> policy_event_types \<and> has_decision d ev
             \<or> ev_event_type ev \<in> state_event_types \<and> has_processed_marker d ev))"

lemma processed_event_quiet:
  assumes "processed_event i d"
  shows "plan_outreach_for_event E i corr (Some (Aware now)) cap d = (Inr (no_effects i), d)"
proof -
  from assms obtain ev c a where ev: "find (\<lambda>ev. ev_id ev = i) (inbound_events d) = Some ev"
    and load: "load_customer_and_account d ev = Inr (c, a)"
    and seen: "ev_event_type ev \<in> policy_event_types \<and> has_decision d ev
        \<or> ev_event_type ev \<in> state_event_types \<and> has_processed_marker d ev"
    by (auto simp: processed_event_def split: option.splits sum.splits)
  have id: "ev_id ev = i" using find_Some_in [OF ev] by simp
  from seen show ?thesis
  proof
    assume "ev_event_type ev \<in> policy_event_types \<and> has_decision d ev"
    then show ?thesis
      using ev load id by (auto simp: plan_outreach_for_event_def policy_event_types_def
          plan_policy_event_def has_decision_def find_None_ball)
  next
    assume "ev_event_type ev \<in> state_event_types \<and> has_processed_marker d ev"
    then show ?thesis using plan_state_event [OF ev load] id by simp
  qed
qed

lemma load_depends:
  assumes "customers d' = update_where P f (customers d)" and "accounts d' = update_where Q g (accounts d)"
    and "\<And>c. cust_external_id (f c) = cust_external_id c" and "\<And>c. cust_id (f c) = cust_id c"
    and "\<And>a. acct_external_id (g a) = acct_external_id a"
    and "\<And>a. acct_customer_id (g a) = acct_customer_id a"
    and "load_customer_and_account d ev = Inr (c, a)"
  shows "load_customer_and_account d' ev = Inr (if P c then f c else c, if Q a then g a else a)"
  using assms by (auto simp: load_customer_and_account_def find_update_where split: option.splits if_splits)

lemma update_where_False: "update_where (\<lambda>_. False) f rows = rows"
  by (simp add: update_where_none)

lemma load_event_write:
  assumes "load_customer_and_account d ev = Inr (c, a)"
    and "customers d' = customers (event_write E ev c a corr d)"
    and "accounts d' = accounts (event_write E ev c a corr d)"
  shows "\<exists>ca. load_customer_and_account d' ev = Inr ca"
proof -
  have "customers d' = update_where (\<lambda>c'. ev_event_type ev = ''opt_out_received'' \<and> cust_id c' = cust_id c)
      (\<lambda>c. c\<lparr>cust_opted_out := True\<rparr>) (customers d)"
    by (simp add: assms(2) frame_simps set_opted_out_def update_where_False)
  moreover have "accounts d' = update_where (\<lambda>a'. ev_event_type ev = ''account_paused'' \<and> acct_id a' = acct_id a)
      (\<lambda>a. a\<lparr>acct_status := PAUSED\<rparr>) (accounts d)"
    by (simp add: assms(3) frame_simps set_paused_def update_where_False)
  ultimately show ?thesis
    using load_depends [of d' _ _ d _ _ ev c a] assms(1) by fastforce
qed

lemma planner_marks:
  assumes "plan_outreach_for_event E i corr now cap d = (Inr r, d')"
  shows "processed_event i d'"
  using assms
proof (cases rule: plan_outreach_cases)
  case (replay ev c a)
  then show ?thesis by (auto simp: processed_event_def)
next
  case (policy ev c a now' recent ps pg ds ts rows)
  have "length ds = length ps" by (rule loop_effect_length [OF policy(8)])
  moreover have "ps \<noteq> []" using proposals_channels(1) [OF policy(7)] by (auto split: if_splits)
  ultimately obtain pd rest where ds: "ds = pd # rest" by (cases ds) auto
  then have "pd_inbound_event_id pd = Some (ev_id ev)"
    using policy(8) by (auto simp: loop_effect_def planned_decision_def list_all2_Cons2)
  then have "has_decision d' ev" using policy(8) ds by (auto simp: has_decision_def loop_effect_def)
  moreover have "inbound_events d' = inbound_events d" "customers d' = customers d"
      "accounts d' = accounts d"
    using policy(8) by (simp_all add: loop_effect_def)
  moreover from this have "load_customer_and_account d' ev = load_customer_and_account d ev"
    by (simp add: load_customer_and_account_def cong: option.case_cong)
  ultimately show ?thesis using policy by (simp add: processed_event_def)
next
  case (state ev c a n d1)
  have d1: "customers d1 = customers (event_write E ev c a corr d)"
    "accounts d1 = accounts (event_write E ev c a corr d)"
    "inbound_events d1 = inbound_events d"
    using state(5) by (auto simp: cancel_scheduled_tasks_def Let_def frame_simps)
  then obtain ca where "load_customer_and_account d' ev = Inr ca"
    using load_event_write [OF state(2), of d' E corr] by (auto simp: state(6) frame_simps)
  moreover have "has_processed_marker d' ev"
    using append_processed_marker_marks [OF state(3)] by (simp add: state(6))
  ultimately show ?thesis
    using state(1,3) d1(3) by (simp add: processed_event_def state(6) frame_simps)
qed

interpretation planner_replay: replay_guard "processed_event i"
  "plan_outreach_for_event E i corr (Some (Aware now)) cap"
  "\<lambda>d. Inr (no_effects i)" "\<lambda>r. \<exists>x. r = Inr x"
  for E i corr now cap
proof
  show "processed_event i d \<Longrightarrow>
      plan_outreach_for_event E i corr (Some (Aware now)) cap d = (Inr (no_effects i), d)" for d
    by (rule processed_event_quiet)
  show "\<exists>x. fst (plan_outreach_for_event E i corr (Some (Aware now)) cap d) = Inr x \<Longrightarrow>
      processed_event i (snd (plan_outreach_for_event E i corr (Some (Aware now)) cap d))" for d
    using planner_marks [of E i corr "Some (Aware now)" cap d] by (metis prod.collapse)
qed

text \<open>Planning is idempotent: once a run of an event has succeeded, running it again,
  with any correlation id, clock and cap and any number of times, returns the empty
  result and writes nothing.\<close>

lemma planner_idempotent:
  assumes "plan_outreach_for_event E i corr now cap d = (Inr r, d')"
  shows "plan_outreach_for_event E i corr' (Some (Aware now')) cap' d' = (Inr (no_effects i), d')
    \<and> ((\<lambda>s. snd (plan_outreach_for_event E i corr' (Some (Aware now')) cap' s)) ^^ n) d' = d'"
proof -
  have "plan_outreach_for_event E i corr' (Some (Aware now')) cap' d' = (Inr (no_effects i), d')"
    using planner_marks [OF assms] by (rule planner_replay.guard)
  then show ?thesis by (simp add: planner_replay.replays)
qed

section \<open>The properties at a concrete database\<close>

definition delinquent_run :: "(py_error + planner_result) \<times> db" where
  "delinquent_run = plan_outreach_for_event sample_env 3 0 (Some (Aware (utc_datetime (start_now sample_env)))) 5
     (sample_db [sample_event 3 ''account_delinquent''] [])"

lemma delinquent_run_tasks:
  "(case fst delinquent_run of Inl e \<Rightarrow> False | Inr r \<Rightarrow> True)
     \<and> length (outreach_tasks (snd delinquent_run)) = 3"
  unfolding delinquent_run_def by code_simp

lemma delinquent_run_Inr:
  "\<exists>r. plan_outreach_for_event sample_env 3 0 (Some (Aware (utc_datetime (start_now sample_env)))) 5
     (sample_db [sample_event 3 ''account_delinquent''] []) = (Inr r, snd delinquent_run)"
proof -
  obtain r where "fst delinquent_run = Inr r"
    using delinquent_run_tasks by (auto split: sum.splits)
  then have "delinquent_run = (Inr r, snd delinquent_run)" by (metis prod.collapse)
  then show ?thesis unfolding delinquent_run_def by blast
qed

lemma fair_scan_sample [simp]: "fair_scan sample_env"
  by (simp add: fair_scan_def sample_env_def)

lemma sample_tasks [simp]:
  "outreach_tasks (sample_db evs ts) = ts" "inbound_events (sample_db evs ts) = evs"
  "task_id (sample_task i st) = i" "ev_id (sample_event i ty) = i"
  "ev_event_type (sample_event i ty) = ty" "policy_decisions (sample_db evs ts) = []"
  by (simp_all add: sample_db_def sample_task_def sample_event_def)

lemma sample_load [simp]:
  "load_customer_and_account (sample_db evs ts) (sample_event i ty) = Inr (sample_customer, sample_account)"
  by (simp add: load_customer_and_account_def sample_db_def sample_event_def sample_customer_def
      sample_account_def)

theorem next_business_day_correct_witness:
  "\<exists>dt. next_business_day_at_10 sample_env (utc_datetime (start_now sample_env)) ''America/New_York'' = Inr dt
    \<and> date_of (dt_wall dt) = 739764"
proof -
  let ?tz = "ZoneInfo ''America/New_York'' new_york"
  let ?local = "\<lparr>dt_wall = days 739763 + hours 10, dt_fold = False, dt_tzinfo = ?tz\<rparr>"
  have zone: "tzdb sample_env ''America/New_York'' = Inr new_york"
    by (simp add: sample_env_def sample_tzdb_def)
  have local: "astimezone (utc_datetime (start_now sample_env)) ?tz = Inr ?local" by code_simp
  have today: "date_of (dt_wall ?local) = 739763" by code_simp
  obtain dt where dt: "next_business_day_at_10 sample_env (utc_datetime (start_now sample_env))
        ''America/New_York'' = Inr dt"
      "739763 < date_of (dt_wall dt)"
      "\<forall>d. 739763 < d \<and> d < date_of (dt_wall dt) \<longrightarrow> 5 \<le> weekday d"
    using next_business_day_correct [OF zone local] unfolding today by (auto simp: days_in_range_def)
  have "weekday 739764 < 5" by (simp add: weekday_def)
  with spec [OF dt(3), of 739764] have "\<not> 739764 < date_of (dt_wall dt)" by linarith
  with dt(2) have "date_of (dt_wall dt) = 739764" by linarith
  with dt(1) show ?thesis by blast
qed

theorem state_event_cancels_witness:
  "\<exists>r d'. plan_outreach_for_event sample_env 3 0 (Some (Aware (utc_datetime 0))) 5
      (sample_db [sample_event 3 ''opt_out_received''] [sample_task 4 SCHEDULED, sample_task 5 SENT]) = (Inr r, d')
    \<and> pr_cancelled_tasks r = 1 \<and> map task_status (outreach_tasks d') = [CANCELLED, SENT]
    \<and> map cust_opted_out (customers d') = [True]"
proof -
  let ?ev = "sample_event 3 ''opt_out_received''"
  let ?d = "sample_db [?ev] [sample_task 4 SCHEDULED, sample_task 5 SENT]"
  let ?stops = "\<lambda>t. task_account_id t = acct_id sample_account \<and> task_customer_id t = cust_id sample_customer
    \<and> task_status t = SCHEDULED"
  have "\<not> has_processed_marker ?d ?ev" by (simp add: has_processed_marker_def sample_db_def)
  then obtain d' where run: "plan_outreach_for_event sample_env 3 0 (Some (Aware (utc_datetime 0))) 5 ?d =
        (Inr ((no_effects 3)\<lparr>pr_cancelled_tasks := rowcount ?stops (outreach_tasks ?d)\<rparr>), d')"
      and tasks: "outreach_tasks d' = update_where ?stops (\<lambda>t. t\<lparr>task_status := CANCELLED\<rparr>) (outreach_tasks ?d)"
      and cust: "customers d' = update_where (\<lambda>x. ev_event_type ?ev = ''opt_out_received'' \<and> cust_id x = cust_id sample_customer)
        (\<lambda>x. x\<lparr>cust_opted_out := True\<rparr>) (customers ?d)"
    using state_event_cancels [of 3 ?d ?ev sample_customer sample_account sample_env ?stops 0 "utc_datetime 0" 5] by auto
  have stopped: "rowcount ?stops (outreach_tasks ?d) = 1" "map task_status (outreach_tasks d') = [CANCELLED, SENT]"
    by (simp_all add: tasks) (simp_all add: sample_task_def sample_account_def sample_customer_def)
  have "map cust_opted_out (customers d') = [True]" by (simp add: cust sample_db_def)
  with run stopped show ?thesis by (intro exI conjI) (assumption | simp)+
qed

theorem planned_tasks_compliant_witness:
  "\<exists>t\<in>set (outreach_tasks (snd delinquent_run)). \<exists>c\<in>set (customers (sample_db
      [sample_event 3 ''account_delinquent''] [])). compliant_time sample_env c t"
proof -
  obtain t where t: "t \<in> set (outreach_tasks (snd delinquent_run))"
    using delinquent_run_tasks by (cases "outreach_tasks (snd delinquent_run)") auto
  obtain r where r: "plan_outreach_for_event sample_env 3 0 (Some (Aware (utc_datetime (start_now sample_env)))) 5
     (sample_db [sample_event 3 ''account_delinquent''] []) = (Inr r, snd delinquent_run)"
    using delinquent_run_Inr by blast
  show ?thesis using planned_tasks_compliant [OF r t] t by auto
qed


theorem planner_idempotent_witness:
  "plan_outreach_for_event sample_env 3 8 (Some (Aware (utc_datetime 0))) 1 (snd delinquent_run) =
     (Inr (no_effects 3), snd delinquent_run)"
  using delinquent_run_Inr planner_idempotent [of sample_env 3 0 _ 5 _ _ "snd delinquent_run" 8 "utc_datetime 0" 1 0]
  by blast

end
