(* ===== verification/Planner_Frame.thy ===== *)
theory Planner_Frame
  imports Writes Planner_Facts
begin

text \<open>
  The planner as a user of the write interface: whatever relation every single write
  respects holds between the database before and after a planner run, also when the
  run raises, and the invariant is kept.
\<close>

lemma planner_audit_add:
  "planner_audit E ev c et ent ei p d = add_audit (planner_row E ev c et ent ei p d) d"
  by (simp add: planner_audit_update add_audit_def)

lemma planner_row_ok:
  "ev_id ev \<in> ev_id ` set (inbound_events d) \<Longrightarrow> ent \<noteq> ''inbound_event'' \<Longrightarrow>
     audit_ok d (planner_row E ev c et ent ei p d)"
  by (auto simp: audit_ok_def planner_payload_event)

lemma load_in_db:
  assumes "load_customer_and_account d ev = Inr (c, a)"
  shows "c \<in> set (customers d)" "a \<in> set (accounts d)" "acct_customer_id a = cust_id c"
    "(acct_id a, cust_id c) \<in> owners d"
proof -
  show 1: "c \<in> set (customers d)" "a \<in> set (accounts d)" "acct_customer_id a = cust_id c"
    using assms by (auto simp: load_customer_and_account_def dest: find_Some_in split: option.splits if_splits)
  then show "(acct_id a, cust_id c) \<in> owners d" by (force simp: owners_def)
qed

lemma set_task_status_put:
  assumes "wf_db d" and "t \<in> set (outreach_tasks d)"
  shows "set_task_status (task_id t) st d = put_task (t\<lparr>task_status := st\<rparr>) d"
  using update_where_put_row [OF wf_distinct(5) [OF assms(1)] assms(2), of "\<lambda>t. t\<lparr>task_status := st\<rparr>"]
  by (simp add: set_task_status_def put_task_def)

lemma set_opted_out_put:
  assumes "wf_db d" and "c \<in> set (customers d)"
  shows "set_opted_out c d = put_customer (c\<lparr>cust_opted_out := True\<rparr>) d"
  using update_where_put_row [OF wf_distinct(1) [OF assms(1)] assms(2), of "\<lambda>c. c\<lparr>cust_opted_out := True\<rparr>"]
  by (simp add: set_opted_out_def put_customer_def)

lemma set_paused_put:
  assumes "wf_db d" and "a \<in> set (accounts d)"
  shows "set_paused a d = put_account (a\<lparr>acct_status := PAUSED\<rparr>) d"
  using update_where_put_row [OF wf_distinct(2) [OF assms(1)] assms(2), of "\<lambda>a. a\<lparr>acct_status := PAUSED\<rparr>"]
  by (simp add: set_paused_def put_account_def)

text \<open>The tables one pass of the loop, and the loop, leave alone.\<close>

lemma record_decision_tables:
  "record_decision E ev c a corr r d = (pd, d1) \<Longrightarrow>
     customers d1 = customers d \<and> accounts d1 = accounts d \<and> inbound_events d1 = inbound_events d"
  by (auto simp: record_decision_def uuid4_def planner_audit_update Let_def)

lemma schedule_task_tables:
  "schedule_task E ev c a corr pd ch at d = Inr d1 \<Longrightarrow>
     customers d1 = customers d \<and> accounts d1 = accounts d \<and> inbound_events d1 = inbound_events d"
  by (auto simp: schedule_task_def insert_task_def uuid4_def planner_audit_update Let_def split: if_splits)

lemma apply_policy_result_tables:
  "apply_policy_result E ev c a corr p r pg d = (res, d1) \<Longrightarrow>
     customers d1 = customers d \<and> accounts d1 = accounts d \<and> inbound_events d1 = inbound_events d"
  by (auto simp: apply_policy_result_def Let_def planner_audit_update
      split: prod.splits if_splits sum.splits dest!: record_decision_tables schedule_task_tables)

text \<open>The two steps of a new row and its audit row.\<close>

lemma insert_with_id:
  "d\<lparr>next_uuid := Suc (next_uuid d), policy_decisions := policy_decisions d @ [p]\<rparr> = add_decision p d"
  "d\<lparr>next_uuid := Suc (next_uuid d), outreach_tasks := outreach_tasks d @ [t]\<rparr> = add_task t d"
  by (simp_all add: add_decision_def add_task_def)

lemma record_decision_writes:
  assumes "record_decision E ev c a corr r d = (pd, d1)"
  obtains row where "pd = new_decision E ev c a r d" and "d1 = add_audit row (add_decision pd d)"
    and "ae_id row = next_uuid (add_decision pd d)" and "ae_event_type row \<noteq> ''dispatch_started''"
    and "ev_id ev \<in> ev_id ` set (inbound_events d) \<Longrightarrow> audit_ok (add_decision pd d) row"
proof -
  let ?pd = "new_decision E ev c a r d"
  let ?row = "planner_row E ev corr ''policy_decision_recorded'' ''policy_decision'' (uuid_str (next_uuid d))
    [(''decision'', JStr (outcome_value (res_decision r))),
     (''channel'', JStr (channel_value (res_channel r))),
     (''reasons'', JList (map JStr (res_reasons r)))] (add_decision ?pd d)"
  have "pd = ?pd \<and> d1 = add_audit ?row (add_decision ?pd d)"
    using assms by (auto simp: record_decision_def uuid4_def Let_def planner_audit_add insert_with_id
        new_decision_def [symmetric])
  then show thesis
    by (intro that [of ?row]) (auto simp: planner_row_ok add_decision_def)
qed

lemma new_task_key [simp]: "task_idempotency_key (new_task E ev c a corr pd ch at d) = task_key ev ch"
  by (simp add: new_task_def)

lemma schedule_task_writes:
  assumes "schedule_task E ev c a corr pd ch at d = Inr d1"
  obtains row t where "t = new_task E ev c a corr pd ch at d" and "d1 = add_audit row (add_task t d)"
    and "task_idempotency_key t \<notin> task_idempotency_key ` set (outreach_tasks d)"
    and "ae_id row = next_uuid (add_task t d)" and "ae_event_type row \<noteq> ''dispatch_started''"
    and "ev_id ev \<in> ev_id ` set (inbound_events d) \<Longrightarrow> audit_ok (add_task t d) row"
proof -
  let ?t = "new_task E ev c a corr pd ch at d"
  let ?row = "planner_row E ev corr ''outreach_task_scheduled'' ''account'' (uuid_str (acct_id a))
    [(''channel'', JStr (channel_value ch)), (''scheduled_at'', JStr (isoformat at))] (add_task ?t d)"
  have "d1 = add_audit ?row (add_task ?t d) \<and>
      task_idempotency_key ?t \<notin> task_idempotency_key ` set (outreach_tasks d)"
    using assms by (auto simp: schedule_task_def insert_task_def uuid4_def Let_def planner_audit_add insert_with_id
        find_None_ball new_task_def [symmetric] split: if_splits)
  then show thesis
    by (intro that [of ?t ?row]) (auto simp: planner_row_ok add_task_def)
qed

section \<open>The planner respects what its writes respect\<close>

context api_frame
begin

lemma frame_planner_audit:
  "ev_id ev \<in> ev_id ` set (inbound_events d) \<Longrightarrow> ent \<noteq> ''inbound_event'' \<Longrightarrow> et \<noteq> ''dispatch_started'' \<Longrightarrow>
     keeps R d (planner_audit E ev c et ent ei p d)"
  unfolding planner_audit_add by (intro keeps_audit planner_row_ok) simp_all

lemma frame_marker:
  assumes "ev_id ev \<in> ev_id ` set (inbound_events d)"
  shows "keeps R d (append_processed_marker E ev c d)"
proof (cases "map_of PROCESSED_MARKERS (ev_event_type ev)")
  case None
  then show ?thesis by (simp add: append_processed_marker_def)
next
  case (Some m)
  have "audit_ok d (audit_row E d ''inbound_event'' (uuid_str (ev_id ev)) m SYSTEM c
      (Some ''outreach-planner'') [(''marker'', JStr m), (''inbound_event_type'', JStr (ev_event_type ev))])"
    using assms by (simp add: audit_ok_def)
  moreover have "m \<noteq> ''dispatch_started''" using Some by (auto simp: PROCESSED_MARKERS_def split: if_splits)
  ultimately show ?thesis
    unfolding append_processed_marker_update [OF Some] add_audit_def [symmetric]
    by (intro keeps_audit) simp_all
qed

lemma frame_set_cancelled: "keeps R d (set_task_status i CANCELLED d)"
proof (cases "wf_db d \<and> i \<in> task_id ` set (outreach_tasks d)")
  case True
  then obtain t where "t \<in> set (outreach_tasks d)" "i = task_id t" by blast
  with True show ?thesis
    by (auto simp: set_task_status_put intro!: keeps_api_task_change [of d t] api_task_step.cancel)
next
  case False
  have "update_where (\<lambda>t. task_id t = i) f (outreach_tasks d) = outreach_tasks d"
    if "i \<notin> task_id ` set (outreach_tasks d)" for f
    using that by (intro update_where_none) auto
  with False show ?thesis by (auto simp: keeps_def refl set_task_status_def)
qed

text \<open>The rows may be stale: nothing is asked of the tasks in the list.\<close>

lemma frame_cancel_tasks:
  assumes "ev_id ev \<in> ev_id ` set (inbound_events d)"
  shows "keeps R d (cancel_tasks E ev a corr ts d)"
  using assms
proof (induction ts arbitrary: d)
  case (Cons t ts)
  let ?d = "set_task_status (task_id t) CANCELLED d"
  let ?d2 = "planner_audit E ev corr ''outreach_cancelled'' ''outreach_task'' (uuid_str (task_id t))
    [(''channel'', JStr (channel_value (task_channel t))),
     (''account_external_id'', JStr (acct_external_id a))] ?d"
  have ev: "ev_id ev \<in> ev_id ` set (inbound_events ?d)" "ev_id ev \<in> ev_id ` set (inbound_events ?d2)"
    using Cons.prems by (simp_all add: set_task_status_def planner_audit_update)
  have "keeps R ?d ?d2" using ev(1) by (rule frame_planner_audit) simp_all
  then have "keeps R d ?d2" using frame_set_cancelled by (blast intro: keeps_trans)
  then show ?case using Cons.IH [OF ev(2)] by (simp) (rule keeps_trans)
qed simp

lemma frame_cancel_scheduled_tasks:
  assumes "ev_id ev \<in> ev_id ` set (inbound_events d)"
  shows "keeps R d (snd (cancel_scheduled_tasks E ev c a corr d))"
  using frame_cancel_tasks [OF assms] by (simp add: cancel_scheduled_tasks_def Let_def)

lemma frame_record_decision:
  assumes "record_decision E ev c a corr r d = (pd, d1)"
    and "ev_id ev \<in> ev_id ` set (inbound_events d)" and "(acct_id a, cust_id c) \<in> owners d"
  shows "keeps R d d1"
proof -
  from assms(1) obtain row where pd: "pd = new_decision E ev c a r d"
    and d1: "d1 = add_audit row (add_decision pd d)"
    and row: "ae_id row = next_uuid (add_decision pd d)" "ae_event_type row \<noteq> ''dispatch_started''"
    and ok: "ev_id ev \<in> ev_id ` set (inbound_events d) \<Longrightarrow> audit_ok (add_decision pd d) row"
    by (rule record_decision_writes) blast
  have "decision_ok d pd" using assms(2,3) by (auto simp: pd decision_ok_def new_decision_def)
  moreover have "pd_id pd = next_uuid d" by (simp add: pd new_decision_def)
  ultimately have "keeps R d (add_decision pd d)"
    by (auto intro: keepsI wf_add_decision new_decision)
  moreover have "keeps R (add_decision pd d) d1"
    unfolding d1 using row ok [OF assms(2)] by (intro keeps_audit)
  ultimately show ?thesis by (blast intro: keeps_trans)
qed

lemma frame_schedule_task:
  assumes "schedule_task E ev c a corr pd ch at d = Inr d1"
    and "ev_id ev \<in> ev_id ` set (inbound_events d)" and "pd \<in> set (policy_decisions d)"
    and "pd_decision pd \<noteq> BLOCK" and "pd_account_id pd = acct_id a" and "pd_customer_id pd = cust_id c"
    and "pd_channel pd = Some ch" and "pd_inbound_event_id pd = Some (ev_id ev)"
  shows "keeps R d d1"
proof -
  from assms(1) obtain row t where t: "t = new_task E ev c a corr pd ch at d"
    and d1: "d1 = add_audit row (add_task t d)"
    and row: "ae_id row = next_uuid (add_task t d)" "ae_event_type row \<noteq> ''dispatch_started''"
    and key: "task_idempotency_key t \<notin> task_idempotency_key ` set (outreach_tasks d)"
    and ok: "ev_id ev \<in> ev_id ` set (inbound_events d) \<Longrightarrow> audit_ok (add_task t d) row"
    by (rule schedule_task_writes) blast
  have "task_basis pd t"
    using assms(4-8) by (simp add: t new_task_def task_basis_def task_key_def)
  then have "task_ok d t" using assms(3) by (auto simp: task_ok_def t new_task_def attempts_ok_def)
  moreover have "task_id t = next_uuid d" "task_status t = SCHEDULED" by (simp_all add: t new_task_def)
  moreover have "task_attempt_count t = 0" by (simp add: t new_task_def)
  ultimately have "keeps R d (add_task t d)"
    using key by (auto intro: keepsI wf_add_task new_task)
  moreover have "keeps R (add_task t d) d1"
    unfolding d1 using row ok [OF assms(2)] by (intro keeps_audit)
  ultimately show ?thesis by (blast intro: keeps_trans)
qed

lemma frame_apply_policy_result:
  assumes "ev_id ev \<in> ev_id ` set (inbound_events d)" and "(acct_id a, cust_id c) \<in> owners d"
  shows "keeps R d (snd (apply_policy_result E ev c a corr p r pg d))"
proof -
  obtain pd d1 where rec: "record_decision E ev c a corr r d = (pd, d1)" by fastforce
  have k1: "keeps R d d1" using rec assms by (rule frame_record_decision)
  have ev1: "ev_id ev \<in> ev_id ` set (inbound_events d1)"
    using assms(1) record_decision_tables [OF rec] by simp
  note audit1 = frame_planner_audit [OF ev1, of "''account''", simplified]
  have pd: "pd \<in> set (policy_decisions d1)" "pd_decision pd = res_decision r"
      "pd_account_id pd = acct_id a" "pd_customer_id pd = cust_id c"
      "pd_channel pd = Some (res_channel r)" "pd_inbound_event_id pd = Some (ev_id ev)"
    using rec by (auto simp: record_decision_def uuid4_def planner_audit_update Let_def)
  define d2 where "d2 = (if res_decision r = DEFER
      then planner_audit E ev corr ''outreach_deferred'' ''account'' (uuid_str (acct_id a))
        ([(''channel'', JStr (channel_value (res_channel r))),
          (''reasons'', JList (map JStr (res_reasons r)))]
         @ [(''defer_until'', case res_defer_until r of None \<Rightarrow> JNull
              | Some u \<Rightarrow> JStr (isoformat u))]) d1 else d1)"
  have k2: "keeps R d1 d2" unfolding d2_def using audit1 by simp
  have ev2: "ev_id ev \<in> ev_id ` set (inbound_events d2)" and pd2: "pd \<in> set (policy_decisions d2)"
    using ev1 pd(1) by (simp_all add: d2_def planner_audit_update)
  have "snd (apply_policy_result E ev c a corr p r pg d) =
      (if res_decision r = BLOCK then planner_audit E ev corr ''outreach_blocked'' ''account''
         (uuid_str (acct_id a)) [(''channel'', JStr (channel_value (res_channel r))),
            (''reasons'', JList (map JStr (res_reasons r)))] d1
       else if schedules r then (case schedule_task E ev c a corr pd (res_channel r) (scheduled_time r p) d2 of
         Inl e \<Rightarrow> d2 | Inr d3 \<Rightarrow> d3) else d2)"
    by (cases "res_decision r") (auto simp: apply_policy_result_def rec schedules_def Let_def d2_def
        scheduled_time_def split: sum.splits)
  moreover have "keeps R d2 (case schedule_task E ev c a corr pd (res_channel r) (scheduled_time r p) d2 of
       Inl e \<Rightarrow> d2 | Inr d3 \<Rightarrow> d3)" if "res_decision r \<noteq> BLOCK"
    using frame_schedule_task [OF _ ev2 pd2] pd that by (auto split: sum.splits)
  ultimately show ?thesis using k1 k2 audit1 by (auto intro: keeps_trans)
qed

lemma frame_plan_proposals:
  assumes "ev_id ev \<in> ev_id ` set (inbound_events d)" and "(acct_id a, cust_id c) \<in> owners d"
  shows "keeps R d (snd (plan_proposals E ev c a corr cap ps pg d))"
  using assms
proof (induction ps arbitrary: pg d)
  case Nil
  then show ?case by simp
next
  case (Cons p ps)
  have one: "keeps R d d1" "inbound_events d1 = inbound_events d" "owners d1 = owners d"
    if "apply_policy_result E ev c a corr p r pg d = (res, d1)" for r res d1
    using frame_apply_policy_result [OF Cons.prems, of E corr p r pg] apply_policy_result_tables [OF that] that
    by (simp_all add: owners_def)
  have rest: "keeps R d (snd (plan_proposals E ev c a corr cap ps pg1 d1))"
    if run: "apply_policy_result E ev c a corr p r pg d = (Inr pg1, d1)" for r pg1 d1
  proof -
    have "keeps R d1 (snd (plan_proposals E ev c a corr cap ps pg1 d1))"
      using Cons.IH [of d1 pg1] Cons.prems one(2,3) [OF run] by simp
    with one(1) [OF run] show ?thesis by (blast intro: keeps_trans)
  qed
  show ?case using one(1) rest by (auto split: sum.splits prod.splits)
qed

lemma frame_event_write:
  assumes "ev_id ev \<in> ev_id ` set (inbound_events d)" and "c \<in> set (customers d)" and "a \<in> set (accounts d)"
  shows "keeps R d (event_write E ev c a corr d)"
proof (cases "wf_db d")
  case False
  then show ?thesis by (simp add: keeps_def)
next
  case True
  let ?c = "c\<lparr>cust_opted_out := True\<rparr>" and ?a = "a\<lparr>acct_status := PAUSED\<rparr>"
  have "keeps R d (set_opted_out c d)"
    unfolding set_opted_out_put [OF True assms(2)]
    using assms(2) by (intro keeps_customer_change [of d c]) (auto simp: customer_step_def)
  moreover have "keeps R d (set_paused a d)"
    unfolding set_paused_put [OF True assms(3)]
    using assms(3) by (intro keeps_account_change [of d a]) (auto simp: account_step_def)
  moreover have "keeps R (set_opted_out c d) (planner_audit E ev corr et ent ei p (set_opted_out c d))"
      "keeps R (set_paused a d) (planner_audit E ev corr et ent ei p (set_paused a d))"
      "keeps R d (planner_audit E ev corr et ent ei p d)" if "ent \<noteq> ''inbound_event''" "et \<noteq> ''dispatch_started''" for et ent ei p
    using assms(1) that by (auto intro!: frame_planner_audit simp: set_opted_out_def set_paused_def)
  ultimately show ?thesis by (auto simp: event_write_def intro: keeps_trans)
qed

theorem frame_plan_outreach:
  assumes "fair_scan E"
  shows "keeps R d (snd (plan_outreach_for_event E i corr now cap d))"
proof (cases "\<exists>now' ev c a. aware_now E now = Inr now'
    \<and> find (\<lambda>ev. ev_id ev = i) (inbound_events d) = Some ev
    \<and> load_customer_and_account d ev = Inr (c, a)")
  case False
  then have "snd (plan_outreach_for_event E i corr now cap d) = d"
    by (auto simp: plan_outreach_for_event_def split: sum.splits option.splits)
  then show ?thesis by simp
next
  case True
  then obtain now' ev c a where now: "aware_now E now = Inr now'"
    and ev: "find (\<lambda>ev. ev_id ev = i) (inbound_events d) = Some ev"
    and load: "load_customer_and_account d ev = Inr (c, a)" by blast
  have evid: "ev_id ev \<in> ev_id ` set (inbound_events d)" using find_Some_in [OF ev] by blast
  note rows = load_in_db [OF load]
  consider "ev_event_type ev \<in> policy_event_types" | "ev_event_type ev \<in> state_event_types"
    | "ev_event_type ev \<notin> policy_event_types \<union> state_event_types" by blast
  then show ?thesis
  proof cases
    case 1
    then have "snd (plan_outreach_for_event E i corr now cap d) = snd (plan_policy_event E ev c a corr now' cap d)"
      using now ev load by (auto simp: plan_outreach_for_event_def policy_event_types_def)
    then show ?thesis
      using frame_plan_proposals [OF evid rows(4)]
      by (auto simp: plan_policy_event_def split: sum.splits prod.splits) (metis snd_conv)+
  next
    case 2
    let ?w = "event_write E ev c a corr d"
    obtain n d1 where can: "cancel_scheduled_tasks E ev c a corr ?w = (n, d1)" by fastforce
    have "keeps R d ?w" using evid rows(1,2) by (rule frame_event_write)
    moreover have "keeps R ?w d1"
      using frame_cancel_scheduled_tasks [of ev ?w E c a corr] evid can by (simp add: frame_simps)
    moreover have "inbound_events d1 = inbound_events d"
      using can by (auto simp: cancel_scheduled_tasks_def Let_def frame_simps)
    then have "keeps R d1 (append_processed_marker E ev corr d1)"
      using evid by (intro frame_marker) simp
    ultimately have "keeps R d (append_processed_marker E ev corr d1)" by (blast intro: keeps_trans)
    then show ?thesis
      unfolding plan_outreach_aware [OF now] plan_state_event [OF ev load 2] by (simp add: can)
  next
    case 3
    then have "snd (plan_outreach_for_event E i corr now cap d) = d"
      using now ev load by (auto simp: plan_outreach_for_event_def policy_event_types_def state_event_types_def)
    then show ?thesis by simp
  qed
qed

end

end
