(* ===== verification/Ingestion.thy ===== *)
theory Ingestion
  imports Planner_Frame
begin

text \<open>
  \<open>src/orchestrator/domain/inbound_events.py\<close> and \<open>domain/event_ingestion.py\<close>: one
  event with its customer and account snapshots is stored, audited, planned and
  committed in one transaction; a duplicate gets the stored result back.

  \<open>ingest_event_snapshot\<close> works on a session.  Its argument \<open>others\<close> is what other
  sessions commit while the insert of the event waits for the unique index, the
  window its handler for \<open>IntegrityError\<close> is there for; the identity stands for no
  other session.  Rows this session has loaded before are taken as read again after
  the window, so on the path without a conflict the model is exact when \<open>others\<close>
  leaves the customer and the account of the event alone.
\<close>

section \<open>Snapshots, results and the replay key\<close>

record customer_snapshot =
  cs_external_id :: string
  cs_full_name :: string
  cs_timezone :: string
  cs_phone_number :: "string option"
  cs_email :: "string option"
  cs_sms_consent :: bool
  cs_call_consent :: bool
  cs_email_consent :: bool

record account_snapshot =
  as_external_id :: string
  as_status :: account_status
  as_balance_cents :: int
  as_days_past_due :: int

record ingestion_result =
  ir_event_id :: uuid
  ir_created_tasks :: nat
  ir_blocked_tasks :: nat
  ir_deferred_tasks :: nat
  ir_cancelled_tasks :: nat
  ir_policy_decisions :: nat

definition inbound_event_idempotency_key :: "env \<Rightarrow> string \<Rightarrow> string \<Rightarrow> string" where
  "inbound_event_idempotency_key E source external_id =
     ''inbound_event:'' @ sha256_hexdigest E (source @ [CHR 0x1F] @ external_id)"

definition find_existing_event :: "db \<Rightarrow> string \<Rightarrow> string \<Rightarrow> inbound_event option" where
  "find_existing_event d source external_id =
     find (\<lambda>e. ev_source e = source \<and> ev_external_id e = external_id) (inbound_events d)"

section \<open>Upserts\<close>

definition apply_customer_snapshot :: "customer_snapshot \<Rightarrow> customer \<Rightarrow> customer" where
  "apply_customer_snapshot snapshot c =
     c\<lparr>cust_full_name := cs_full_name snapshot, cust_timezone := cs_timezone snapshot,
       cust_phone_number := cs_phone_number snapshot, cust_email := cs_email snapshot,
       cust_sms_consent := cs_sms_consent snapshot, cust_call_consent := cs_call_consent snapshot,
       cust_email_consent := cs_email_consent snapshot\<rparr>"

definition upsert_customer :: "env \<Rightarrow> customer_snapshot \<Rightarrow> db \<Rightarrow> (py_error + customer) \<times> db" where
  "upsert_customer E snapshot d =
     (case find (\<lambda>c. cust_external_id c = cs_external_id snapshot) (customers d) of
        None \<Rightarrow>
          (let (i, d1) = uuid4 d;
               c = apply_customer_snapshot snapshot
                 \<lparr>cust_id = i, cust_external_id = cs_external_id snapshot,
                   cust_full_name = cs_full_name snapshot, cust_timezone = ''America/New_York'',
                   cust_phone_number = None, cust_email = None, cust_sms_consent = False,
                   cust_call_consent = False, cust_email_consent = False, cust_opted_out = False,
                   cust_created_at = txn_now E\<rparr>
           in if strict_columns E \<and> \<not> customer_fits c then (Inl DataError, d)
              else (Inr c, d1\<lparr>customers := customers d1 @ [c]\<rparr>))
      | Some c0 \<Rightarrow>
          (let c = apply_customer_snapshot snapshot c0
           in if strict_columns E \<and> \<not> customer_fits c then (Inl DataError, d)
              else (Inr c, d\<lparr>customers := update_where (\<lambda>r. cust_id r = cust_id c0)
                     (apply_customer_snapshot snapshot) (customers d)\<rparr>)))"

definition apply_account_snapshot :: "account_snapshot \<Rightarrow> account \<Rightarrow> account" where
  "apply_account_snapshot snapshot a =
     a\<lparr>acct_status := as_status snapshot, acct_balance_cents := as_balance_cents snapshot,
       acct_days_past_due := as_days_past_due snapshot\<rparr>"

definition upsert_account ::
  "env \<Rightarrow> account_snapshot \<Rightarrow> customer \<Rightarrow> db \<Rightarrow> (py_error + account) \<times> db" where
  "upsert_account E snapshot customer d =
     (case find (\<lambda>a. acct_external_id a = as_external_id snapshot) (accounts d) of
        None \<Rightarrow>
          (let (i, d1) = uuid4 d;
               a = apply_account_snapshot snapshot
                 \<lparr>acct_id = i, acct_external_id = as_external_id snapshot,
                   acct_customer_id = cust_id customer, acct_status = as_status snapshot,
                   acct_balance_cents = 0, acct_days_past_due = 0, acct_created_at = txn_now E\<rparr>
           in if strict_columns E \<and> \<not> account_fits a then (Inl DataError, d)
              else (Inr a, d1\<lparr>accounts := accounts d1 @ [a]\<rparr>))
      | Some a0 \<Rightarrow>
          if acct_customer_id a0 \<noteq> cust_id customer
          then (Inl (EventIngestionValidationError
                 ''Account external_id already belongs to another customer''), d)
          else
          (let a = apply_account_snapshot snapshot a0
           in if strict_columns E \<and> \<not> account_fits a then (Inl DataError, d)
              else (Inr a, d\<lparr>accounts := update_where (\<lambda>r. acct_id r = acct_id a0)
                     (apply_account_snapshot snapshot) (accounts d)\<rparr>)))"

section \<open>The result of an event that is already stored\<close>

definition result_from_existing_event :: "db \<Rightarrow> inbound_event \<Rightarrow> ingestion_result" where
  "result_from_existing_event d event =
     \<lparr>ir_event_id = ev_id event,
       ir_created_tasks = rowcount (\<lambda>(t, p). task_policy_decision_id t = Some (pd_id p)
            \<and> pd_inbound_event_id p = Some (ev_id event))
          (List.product (outreach_tasks d) (policy_decisions d)),
       ir_blocked_tasks = rowcount (\<lambda>p. pd_inbound_event_id p = Some (ev_id event)
            \<and> pd_decision p = BLOCK) (policy_decisions d),
       ir_deferred_tasks = rowcount (\<lambda>p. pd_inbound_event_id p = Some (ev_id event)
            \<and> pd_decision p = DEFER) (policy_decisions d),
       ir_cancelled_tasks = rowcount (\<lambda>r. ae_entity_type r = ''outreach_task''
            \<and> ae_event_type r = ''outreach_cancelled''
            \<and> map_of (ae_payload r) ''inbound_event_id'' = Some (JStr (uuid_str (ev_id event))))
          (audit_events d),
       ir_policy_decisions = rowcount (\<lambda>p. pd_inbound_event_id p = Some (ev_id event))
          (policy_decisions d)\<rparr>"

definition result_from_planner :: "uuid \<Rightarrow> planner_result \<Rightarrow> ingestion_result" where
  "result_from_planner i r =
     \<lparr>ir_event_id = i, ir_created_tasks = pr_created_tasks r, ir_blocked_tasks = pr_blocked_attempts r,
       ir_deferred_tasks = pr_deferred_attempts r, ir_cancelled_tasks = pr_cancelled_tasks r,
       ir_policy_decisions = pr_policy_decisions r\<rparr>"

section \<open>The payload of an event\<close>

definition json_option :: "string option \<Rightarrow> json" where
  "json_option v = (case v of None \<Rightarrow> JNull | Some s \<Rightarrow> JStr s)"

definition customer_payload :: "customer_snapshot \<Rightarrow> payload" where
  "customer_payload s =
     [(''external_id'', JStr (cs_external_id s)), (''full_name'', JStr (cs_full_name s)),
      (''timezone'', JStr (cs_timezone s)), (''phone_number'', json_option (cs_phone_number s)),
      (''email'', json_option (cs_email s)), (''sms_consent'', JBool (cs_sms_consent s)),
      (''call_consent'', JBool (cs_call_consent s)), (''email_consent'', JBool (cs_email_consent s))]"

definition account_payload :: "account_snapshot \<Rightarrow> payload" where
  "account_payload s =
     [(''external_id'', JStr (as_external_id s)),
      (''status'', JStr (account_status_value (as_status s))),
      (''balance_cents'', JInt (as_balance_cents s)), (''days_past_due'', JInt (as_days_past_due s))]"

section \<open>Ingestion\<close>

text \<open>The flush of a new event: both unique constraints of the table.\<close>

definition insert_event :: "env \<Rightarrow> inbound_event \<Rightarrow> db \<Rightarrow> py_error + db" where
  "insert_event E e d =
     (if strict_columns E \<and> \<not> event_fits e then Inl DataError
      else if find_existing_event d (ev_source e) (ev_external_id e) \<noteq> None
        \<or> find (\<lambda>r. ev_idempotency_key r = ev_idempotency_key e) (inbound_events d) \<noteq> None
      then Inl IntegrityError
      else Inr (d\<lparr>inbound_events := inbound_events d @ [e]\<rparr>))"

definition mark_processed :: "uuid \<Rightarrow> db \<Rightarrow> db" where
  "mark_processed i d =
     d\<lparr>inbound_events := update_where (\<lambda>e. ev_id e = i) (\<lambda>e. e\<lparr>ev_processing_status := PROCESSED\<rparr>)
        (inbound_events d)\<rparr>"

definition commit_elsewhere :: "(db \<Rightarrow> db) \<Rightarrow> session \<Rightarrow> session" where
  "commit_elsewhere others s = s\<lparr>store := others (store s), pending := others (pending s)\<rparr>"

text \<open>The two audit rows of an accepted event.\<close>

definition audit_accepted_event :: "env \<Rightarrow> inbound_event \<Rightarrow> uuid \<Rightarrow> db \<Rightarrow> db" where
  "audit_accepted_event E e correlation_id d =
     (let audit_payload = [(''source'', JStr (ev_source e)), (''event_type'', JStr (ev_event_type e)),
            (''external_id'', JStr (ev_external_id e)),
            (''idempotency_key'', JStr (ev_idempotency_key e))];
          d1 = snd (append_audit_event E d ''inbound_event'' (uuid_str (ev_id e)) ''event_received''
            API_CLIENT correlation_id None (Some audit_payload))
      in snd (append_audit_event E d1 ''inbound_event'' (uuid_str (ev_id e)) ''event_accepted''
            SYSTEM correlation_id None (Some audit_payload)))"

text \<open>From the flushed event on: audit, plan, mark as processed, commit.\<close>

definition complete_ingestion ::
  "env \<Rightarrow> inbound_event \<Rightarrow> py_datetime \<Rightarrow> uuid \<Rightarrow> session \<Rightarrow> (py_error + ingestion_result) \<times> session" where
  "complete_ingestion E e occurred_at correlation_id s =
     (case plan_outreach_for_event E (ev_id e) correlation_id (Some occurred_at) 3
             (audit_accepted_event E e correlation_id (pending s)) of
        (Inl err, d) \<Rightarrow> (Inl err, s\<lparr>pending := d\<rparr>)
      | (Inr r, d) \<Rightarrow>
          (Inr (result_from_planner (ev_id e) r), commit (s\<lparr>pending := mark_processed (ev_id e) d\<rparr>)))"

definition new_event ::
  "env \<Rightarrow> uuid \<Rightarrow> string \<Rightarrow> string \<Rightarrow> string \<Rightarrow> customer_snapshot \<Rightarrow> account_snapshot
     \<Rightarrow> py_datetime \<Rightarrow> payload \<Rightarrow> customer \<Rightarrow> account \<Rightarrow> inbound_event" where
  "new_event E i source external_id event_type cs as occurred_at metadata customer account =
     \<lparr>ev_id = i, ev_source = source, ev_external_id = external_id, ev_event_type = event_type,
       ev_customer_external_id = cust_external_id customer,
       ev_account_external_id = acct_external_id account,
       ev_payload = [(''source'', JStr source), (''external_id'', JStr external_id),
         (''event_type'', JStr event_type), (''customer'', JObj (customer_payload cs)),
         (''account'', JObj (account_payload as)), (''occurred_at'', JStr (py_isoformat occurred_at)),
         (''metadata'', JObj metadata)],
       ev_received_at = txn_now E,
       ev_idempotency_key = inbound_event_idempotency_key E source external_id,
       ev_processing_status = RECEIVED\<rparr>"

text \<open>
  The flush: when another session stored the same event first, this one rolls back
  and answers from the stored rows.
\<close>

definition flush_new_event ::
  "env \<Rightarrow> inbound_event \<Rightarrow> py_datetime \<Rightarrow> uuid \<Rightarrow> session \<Rightarrow> (py_error + ingestion_result) \<times> session" where
  "flush_new_event E e occurred_at correlation_id s =
     (case insert_event E e (pending s) of
        Inl err \<Rightarrow>
          if err = IntegrityError
          then (let s1 = rollback s in
                case find_existing_event (pending s1) (ev_source e) (ev_external_id e) of
                  Some e' \<Rightarrow> (Inr (result_from_existing_event (pending s1) e'), s1)
                | None \<Rightarrow> (Inl err, s1))
          else (Inl err, s)
      | Inr d \<Rightarrow> complete_ingestion E e occurred_at correlation_id (s\<lparr>pending := d\<rparr>))"

definition ingest_event_snapshot ::
  "env \<Rightarrow> (db \<Rightarrow> db) \<Rightarrow> string \<Rightarrow> string \<Rightarrow> string \<Rightarrow> customer_snapshot \<Rightarrow> account_snapshot
     \<Rightarrow> py_datetime \<Rightarrow> payload \<Rightarrow> uuid \<Rightarrow> session \<Rightarrow> (py_error + ingestion_result) \<times> session" where
  "ingest_event_snapshot E others source external_id event_type cs as occurred_at metadata correlation_id s =
     (case find_existing_event (pending s) source external_id of
        Some e \<Rightarrow> (Inr (result_from_existing_event (pending s) e), s)
      | None \<Rightarrow>
     (case upsert_customer E cs (pending s) of
        (Inl err, d) \<Rightarrow> (Inl err, s\<lparr>pending := d\<rparr>)
      | (Inr customer, d) \<Rightarrow>
     (case upsert_account E as customer d of
        (Inl err, d1) \<Rightarrow> (Inl err, s\<lparr>pending := d1\<rparr>)
      | (Inr account, d1) \<Rightarrow>
          (let s1 = commit_elsewhere others (s\<lparr>pending := d1\<rparr>);
               (i, d2) = uuid4 (pending s1)
           in flush_new_event E
                (new_event E i source external_id event_type cs as occurred_at metadata customer account)
                occurred_at correlation_id (s1\<lparr>pending := d2\<rparr>)))))"

end
