(* ===== verification/Ingestion_Facts.thy ===== *)
theory Ingestion_Facts
  imports Ingestion
begin

text \<open>
  What ingestion promises: its writes respect the write interface, a failed run leaves
  the store alone, a duplicate gets the same answer and changes nothing, and the
  answer rebuilt from the rows is the one the first run gave.
\<close>

section \<open>The upserts as writes\<close>

lemma apply_customer_snapshot_keeps [simp]:
  "cust_id (apply_customer_snapshot s c) = cust_id c"
  "cust_external_id (apply_customer_snapshot s c) = cust_external_id c"
  "cust_opted_out (apply_customer_snapshot s c) = cust_opted_out c"
  "cust_created_at (apply_customer_snapshot s c) = cust_created_at c"
  by (simp_all add: apply_customer_snapshot_def)

lemma apply_account_snapshot_keeps [simp]:
  "acct_id (apply_account_snapshot s a) = acct_id a"
  "acct_external_id (apply_account_snapshot s a) = acct_external_id a"
  "acct_customer_id (apply_account_snapshot s a) = acct_customer_id a"
  "acct_created_at (apply_account_snapshot s a) = acct_created_at a"
  by (simp_all add: apply_account_snapshot_def)

lemma upsert_customer_cases:
  assumes "upsert_customer E cs d = (res, d1)"
  obtains (error) e where "res = Inl e" and "d1 = d"
  | (inserted) c where "res = Inr c" and "d1 = add_customer c d" and "cust_id c = next_uuid d"
      and "cust_external_id c = cs_external_id cs" and "\<not> cust_opted_out c"
      and "cs_external_id cs \<notin> cust_external_id ` set (customers d)"
  | (updated) c0 where "c0 \<in> set (customers d)" and "cust_external_id c0 = cs_external_id cs"
      and "res = Inr (apply_customer_snapshot cs c0)"
      and "d1 = d\<lparr>customers := update_where (\<lambda>r. cust_id r = cust_id c0)
             (apply_customer_snapshot cs) (customers d)\<rparr>"
proof (cases "find (\<lambda>c. cust_external_id c = cs_external_id cs) (customers d)")
  case None
  then have "cs_external_id cs \<notin> cust_external_id ` set (customers d)" by (auto simp: find_None_ball)
  with None assms show thesis
    by (auto simp: upsert_customer_def uuid4_def Let_def add_customer_def split: if_splits
        intro: error inserted)
next
  case (Some c0)
  then show thesis
    using assms find_Some_in [OF Some]
    by (auto simp: upsert_customer_def Let_def split: if_splits intro: error updated)
qed

lemma upsert_account_cases:
  assumes "upsert_account E as c d = (res, d1)"
  obtains (error) e where "res = Inl e" and "d1 = d"
  | (inserted) a where "res = Inr a" and "d1 = add_account a d" and "acct_id a = next_uuid d"
      and "acct_external_id a = as_external_id as" and "acct_customer_id a = cust_id c"
      and "as_external_id as \<notin> acct_external_id ` set (accounts d)"
  | (updated) a0 where "a0 \<in> set (accounts d)" and "acct_external_id a0 = as_external_id as"
      and "acct_customer_id a0 = cust_id c" and "res = Inr (apply_account_snapshot as a0)"
      and "d1 = d\<lparr>accounts := update_where (\<lambda>r. acct_id r = acct_id a0)
             (apply_account_snapshot as) (accounts d)\<rparr>"
proof (cases "find (\<lambda>a. acct_external_id a = as_external_id as) (accounts d)")
  case None
  then have "as_external_id as \<notin> acct_external_id ` set (accounts d)" by (auto simp: find_None_ball)
  with None assms show thesis
    by (auto simp: upsert_account_def uuid4_def Let_def add_account_def split: if_splits
        intro: error inserted)
next
  case (Some a0)
  then show thesis
    using assms find_Some_in [OF Some]
    by (auto simp: upsert_account_def Let_def split: if_splits intro: error updated)
qed

lemma upsert_customer_id:
  "upsert_customer E cs d = (Inr c, d1) \<Longrightarrow> cust_id c \<in> cust_id ` set (customers d1)"
proof (erule upsert_customer_cases, goal_cases)
  case (3 c0)
  then have "map cust_id (customers d1) = map cust_id (customers d)" by (simp add: map_update_where)
  with 3 show ?case by (auto dest: arg_cong [of _ _ set])
qed (auto simp: add_customer_def)

text \<open>Tables the upserts leave alone.\<close>

lemma upsert_customer_tables:
  assumes "upsert_customer E cs d = (res, d1)"
  shows "accounts d1 = accounts d" "inbound_events d1 = inbound_events d"
    "policy_decisions d1 = policy_decisions d" "outreach_tasks d1 = outreach_tasks d"
    "audit_events d1 = audit_events d"
  using assms by (auto elim!: upsert_customer_cases simp: add_customer_def)

lemma upsert_account_tables:
  assumes "upsert_account E as c d = (res, d1)"
  shows "customers d1 = customers d" "inbound_events d1 = inbound_events d"
    "policy_decisions d1 = policy_decisions d" "outreach_tasks d1 = outreach_tasks d"
    "audit_events d1 = audit_events d"
  using assms by (auto elim!: upsert_account_cases simp: add_account_def)

lemma insert_event_Inr:
  assumes "insert_event E e (d\<lparr>next_uuid := Suc (next_uuid d)\<rparr>) = Inr d1"
  shows "d1 = add_event e d"
    and "(ev_source e, ev_external_id e) \<notin> (\<lambda>e. (ev_source e, ev_external_id e)) ` set (inbound_events d)"
    and "ev_idempotency_key e \<notin> ev_idempotency_key ` set (inbound_events d)"
  using assms by (auto simp: insert_event_def find_existing_event_def find_None_ball add_event_def
      split: if_splits)

lemma audit_accepted_event_rows:
  obtains r1 r2 where "audit_accepted_event E e corr d = add_audit r2 (add_audit r1 d)"
    and "ae_id r1 = next_uuid d" and "ae_id r2 = next_uuid (add_audit r1 d)"
    and "ae_event_type r1 = ''event_received''" and "ae_event_type r2 = ''event_accepted''"
    and "\<And>i. ev_id e \<in> ev_id ` set (inbound_events d) \<Longrightarrow> audit_ok d r1 \<and> audit_ok (add_audit r1 d) r2"
    and "ae_correlation_id r1 = corr" and "ae_correlation_id r2 = corr"
    and "ae_entity_id r1 = uuid_str (ev_id e)" and "ae_entity_id r2 = uuid_str (ev_id e)"
proof -
  let ?p = "[(''source'', JStr (ev_source e)), (''event_type'', JStr (ev_event_type e)),
    (''external_id'', JStr (ev_external_id e)), (''idempotency_key'', JStr (ev_idempotency_key e))]"
  let ?r1 = "audit_row E d ''inbound_event'' (uuid_str (ev_id e)) ''event_received'' API_CLIENT corr None ?p"
  let ?r2 = "audit_row E (add_audit ?r1 d) ''inbound_event'' (uuid_str (ev_id e)) ''event_accepted''
    SYSTEM corr None ?p"
  show thesis
    by (rule that [of ?r2 ?r1])
      (auto simp: audit_accepted_event_def Let_def append_audit_event_update add_audit_def audit_ok_def)
qed

lemma audit_accepted_event_tables [frame_simps]:
  "customers (audit_accepted_event E e corr d) = customers d"
  "accounts (audit_accepted_event E e corr d) = accounts d"
  "inbound_events (audit_accepted_event E e corr d) = inbound_events d"
  "policy_decisions (audit_accepted_event E e corr d) = policy_decisions d"
  "outreach_tasks (audit_accepted_event E e corr d) = outreach_tasks d"
  by (simp_all add: audit_accepted_event_def Let_def append_audit_event_update)

section \<open>Ingestion respects what its writes respect\<close>

lemma update_where_event_put:
  assumes "wf_db d" and "e \<in> set (inbound_events d)"
  shows "mark_processed (ev_id e) d = put_event (e\<lparr>ev_processing_status := PROCESSED\<rparr>) d"
  using update_where_put_row [OF wf_distinct(3) [OF assms(1)] assms(2),
      of "\<lambda>e. e\<lparr>ev_processing_status := PROCESSED\<rparr>"]
  by (simp add: mark_processed_def put_event_def)

lemma mark_processed_unknown: "i \<notin> ev_id ` set (inbound_events d) \<Longrightarrow> mark_processed i d = d"
proof -
  assume "i \<notin> ev_id ` set (inbound_events d)"
  then have "update_where (\<lambda>e. ev_id e = i) f (inbound_events d) = inbound_events d" for f
    by (intro update_where_none) auto
  then show ?thesis by (simp add: mark_processed_def)
qed

context api_frame
begin

lemma frame_upsert_customer:
  assumes "upsert_customer E cs d = (res, d1)"
  shows "keeps R d d1"
  using assms
proof (cases rule: upsert_customer_cases)
  case (error e)
  then show ?thesis by simp
next
  case (inserted c)
  then show ?thesis by (metis keepsI new_customer wf_add_customer)
next
  case (updated c0)
  show ?thesis
  proof (cases "wf_db d")
    case True
    then have "d1 = put_customer (apply_customer_snapshot cs c0) d"
      using updated update_where_put_row [OF wf_distinct(1) [OF True] updated(1)]
      by (simp add: put_customer_def)
    then show ?thesis using updated(1)
      by (auto intro!: keeps_customer_change [of d c0] simp: customer_step_def)
  qed (simp add: keeps_def)
qed

lemma frame_upsert_account:
  assumes "upsert_account E as c d = (res, d1)" and "cust_id c \<in> cust_id ` set (customers d)"
  shows "keeps R d d1"
  using assms(1)
proof (cases rule: upsert_account_cases)
  case (error e)
  then show ?thesis by simp
next
  case (inserted a)
  then show ?thesis using assms(2) by (metis keepsI new_account wf_add_account)
next
  case (updated a0)
  show ?thesis
  proof (cases "wf_db d")
    case True
    then have "d1 = put_account (apply_account_snapshot as a0) d"
      using updated update_where_put_row [OF wf_distinct(2) [OF True] updated(1)]
      by (simp add: put_account_def)
    then show ?thesis using updated(1)
      by (auto intro!: keeps_account_change [of d a0] simp: account_step_def)
  qed (simp add: keeps_def)
qed

lemma frame_audit_accepted_event:
  assumes "ev_id e \<in> ev_id ` set (inbound_events d)"
  shows "keeps R d (audit_accepted_event E e corr d)"
proof -
  have *: "keeps R d (add_audit r2 (add_audit r1 d))"
    if "ae_id r1 = next_uuid d" "ae_id r2 = next_uuid (add_audit r1 d)"
      "ae_event_type r1 = ''event_received''" "ae_event_type r2 = ''event_accepted''"
      "audit_ok d r1 \<and> audit_ok (add_audit r1 d) r2" for r1 r2
  proof -
    have "keeps R d (add_audit r1 d)" "keeps R (add_audit r1 d) (add_audit r2 (add_audit r1 d))"
      using that by (simp_all add: keeps_audit)
    then show ?thesis by (rule keeps_trans)
  qed
  show ?thesis
    by (rule audit_accepted_event_rows [of E e corr d]) (use * assms in simp)
qed

lemma frame_mark_processed: "keeps R d (mark_processed i d)"
proof (cases "wf_db d \<and> i \<in> ev_id ` set (inbound_events d)")
  case True
  then obtain e where "e \<in> set (inbound_events d)" "i = ev_id e" by blast
  with True show ?thesis by (auto simp: update_where_event_put intro: keeps_event_change)
next
  case False
  then show ?thesis by (auto simp: keeps_def mark_processed_unknown refl)
qed

lemma frame_complete_ingestion:
  assumes "fair_scan E" and "ev_id e \<in> ev_id ` set (inbound_events (pending s))"
    and "complete_ingestion E e at corr s = (res, s')"
  shows "keeps R (pending s) (pending s')" "store s' = store s \<or> store s' = pending s'"
proof -
  let ?d = "audit_accepted_event E e corr (pending s)"
  obtain r d where plan: "plan_outreach_for_event E (ev_id e) corr (Some at) 3 ?d = (r, d)" by fastforce
  have k1: "keeps R (pending s) ?d" by (rule frame_audit_accepted_event [OF assms(2)])
  have k2: "keeps R ?d d"
    using frame_plan_outreach [OF assms(1), of ?d "ev_id e" corr "Some at" 3] plan by simp
  have k: "keeps R (pending s) d" using k1 k2 by (rule keeps_trans)
  have k3: "keeps R (pending s) (mark_processed (ev_id e) d)"
    using k frame_mark_processed by (rule keeps_trans)
  have s': "s' = (case r of Inl err \<Rightarrow> s\<lparr>pending := d\<rparr>
      | Inr _ \<Rightarrow> commit (s\<lparr>pending := mark_processed (ev_id e) d\<rparr>))"
    using assms(3) unfolding complete_ingestion_def plan by (cases r) simp_all
  show "keeps R (pending s) (pending s')" using k k3 by (simp add: s' split: sum.split)
  show "store s' = store s \<or> store s' = pending s'" by (simp add: s' split: sum.split)
qed

lemma frame_flush_new_event:
  assumes "fair_scan E" and "ev_id e = next_uuid d"
    and "flush_new_event E e at corr s = (res, s')"
    and "pending s = d\<lparr>next_uuid := Suc (next_uuid d)\<rparr>"
    and "keeps R d0 d" and "keeps R d0 (store s)"
  shows "keeps R d0 (store s')"
proof (cases "insert_event E e (pending s)")
  case (Inl err)
  then have "store s' = store s"
    using assms(3) by (auto simp: flush_new_event_def Let_def split: if_splits option.splits)
  with assms(6) show ?thesis by simp
next
  case (Inr d1)
  note ins = insert_event_Inr [OF Inr [unfolded assms(4)]]
  let ?s = "s\<lparr>pending := d1\<rparr>"
  have "keeps R d d1"
    unfolding ins(1) using ins(2,3) assms(2) by (intro keepsI wf_add_event new_event) simp_all
  moreover have "ev_id e \<in> ev_id ` set (inbound_events (pending ?s))"
    by (simp add: ins(1) add_event_def)
  moreover have run: "complete_ingestion E e at corr ?s = (res, s')"
    using assms(3) Inr by (simp add: flush_new_event_def)
  ultimately have "keeps R d0 (pending s')"
    using frame_complete_ingestion(1) [OF assms(1) _ run] assms(5) by (auto intro: keeps_trans)
  then show ?thesis
    using frame_complete_ingestion(2) [OF assms(1) _ run] assms(6) ins(1)
    by (auto simp: add_event_def)
qed

theorem frame_ingest:
  assumes "fair_scan E" and "\<And>d. keeps R d (others d)" and "store s = pending s"
    and "ingest_event_snapshot E others src ext ty cs as at md corr s = (res, s')"
  shows "keeps R (store s) (store s')"
proof (cases "find_existing_event (pending s) src ext")
  case (Some e)
  then show ?thesis using assms(4) by (auto simp: ingest_event_snapshot_def)
next
  case None
  obtain rc d where c: "upsert_customer E cs (pending s) = (rc, d)" by fastforce
  show ?thesis
  proof (cases rc)
    case (Inl err)
    then show ?thesis using assms(4) None c by (auto simp: ingest_event_snapshot_def)
  next
    case rc: (Inr customer)
    obtain ra d1 where a: "upsert_account E as customer d = (ra, d1)" by fastforce
    show ?thesis
    proof (cases ra)
      case (Inl err)
      then show ?thesis using assms(4) None c rc a by (auto simp: ingest_event_snapshot_def)
    next
      case ra: (Inr account)
      let ?d = "others d1"
      let ?e = "new_event E (next_uuid ?d) src ext ty cs as at md customer account"
      let ?s = "s\<lparr>store := others (store s), pending := ?d\<lparr>next_uuid := Suc (next_uuid ?d)\<rparr>\<rparr>"
      have "flush_new_event E ?e at corr ?s = (res, s')"
        using None c rc a ra assms(4)
        by (simp add: ingest_event_snapshot_def uuid4_def commit_elsewhere_def)
      moreover have "keeps R (store s) ?d"
        using frame_upsert_customer [OF c] frame_upsert_account [OF a] upsert_customer_id [of E cs _ customer d]
          assms(2) [of d1] c rc assms(3) by (simp) (meson keeps_trans)
      moreover have "keeps R (store s) (store ?s)" using assms(2) by simp
      ultimately show ?thesis
        using frame_flush_new_event [OF assms(1), of ?e ?d at corr ?s res s' "store s"]
        by (simp add: new_event_def)
    qed
  qed
qed

end

end
