(* ===== verification/Planner_Windows.thy ===== *)
theory Planner_Windows
  imports Planner_Frame
begin

text \<open>
  The planner with its window.  \<open>_cancel_scheduled_tasks\<close> selects the scheduled tasks and then
  writes them by primary key, and \<open>_plan_policy_event\<close> counts attempts and then adds decisions
  and tasks; what another session commits in between, such as the claim and the
  outcome of a worker or an opt-out, is an argument here.  With nothing in the window
  this is the function of theory \<open>Planner\<close>, and its writes respect every relation of the
  write interface.
\<close>

section \<open>Reads and writes in two steps\<close>

definition cancel_scheduled_tasks_between ::
  "env \<Rightarrow> (db \<Rightarrow> db) \<Rightarrow> inbound_event \<Rightarrow> customer \<Rightarrow> account \<Rightarrow> uuid \<Rightarrow> db \<Rightarrow> nat \<times> db" where
  "cancel_scheduled_tasks_between E others ev customer account correlation_id d =
     (let tasks = scan_order E (filter (cancellable customer account) (outreach_tasks d))
      in (length tasks, cancel_tasks E ev account correlation_id tasks (others d)))"

text \<open>The four handlers, with \<open>event_write\<close> for what is particular to the event.\<close>

definition state_event_between ::
  "env \<Rightarrow> (db \<Rightarrow> db) \<Rightarrow> inbound_event \<Rightarrow> customer \<Rightarrow> account \<Rightarrow> uuid \<Rightarrow> db \<Rightarrow> planner_result \<times> db" where
  "state_event_between E others ev customer account correlation_id d =
     (if has_processed_marker d ev then (no_effects (ev_id ev), d)
      else let (n, d1) = cancel_scheduled_tasks_between E others ev customer account correlation_id
                 (event_write E ev customer account correlation_id d)
           in (cancelled_result ev n, append_processed_marker E ev correlation_id d1))"

text \<open>
  The loop over the proposals evaluates what was read before it: the customer, the account and
  the count of recent attempts.  The window is between these reads and the first write.
\<close>

definition plan_policy_event_between ::
  "env \<Rightarrow> (db \<Rightarrow> db) \<Rightarrow> inbound_event \<Rightarrow> customer \<Rightarrow> account \<Rightarrow> uuid \<Rightarrow> datetime \<Rightarrow> int \<Rightarrow> db
     \<Rightarrow> (py_error + planner_result) \<times> db" where
  "plan_policy_event_between E others ev customer account correlation_id now cap d =
     (if find (\<lambda>pd. pd_inbound_event_id pd = Some (ev_id ev)) (policy_decisions d) \<noteq> None
      then (Inr (no_effects (ev_id ev)), d)
      else case recent_attempt_count d customer now of
        Inl e \<Rightarrow> (Inl e, d)
      | Inr recent \<Rightarrow>
          (case proposals_for_event E (ev_event_type ev) now (cust_timezone customer) of
             Inl e \<Rightarrow> (Inl e, d)
           | Inr ps \<Rightarrow>
               (case plan_proposals E ev customer account correlation_id cap ps
                       \<lparr>pg_recent_count = recent, pg_created_tasks = 0, pg_policy_decisions = 0,
                         pg_blocked_attempts = 0, pg_deferred_attempts = 0\<rparr> (others d) of
                  (Inl e, d1) \<Rightarrow> (Inl e, d1)
                | (Inr pg, d1) \<Rightarrow>
                    (Inr \<lparr>pr_inbound_event_id = ev_id ev, pr_created_tasks = pg_created_tasks pg,
                       pr_cancelled_tasks = 0, pr_policy_decisions = pg_policy_decisions pg,
                       pr_blocked_attempts = pg_blocked_attempts pg,
                       pr_deferred_attempts = pg_deferred_attempts pg\<rparr>, d1))))"

definition plan_outreach_between ::
  "env \<Rightarrow> (db \<Rightarrow> db) \<Rightarrow> uuid \<Rightarrow> uuid \<Rightarrow> py_datetime option \<Rightarrow> int \<Rightarrow> db \<Rightarrow> (py_error + planner_result) \<times> db" where
  "plan_outreach_between E others inbound_event_id correlation_id now frequency_cap d =
     (case aware_now E now of
        Inl e \<Rightarrow> (Inl e, d)
      | Inr now' \<Rightarrow>
     (case find (\<lambda>ev. ev_id ev = inbound_event_id) (inbound_events d) of
        None \<Rightarrow> (Inl (ValueError (''Inbound event not found: '' @ uuid_str inbound_event_id)), d)
      | Some ev \<Rightarrow>
     (case load_customer_and_account d ev of
        Inl e \<Rightarrow> (Inl e, d)
      | Inr (customer, account) \<Rightarrow>
          if ev_event_type ev \<in> policy_event_types
          then plan_policy_event_between E others ev customer account correlation_id now' frequency_cap d
          else if ev_event_type ev \<in> state_event_types
          then map_prod Inr id (state_event_between E others ev customer account correlation_id d)
          else (Inl (ValueError (''Unsupported inbound event type: '' @ ev_event_type ev)), d))))"

section \<open>Without interference\<close>

lemma state_event_quiet:
  assumes "ev_event_type ev \<in> state_event_types"
  shows "state_event_between E (\<lambda>x. x) ev c a corr d =
     (if ev_event_type ev = ''payment_received'' then handle_cancellation_event E ev c a corr d
      else if ev_event_type ev = ''opt_out_received'' then handle_opt_out E ev c a corr d
      else if ev_event_type ev = ''hardship_requested'' then handle_hardship E ev c a corr d
      else handle_account_paused E ev c a corr d)"
  using assms
  by (auto simp: state_event_between_def cancel_scheduled_tasks_between_def cancel_scheduled_tasks_def event_write_def
      handle_cancellation_event_def handle_opt_out_def handle_hardship_def handle_account_paused_def
      state_event_types_def Let_def)

lemma plan_outreach_quiet:
  "plan_outreach_between E (\<lambda>x. x) i corr now cap d = plan_outreach_for_event E i corr now cap d"
  by (simp add: plan_outreach_between_def plan_outreach_for_event_def state_event_quiet
      plan_policy_event_between_def plan_policy_event_def policy_event_types_def
      state_event_types_def split: sum.split option.split)

section \<open>With respectful interference\<close>

text \<open>What the others have to leave: the events, and the accounts with their customers.\<close>

definition basis_kept :: "db \<Rightarrow> db \<Rightarrow> bool" where
  "basis_kept d d' \<longleftrightarrow> events_kept d d' \<and> lineage_kept d d'"

lemma basis_kept_event:
  "basis_kept d d' \<Longrightarrow> ev_id ev \<in> ev_id ` set (inbound_events d) \<Longrightarrow> ev_id ev \<in> ev_id ` set (inbound_events d')"
  by (auto simp: basis_kept_def events_kept_def)

lemma basis_kept_owners:
  assumes "basis_kept d d'" and "(i, j) \<in> owners d"
  shows "(i, j) \<in> owners d'"
proof -
  from assms(2) obtain a where a: "a \<in> set (accounts d)" "i = acct_id a" "j = acct_customer_id a"
    by (auto simp: owners_def)
  then obtain a' where "a' \<in> set (accounts d')" "account_step a a'"
    using assms(1) by (auto simp: basis_kept_def lineage_kept_def)
  with a show ?thesis by (auto simp: account_step_def owners_def intro!: image_eqI [of _ _ a'])
qed

context api_frame
begin

lemma frame_plan_policy_event_between:
  assumes "ev_id ev \<in> ev_id ` set (inbound_events d)" and "(acct_id a, cust_id c) \<in> owners d"
    and "\<And>x. keeps R x (others x)" and "\<And>x. keeps basis_kept x (others x)"
  shows "keeps R d (snd (plan_policy_event_between E others ev c a corr now cap d))"
proof (cases "wf_db d")
  case True
  then have kept: "basis_kept d (others d)" using assms(4) [of d] by (simp add: keeps_def)
  note ev = basis_kept_event [OF kept assms(1)] and own = basis_kept_owners [OF kept assms(2)]
  have "keeps R d (snd (plan_proposals E ev c a corr cap ps pg (others d)))" for ps pg
    using assms(3) [of d] frame_plan_proposals [OF ev own] by (rule keeps_trans)
  then show ?thesis
    by (auto simp: plan_policy_event_between_def split: sum.splits prod.splits) (metis snd_conv)+
qed (simp add: keeps_def)

lemma frame_state_event_between:
  assumes "ev_id ev \<in> ev_id ` set (inbound_events d)" and "c \<in> set (customers d)" and "a \<in> set (accounts d)"
    and "\<And>x. keeps R x (others x)" and "\<And>x. keeps basis_kept x (others x)"
  shows "keeps R d (snd (state_event_between E others ev c a corr d))"
proof (cases "wf_db d")
  case True
  let ?w = "event_write E ev c a corr d"
  let ?ts = "scan_order E (filter (cancellable c a) (outreach_tasks ?w))"
  let ?c = "cancel_tasks E ev a corr ?ts (others ?w)"
  have w: "keeps R d ?w" using assms(1-3) by (rule frame_event_write)
  have o: "keeps R d (others ?w)" using w assms(4) by (rule keeps_trans)
  have "wf_db ?w" using w True by (simp add: keeps_def)
  then have ev: "ev_id ev \<in> ev_id ` set (inbound_events (others ?w))"
    using basis_kept_event [of ?w "others ?w" ev] assms(1) assms(5) [of ?w] by (simp add: keeps_def frame_simps)
  have "keeps R d ?c" using o frame_cancel_tasks [OF ev] by (rule keeps_trans)
  moreover have "keeps R ?c (append_processed_marker E ev corr ?c)"
    using ev by (intro frame_marker) (simp add: frame_simps)
  ultimately have "keeps R d (append_processed_marker E ev corr ?c)" by (rule keeps_trans)
  then show ?thesis
    by (simp add: state_event_between_def cancel_scheduled_tasks_between_def Let_def)
qed (simp add: keeps_def)

lemma frame_plan_outreach_between:
  assumes "fair_scan E" and "\<And>x. keeps R x (others x)" and "\<And>x. keeps basis_kept x (others x)"
  shows "keeps R d (snd (plan_outreach_between E others i corr now cap d))"
proof (cases "\<exists>now' ev c a. aware_now E now = Inr now'
    \<and> find (\<lambda>ev. ev_id ev = i) (inbound_events d) = Some ev \<and> load_customer_and_account d ev = Inr (c, a)")
  case False
  then have "snd (plan_outreach_between E others i corr now cap d) = d"
    by (auto simp: plan_outreach_between_def split: sum.splits option.splits)
  then show ?thesis by simp
next
  case True
  then obtain now' ev c a where now: "aware_now E now = Inr now'"
    and ev: "find (\<lambda>ev. ev_id ev = i) (inbound_events d) = Some ev"
    and load: "load_customer_and_account d ev = Inr (c, a)" by blast
  have evid: "ev_id ev \<in> ev_id ` set (inbound_events d)" using find_Some_in [OF ev] by blast
  note rows = load_in_db [OF load]
  have "snd (plan_outreach_between E others i corr now cap d) =
      (if ev_event_type ev \<in> policy_event_types
       then snd (plan_policy_event_between E others ev c a corr now' cap d)
       else if ev_event_type ev \<in> state_event_types then snd (state_event_between E others ev c a corr d) else d)"
    using now ev load by (simp add: plan_outreach_between_def)
  then show ?thesis
    using frame_plan_policy_event_between [OF evid rows(4) assms(2,3)]
      frame_state_event_between [OF evid rows(1,2) assms(2,3)] by simp
qed

end

end
