(* ===== verification/Ingestion_Windows.thy ===== *)
theory Ingestion_Windows
  imports Ingestion_Facts Planner_Windows
begin

text \<open>
  Ingestion with all of its windows.  \<open>_upsert_customer\<close> and \<open>_upsert_account\<close> read a row
  and flush afterwards, and so does the planner; what another session
  commits in between is an argument here, as it is for the flush of the event.  With
  nothing in the other windows this is the function of theory \<open>Ingestion\<close>.  Its writes respect every relation of the write
  interface, whatever the others do that respects it too and keeps the customers.
\<close>

section \<open>Upserts in two steps\<close>

text \<open>The flush of a customer that the select before it found, or did not find.\<close>

definition flush_customer ::
  "env \<Rightarrow> customer_snapshot \<Rightarrow> customer option \<Rightarrow> db \<Rightarrow> (py_error + customer) \<times> db" where
  "flush_customer E snapshot selected d =
     (case selected of
        None \<Rightarrow>
          (let (i, d1) = uuid4 d;
               c = apply_customer_snapshot snapshot
                 \<lparr>cust_id = i, cust_external_id = cs_external_id snapshot,
                   cust_full_name = cs_full_name snapshot, cust_timezone = ''America/New_York'',
                   cust_phone_number = None, cust_email = None, cust_sms_consent = False,
                   cust_call_consent = False, cust_email_consent = False, cust_opted_out = False,
                   cust_created_at = txn_now E\<rparr>
           in if strict_columns E \<and> \<not> customer_fits c then (Inl DataError, d)
              else if cs_external_id snapshot \<in> set (map cust_external_id (customers d))
              then (Inl IntegrityError, d)
              else (Inr c, d1\<lparr>customers := customers d1 @ [c]\<rparr>))
      | Some c0 \<Rightarrow>
          (let c = apply_customer_snapshot snapshot c0
           in if strict_columns E \<and> \<not> customer_fits c then (Inl DataError, d)
              else (Inr c, d\<lparr>customers := update_where (\<lambda>r. cust_id r = cust_id c0)
                     (apply_customer_snapshot snapshot) (customers d)\<rparr>)))"

definition flush_account ::
  "env \<Rightarrow> account_snapshot \<Rightarrow> customer \<Rightarrow> account option \<Rightarrow> db \<Rightarrow> (py_error + account) \<times> db" where
  "flush_account E snapshot customer selected d =
     (case selected of
        None \<Rightarrow>
          (let (i, d1) = uuid4 d;
               a = apply_account_snapshot snapshot
                 \<lparr>acct_id = i, acct_external_id = as_external_id snapshot,
                   acct_customer_id = cust_id customer, acct_status = as_status snapshot,
                   acct_balance_cents = 0, acct_days_past_due = 0, acct_created_at = txn_now E\<rparr>
           in if strict_columns E \<and> \<not> account_fits a then (Inl DataError, d)
              else if as_external_id snapshot \<in> set (map acct_external_id (accounts d))
              then (Inl IntegrityError, d)
              else (Inr a, d1\<lparr>accounts := accounts d1 @ [a]\<rparr>))
      | Some a0 \<Rightarrow>
          (let a = apply_account_snapshot snapshot a0
           in if strict_columns E \<and> \<not> account_fits a then (Inl DataError, d)
              else (Inr a, d\<lparr>accounts := update_where (\<lambda>r. acct_id r = acct_id a0)
                     (apply_account_snapshot snapshot) (accounts d)\<rparr>)))"

definition foreign_account :: "account option \<Rightarrow> customer \<Rightarrow> bool" where
  "foreign_account selected customer \<longleftrightarrow>
     (case selected of None \<Rightarrow> False | Some a0 \<Rightarrow> acct_customer_id a0 \<noteq> cust_id customer)"

text \<open>From the event on, with the window of the planner.  Where the planner raises, the store keeps
  what the others have committed meanwhile.\<close>

definition complete_ingestion_between ::
  "env \<Rightarrow> (db \<Rightarrow> db) \<Rightarrow> inbound_event \<Rightarrow> py_datetime \<Rightarrow> uuid \<Rightarrow> session \<Rightarrow> (py_error + ingestion_result) \<times> session" where
  "complete_ingestion_between E others e occurred_at correlation_id s =
     (case plan_outreach_between E others (ev_id e) correlation_id (Some occurred_at) 3
             (audit_accepted_event E e correlation_id (pending s)) of
        (Inl err, d) \<Rightarrow> (Inl err, s\<lparr>store := others (store s), pending := d\<rparr>)
      | (Inr r, d) \<Rightarrow>
          (Inr (result_from_planner (ev_id e) r), commit (s\<lparr>pending := mark_processed (ev_id e) d\<rparr>)))"

definition flush_new_event_between ::
  "env \<Rightarrow> (db \<Rightarrow> db) \<Rightarrow> inbound_event \<Rightarrow> py_datetime \<Rightarrow> uuid \<Rightarrow> session \<Rightarrow> (py_error + ingestion_result) \<times> session" where
  "flush_new_event_between E others e occurred_at correlation_id s =
     (case insert_event E e (pending s) of
        Inl err \<Rightarrow>
          if err = IntegrityError
          then (let s1 = rollback s in
                case find_existing_event (pending s1) (ev_source e) (ev_external_id e) of
                  Some e' \<Rightarrow> (Inr (result_from_existing_event (pending s1) e'), s1)
                | None \<Rightarrow> (Inl err, s1))
          else (Inl err, s)
      | Inr d \<Rightarrow> complete_ingestion_between E others e occurred_at correlation_id (s\<lparr>pending := d\<rparr>))"

text \<open>
  The windows in order: before the flush of the customer, of the account, of the event, and
  of what the planner writes.
\<close>

definition ingest_event_between ::
  "env \<Rightarrow> (db \<Rightarrow> db) \<Rightarrow> (db \<Rightarrow> db) \<Rightarrow> (db \<Rightarrow> db) \<Rightarrow> (db \<Rightarrow> db) \<Rightarrow> string \<Rightarrow> string \<Rightarrow> string \<Rightarrow> customer_snapshot
     \<Rightarrow> account_snapshot \<Rightarrow> py_datetime \<Rightarrow> payload \<Rightarrow> uuid \<Rightarrow> session \<Rightarrow> (py_error + ingestion_result) \<times> session" where
  "ingest_event_between E others1 others2 others3 others4 source external_id event_type cs as occurred_at
       metadata correlation_id s =
     (case find_existing_event (pending s) source external_id of
        Some e \<Rightarrow> (Inr (result_from_existing_event (pending s) e), s)
      | None \<Rightarrow>
     (let selected = find (\<lambda>c. cust_external_id c = cs_external_id cs) (customers (pending s));
          s1 = commit_elsewhere others1 s in
      case flush_customer E cs selected (pending s1) of
        (Inl err, d) \<Rightarrow> (Inl err, s1\<lparr>pending := d\<rparr>)
      | (Inr customer, d) \<Rightarrow>
     (let selected_account = find (\<lambda>a. acct_external_id a = as_external_id as) (accounts d) in
      if foreign_account selected_account customer
      then (Inl (EventIngestionValidationError
              ''Account external_id already belongs to another customer''), s1\<lparr>pending := d\<rparr>)
      else
     (let s2 = commit_elsewhere others2 (s1\<lparr>pending := d\<rparr>) in
      case flush_account E as customer selected_account (pending s2) of
        (Inl err, d1) \<Rightarrow> (Inl err, s2\<lparr>pending := d1\<rparr>)
      | (Inr account, d1) \<Rightarrow>
          (let s3 = commit_elsewhere others3 (s2\<lparr>pending := d1\<rparr>);
               (i, d2) = uuid4 (pending s3)
           in flush_new_event_between E others4
                (new_event E i source external_id event_type cs as occurred_at metadata customer account)
                occurred_at correlation_id (s3\<lparr>pending := d2\<rparr>))))))"

section \<open>Without interference\<close>

lemma flush_customer_upsert:
  "flush_customer E cs (find (\<lambda>c. cust_external_id c = cs_external_id cs) (customers d)) d = upsert_customer E cs d"
proof (cases "find (\<lambda>c. cust_external_id c = cs_external_id cs) (customers d)")
  case None
  then have "cs_external_id cs \<notin> set (map cust_external_id (customers d))" by (auto simp: find_None_ball)
  then show ?thesis by (simp add: None flush_customer_def upsert_customer_def Let_def uuid4_def)
qed (simp add: flush_customer_def upsert_customer_def)

lemma flush_account_upsert:
  "(if foreign_account (find (\<lambda>a. acct_external_id a = as_external_id as) (accounts d)) c
    then (Inl (EventIngestionValidationError ''Account external_id already belongs to another customer''), d)
    else flush_account E as c (find (\<lambda>a. acct_external_id a = as_external_id as) (accounts d)) d)
   = upsert_account E as c d"
proof (cases "find (\<lambda>a. acct_external_id a = as_external_id as) (accounts d)")
  case None
  then have "as_external_id as \<notin> set (map acct_external_id (accounts d))" by (auto simp: find_None_ball)
  then show ?thesis
    by (simp add: None foreign_account_def flush_account_def upsert_account_def Let_def uuid4_def)
qed (simp add: foreign_account_def flush_account_def upsert_account_def)

lemma commit_elsewhere_none [simp]: "commit_elsewhere (\<lambda>x. x) s = s"
  by (simp add: commit_elsewhere_def)

lemma flush_between_quiet: "flush_new_event_between E (\<lambda>x. x) e at corr s = flush_new_event E e at corr s"
proof -
  have "complete_ingestion_between E (\<lambda>x. x) e at corr s = complete_ingestion E e at corr s" for s
    by (simp add: complete_ingestion_between_def complete_ingestion_def plan_outreach_quiet split: sum.split prod.split)
  then show ?thesis by (simp add: flush_new_event_between_def flush_new_event_def split: sum.split)
qed

lemma ingest_between_quiet:
  "ingest_event_between E (\<lambda>x. x) (\<lambda>x. x) others (\<lambda>x. x) src ext ty cs as at md corr s =
     ingest_event_snapshot E others src ext ty cs as at md corr s"
proof -
  have acct: "flush_account E as c (find (\<lambda>a. acct_external_id a = as_external_id as) (accounts d)) d = upsert_account E as c d"
    if "\<not> foreign_account (find (\<lambda>a. acct_external_id a = as_external_id as) (accounts d)) c" for c d
    using that flush_account_upsert [of as d c E] by simp
  have moved: "upsert_account E as c d = (Inl (EventIngestionValidationError
      ''Account external_id already belongs to another customer''), d)"
    if "foreign_account (find (\<lambda>a. acct_external_id a = as_external_id as) (accounts d)) c" for c d
    using that flush_account_upsert [of as d c E] by simp
  show ?thesis
    by (simp add: ingest_event_between_def ingest_event_snapshot_def flush_customer_upsert flush_between_quiet Let_def acct moved
        split: option.splits sum.splits prod.splits)
qed

section \<open>With respectful interference\<close>

lemma flush_customer_cases:
  assumes "flush_customer E cs selected d = (res, d1)"
  obtains (error) e where "res = Inl e" and "d1 = d"
  | (inserted) c where "res = Inr c" and "d1 = add_customer c d" and "cust_id c = next_uuid d"
      and "cust_external_id c \<notin> cust_external_id ` set (customers d)"
  | (updated) c0 where "selected = Some c0" and "res = Inr (apply_customer_snapshot cs c0)"
      and "d1 = d\<lparr>customers := update_where (\<lambda>r. cust_id r = cust_id c0)
             (apply_customer_snapshot cs) (customers d)\<rparr>"
  using assms
  by (auto simp: flush_customer_def uuid4_def Let_def add_customer_def split: option.splits if_splits
      intro: error inserted updated)

lemma flush_account_cases:
  assumes "flush_account E as c selected d = (res, d1)"
  obtains (error) e where "res = Inl e" and "d1 = d"
  | (inserted) a where "res = Inr a" and "d1 = add_account a d" and "acct_id a = next_uuid d"
      and "acct_customer_id a = cust_id c" and "acct_external_id a \<notin> acct_external_id ` set (accounts d)"
  | (updated) a0 where "selected = Some a0" and "res = Inr (apply_account_snapshot as a0)"
      and "d1 = d\<lparr>accounts := update_where (\<lambda>r. acct_id r = acct_id a0)
             (apply_account_snapshot as) (accounts d)\<rparr>"
  using assms
  by (auto simp: flush_account_def uuid4_def Let_def add_account_def split: option.splits if_splits
      intro: error inserted updated)

lemma opt_out_kept_customers:
  "opt_out_kept d d' \<Longrightarrow> cust_id ` set (customers d) \<subseteq> cust_id ` set (customers d')"
  unfolding opt_out_kept_def customer_step_def by (force intro: rev_image_eqI)

lemma flush_customer_id:
  assumes "flush_customer E cs selected d = (Inr c, d1)"
    and "\<And>c0. selected = Some c0 \<Longrightarrow> cust_id c0 \<in> cust_id ` set (customers d)"
  shows "cust_id c \<in> cust_id ` set (customers d1)"
  using assms(1)
proof (cases rule: flush_customer_cases)
  case (updated c0)
  then have "map cust_id (customers d1) = map cust_id (customers d)" by (simp add: map_update_where)
  with updated assms(2) show ?thesis by (auto dest: arg_cong [of _ _ set])
qed (auto simp: add_customer_def)

context api_frame
begin

lemma frame_customer_update:
  "keeps R d (d\<lparr>customers := update_where (\<lambda>r. cust_id r = i) (apply_customer_snapshot cs) (customers d)\<rparr>)"
proof (cases "wf_db d \<and> i \<in> cust_id ` set (customers d)")
  case True
  then obtain r where r: "r \<in> set (customers d)" "i = cust_id r" by blast
  then have "d\<lparr>customers := update_where (\<lambda>r. cust_id r = i) (apply_customer_snapshot cs) (customers d)\<rparr>
      = put_customer (apply_customer_snapshot cs r) d"
    using update_where_put_row [OF wf_distinct(1) r(1)] True by (simp add: put_customer_def)
  with r(1) show ?thesis
    by (auto intro!: keeps_customer_change [of d r] simp: customer_step_def)
next
  case False
  have "update_where (\<lambda>r. cust_id r = i) f (customers d) = customers d"
    if "i \<notin> cust_id ` set (customers d)" for f
    using that by (intro update_where_none) auto
  with False show ?thesis by (auto simp: keeps_def refl)
qed

lemma frame_account_update:
  "keeps R d (d\<lparr>accounts := update_where (\<lambda>r. acct_id r = i) (apply_account_snapshot as) (accounts d)\<rparr>)"
proof (cases "wf_db d \<and> i \<in> acct_id ` set (accounts d)")
  case True
  then obtain r where r: "r \<in> set (accounts d)" "i = acct_id r" by blast
  then have "d\<lparr>accounts := update_where (\<lambda>r. acct_id r = i) (apply_account_snapshot as) (accounts d)\<rparr>
      = put_account (apply_account_snapshot as r) d"
    using update_where_put_row [OF wf_distinct(2) r(1)] True by (simp add: put_account_def)
  with r(1) show ?thesis
    by (auto intro!: keeps_account_change [of d r] simp: account_step_def)
next
  case False
  have "update_where (\<lambda>r. acct_id r = i) f (accounts d) = accounts d"
    if "i \<notin> acct_id ` set (accounts d)" for f
    using that by (intro update_where_none) auto
  with False show ?thesis by (auto simp: keeps_def refl)
qed

lemma frame_flush_customer:
  assumes "flush_customer E cs selected d = (res, d1)"
  shows "keeps R d d1"
  using assms
proof (cases rule: flush_customer_cases)
  case (inserted c)
  then show ?thesis by (metis keepsI new_customer wf_add_customer)
qed (simp_all add: frame_customer_update)

lemma frame_flush_account:
  assumes "flush_account E as c selected d = (res, d1)" and "cust_id c \<in> cust_id ` set (customers d)"
  shows "keeps R d d1"
  using assms(1)
proof (cases rule: flush_account_cases)
  case (inserted a)
  then show ?thesis using assms(2) by (metis keepsI new_account wf_add_account)
qed (simp_all add: frame_account_update)

text \<open>What the others commit in a window reaches both the store and what this session sees.\<close>

lemma frame_elsewhere:
  assumes "\<And>x. keeps R x (others x)" and "keeps R d (store s)" and "keeps R d (pending s)"
  shows "keeps R d (store (commit_elsewhere others s))" "keeps R d (pending (commit_elsewhere others s))"
  using assms by (auto simp: commit_elsewhere_def intro: keeps_trans)

lemma frame_complete_ingestion_between:
  assumes "fair_scan E" and "ev_id e \<in> ev_id ` set (inbound_events (pending s))"
    and "\<And>x. keeps R x (others x)" and "\<And>x. keeps basis_kept x (others x)"
    and "complete_ingestion_between E others e at corr s = (res, s')"
  shows "keeps R (pending s) (pending s')" "store s' = others (store s) \<or> store s' = pending s'"
proof -
  let ?d = "audit_accepted_event E e corr (pending s)"
  obtain r d where plan: "plan_outreach_between E others (ev_id e) corr (Some at) 3 ?d = (r, d)" by fastforce
  have "keeps R (pending s) ?d" by (rule frame_audit_accepted_event [OF assms(2)])
  moreover have "keeps R ?d d"
    using frame_plan_outreach_between [OF assms(1,3,4), of ?d "ev_id e" corr "Some at" 3] plan by simp
  ultimately have k: "keeps R (pending s) d" by (rule keeps_trans)
  have k2: "keeps R (pending s) (mark_processed (ev_id e) d)"
    using k frame_mark_processed by (rule keeps_trans)
  have s': "s' = (case r of Inl err \<Rightarrow> s\<lparr>store := others (store s), pending := d\<rparr>
      | Inr _ \<Rightarrow> commit (s\<lparr>pending := mark_processed (ev_id e) d\<rparr>))"
    using assms(5) unfolding complete_ingestion_between_def plan by (cases r) simp_all
  show "keeps R (pending s) (pending s')" using k k2 by (simp add: s' split: sum.split)
  show "store s' = others (store s) \<or> store s' = pending s'" by (simp add: s' split: sum.split)
qed

lemma frame_flush_new_event_between:
  assumes "fair_scan E" and "ev_id e = next_uuid d"
    and "\<And>x. keeps R x (others x)" and "\<And>x. keeps basis_kept x (others x)"
    and "flush_new_event_between E others e at corr s = (res, s')"
    and "pending s = d\<lparr>next_uuid := Suc (next_uuid d)\<rparr>"
    and "keeps R d0 d" and "keeps R d0 (store s)"
  shows "keeps R d0 (store s')"
proof (cases "insert_event E e (pending s)")
  case (Inl err)
  then have "store s' = store s"
    using assms(5) by (auto simp: flush_new_event_between_def Let_def split: if_splits option.splits)
  with assms(8) show ?thesis by simp
next
  case (Inr d1)
  note ins = insert_event_Inr [OF Inr [unfolded assms(6)]]
  let ?s = "s\<lparr>pending := d1\<rparr>"
  have "keeps R d d1"
    unfolding ins(1) using ins(2,3) assms(2) by (intro keepsI wf_add_event new_event) simp_all
  with assms(7) have k: "keeps R d0 d1" by (rule keeps_trans)
  have ev: "ev_id e \<in> ev_id ` set (inbound_events (pending ?s))"
    by (simp add: ins(1) add_event_def)
  have run: "complete_ingestion_between E others e at corr ?s = (res, s')"
    using assms(5) Inr by (simp add: flush_new_event_between_def)
  note done_run = frame_complete_ingestion_between [OF assms(1) ev assms(3,4) run]
  have "keeps R d0 (pending s')" using k done_run(1) by simp (rule keeps_trans)
  moreover have "keeps R d0 (others (store s))" using assms(8,3) by (rule keeps_trans)
  ultimately show ?thesis using done_run(2) by auto
qed

theorem frame_ingest_between:
  assumes "fair_scan E" and "\<And>x. keeps R x (others1 x)" and "\<And>x. keeps R x (others2 x)"
    and "\<And>x. keeps R x (others3 x)" and "\<And>x. keeps R x (others4 x)"
    and "\<And>x. keeps opt_out_kept x (others1 x)" and "\<And>x. keeps opt_out_kept x (others2 x)"
    and "\<And>x. keeps basis_kept x (others4 x)" and "store s = pending s"
    and "ingest_event_between E others1 others2 others3 others4 src ext ty cs as at md corr s = (res, s')"
  shows "keeps R (store s) (store s')"
proof (cases "find_existing_event (pending s) src ext = None \<and> wf_db (pending s)")
  case False
  then show ?thesis using assms(9,10) by (auto simp: ingest_event_between_def keeps_def refl)
next
  case fresh: True
  let ?c = "find (\<lambda>c. cust_external_id c = cs_external_id cs) (customers (pending s))"
  define s1 where "s1 = commit_elsewhere others1 s"
  have s1: "keeps R (store s) (store s1)" "keeps R (store s) (pending s1)"
    unfolding s1_def using frame_elsewhere [OF assms(2)] assms(9) by simp_all
  have sees: "cust_id c0 \<in> cust_id ` set (customers (pending s1))" if "?c = Some c0" for c0
    using that find_Some_in [OF that] assms(6) fresh opt_out_kept_customers
    by (fastforce simp: s1_def commit_elsewhere_def keeps_def)
  obtain rc d where c: "flush_customer E cs ?c (pending s1) = (rc, d)" by fastforce
  have d: "keeps R (store s) d" using s1(2) frame_flush_customer [OF c] by (rule keeps_trans)
  have wf_d: "wf_db d" using d fresh assms(9) by (simp add: keeps_def)
  let ?a = "find (\<lambda>a. acct_external_id a = as_external_id as) (accounts d)"
  define s2 where "s2 = commit_elsewhere others2 (s1\<lparr>pending := d\<rparr>)"
  have s2: "keeps R (store s) (store s2)" "keeps R (store s) (pending s2)"
    unfolding s2_def using frame_elsewhere [OF assms(3), of "store s" "s1\<lparr>pending := d\<rparr>"] s1(1) d by simp_all
  note run = assms(10) [unfolded ingest_event_between_def s1_def [symmetric] Let_def]
  show ?thesis
  proof (cases "isl rc \<or> foreign_account ?a (projr rc)")
    case True
    then show ?thesis using run c s1(1) fresh by (cases rc) (auto split: if_splits)
  next
    case False
    then obtain customer where rc: "rc = Inr customer" and own: "\<not> foreign_account ?a customer"
      by (cases rc) auto
    have "cust_id customer \<in> cust_id ` set (customers d)"
      using flush_customer_id [OF c [unfolded rc] sees] .
    then have cust: "cust_id customer \<in> cust_id ` set (customers (pending s2))"
      using assms(7) wf_d opt_out_kept_customers by (fastforce simp: s2_def commit_elsewhere_def keeps_def)
    obtain ra d1 where a: "flush_account E as customer ?a (pending s2) = (ra, d1)" by fastforce
    have d1: "keeps R (store s) d1" using s2(2) frame_flush_account [OF a cust] by (rule keeps_trans)
    show ?thesis
    proof (cases ra)
      case (Inl err)
      then show ?thesis using run c rc own a s2(1) fresh by (auto simp: s2_def [symmetric])
    next
      case (Inr account)
      define s3 where "s3 = commit_elsewhere others3 (s2\<lparr>pending := d1\<rparr>)"
      have s3: "keeps R (store s) (store s3)" "keeps R (store s) (pending s3)"
        unfolding s3_def using frame_elsewhere [OF assms(4), of "store s" "s2\<lparr>pending := d1\<rparr>"] s2(1) d1 by simp_all
      let ?e = "new_event E (next_uuid (pending s3)) src ext ty cs as at md customer account"
      let ?s = "s3\<lparr>pending := (pending s3)\<lparr>next_uuid := Suc (next_uuid (pending s3))\<rparr>\<rparr>"
      have "flush_new_event_between E others4 ?e at corr ?s = (res, s')"
        using run c rc own a Inr fresh by (simp add: s2_def [symmetric] s3_def [symmetric] uuid4_def)
      then show ?thesis
        using frame_flush_new_event_between [OF assms(1) _ assms(5,8), of ?e "pending s3" at corr ?s res s' "store s"] s3
        by (simp add: new_event_def)
    qed
  qed
qed

end

end
