(* ===== verification/Correlation.thy ===== *)
theory Correlation
  imports Prelude
begin

text \<open>
  \<open>src/orchestrator/api/correlation.py\<close>: the correlation identifier of a request, read
  from its header or drawn fresh, and echoed in the response.  The library part is
  \<open>UUID(value)\<close>: it removes the prefixes and dashes, strips braces, and reads 32
  characters with \<open>int(_, 16)\<close>, which itself accepts surrounding spaces, a sign, the
  prefix \<open>0x\<close> and single underscores.  A header is a string of code points below 256.
\<close>

section \<open>Strings and numbers as the library reads them\<close>

text \<open>\<open>s.replace(old, '')\<close> for a non-empty \<open>old\<close>.\<close>

function remove_all :: "string \<Rightarrow> string \<Rightarrow> string" where
  "remove_all old [] = []"
| "remove_all old (c # cs) =
     (if old \<noteq> [] \<and> take (length old) (c # cs) = old then remove_all old (drop (length old) (c # cs))
      else c # remove_all old cs)"
  by pat_completeness auto
termination
proof (relation "measure (\<lambda>(old, s). length s)")
  fix old c and cs :: string
  assume "old \<noteq> [] \<and> take (length old) (c # cs) = old"
  then show "((old, drop (length old) (c # cs)), (old, c # cs)) \<in> measure (\<lambda>(old, s). length s)"
    by (cases old) simp_all
qed simp_all

definition strip_braces :: "string \<Rightarrow> string" where
  "strip_braces s = (let brace = (\<lambda>c. c = CHR ''{'' \<or> c = CHR ''}'')
     in rev (dropWhile brace (rev (dropWhile brace s))))"

definition hex_value :: "char \<Rightarrow> nat option" where
  "hex_value c = map_of (zip ''0123456789abcdefABCDEF'' ([0..<16] @ [10..<16])) c"

definition is_int_space :: "char \<Rightarrow> bool" where
  "is_int_space c \<longleftrightarrow> c \<in> {CHR 0x09, CHR 0x0A, CHR 0x0B, CHR 0x0C, CHR 0x0D, CHR '' '', CHR 0x85, CHR 0xA0}"

text \<open>The digits from the first one on; no two underscores in a row and none at the end.\<close>

fun scan_digits :: "nat \<Rightarrow> bool \<Rightarrow> string \<Rightarrow> (nat \<times> string) option" where
  "scan_digits acc underscore [] = (if underscore then None else Some (acc, []))"
| "scan_digits acc underscore (c # cs) =
     (if c = CHR ''_'' then if underscore then None else scan_digits acc True cs
      else case hex_value c of
        Some v \<Rightarrow> scan_digits (16 * acc + v) False cs
      | None \<Rightarrow> if underscore then None else Some (acc, c # cs))"

definition skip_prefix :: "string \<Rightarrow> string" where
  "skip_prefix s =
     (if take 2 s = ''0x'' \<or> take 2 s = ''0X''
      then let r = drop 2 s in if take 1 r = ''_'' then drop 1 r else r
      else s)"

definition int_base16 :: "string \<Rightarrow> int option" where
  "int_base16 text =
     (let s = dropWhile is_int_space text;
          negative = (take 1 s = ''-'');
          s1 = skip_prefix (if take 1 s = ''+'' \<or> take 1 s = ''-'' then drop 1 s else s)
      in if s1 = [] \<or> hex_value (hd s1) = None then None
         else case scan_digits 0 False s1 of
           None \<Rightarrow> None
         | Some (n, rest) \<Rightarrow>
             if dropWhile is_int_space rest \<noteq> [] then None
             else Some (if negative then - int n else int n))"

definition UUID :: "string \<Rightarrow> py_error + uuid" where
  "UUID value =
     (let hex = remove_all ''-'' (strip_braces (remove_all ''uuid:'' (remove_all ''urn:'' value))) in
      if length hex \<noteq> 32 then Inl (ValueError ''badly formed hexadecimal UUID string'')
      else case int_base16 hex of
        None \<Rightarrow> Inl (ValueError ''invalid literal for int() with base 16'')
      | Some n \<Rightarrow> if 0 \<le> n \<and> n < 2 ^ 128 then Inr (nat n)
          else Inl (ValueError ''int is out of range (need a 128-bit value)''))"

section \<open>The middleware\<close>

text \<open>\<open>fresh\<close> is what \<open>uuid4()\<close> draws for this request.\<close>

definition correlation_id_from_header :: "uuid \<Rightarrow> string option \<Rightarrow> uuid" where
  "correlation_id_from_header fresh value =
     (case value of
        None \<Rightarrow> fresh
      | Some s \<Rightarrow> (case UUID s of Inr u \<Rightarrow> u | Inl _ \<Rightarrow> fresh))"

text \<open>The response with its header, for a handler that reads the identifier of the request.\<close>

definition correlation_id_middleware :: "uuid \<Rightarrow> string option \<Rightarrow> (uuid \<Rightarrow> 'r) \<Rightarrow> string \<times> 'r" where
  "correlation_id_middleware fresh header call_next =
     (let correlation_id = correlation_id_from_header fresh header
      in (uuid_str correlation_id, call_next correlation_id))"

section \<open>Reading what was written\<close>

lemma remove_all_absent: "old \<noteq> [] \<Longrightarrow> hd old \<notin> set s \<Longrightarrow> remove_all old s = s"
proof (induction s)
  case Nil
  show ?case by simp
next
  case (Cons c cs)
  then have "take (length old) (c # cs) \<noteq> old" by (cases old) auto
  with Cons show ?case by simp
qed

lemma remove_all_char: "remove_all [x] s = filter (\<lambda>c. c \<noteq> x) s"
  by (induction s) auto

lemma strip_braces_absent:
  assumes "\<forall>c\<in>set s. c \<noteq> CHR ''{'' \<and> c \<noteq> CHR ''}''"
  shows "strip_braces s = s"
proof -
  have drop: "dropWhile (\<lambda>c. c = CHR ''{'' \<or> c = CHR ''}'') xs = xs" if "set xs \<subseteq> set s" for xs
    using that assms by (cases xs) auto
  show ?thesis by (simp add: strip_braces_def Let_def drop)
qed

lemma hex_digit_cases: "d < 16 \<Longrightarrow> hex_digit d \<in> set ''0123456789abcdef''"
  unfolding hex_digit_def by (rule nth_mem) simp

lemma hex_value_hex_digit [simp]:
  assumes "d < 16"
  shows "hex_value (hex_digit d) = Some d"
proof -
  have "\<forall>d\<in>set [0..<16]. hex_value (hex_digit d) = Some d" by code_simp
  with assms show ?thesis by simp
qed

lemma hex_digit_plain:
  assumes "d < 16"
  shows "hex_digit d \<notin> {CHR ''_'', CHR ''+'', CHR ''-'', CHR ''x'', CHR ''X'', CHR ''u'', CHR ''{'', CHR ''}''}"
    and "\<not> is_int_space (hex_digit d)"
  using hex_digit_cases [OF assms] by (auto simp: is_int_space_def)

lemma scan_hex_digits:
  "\<forall>d\<in>set ds. d < 16 \<Longrightarrow>
     scan_digits acc False (map hex_digit ds) = Some (foldl (\<lambda>n d. 16 * n + d) acc ds, [])"
proof (induction ds arbitrary: acc)
  case Nil
  show ?case by simp
next
  case (Cons d ds)
  then show ?case using hex_digit_plain(1) [of d] by simp
qed

lemma foldl_base16: "foldl (\<lambda>n d. 16 * n + d) acc (rev ds) = base16_value ds + 16 ^ length ds * acc"
  by (induction ds arbitrary: acc) (simp_all add: algebra_simps)

lemma int_base16_hex_digits:
  assumes "\<forall>d\<in>set ds. d < 16" and "2 \<le> length ds"
  shows "int_base16 (map hex_digit ds) = Some (int (foldl (\<lambda>n d. 16 * n + d) 0 ds))"
proof -
  obtain a b r where ds: "ds = a # b # r" using assms(2) by (cases ds; cases "tl ds") auto
  have a: "a < 16" and b: "b < 16" using assms(1) ds by auto
  have "dropWhile is_int_space (map hex_digit ds) = map hex_digit ds"
    using hex_digit_plain(2) [OF a] by (simp add: ds)
  moreover have "skip_prefix (map hex_digit ds) = map hex_digit ds"
    using hex_digit_plain(1) [OF b] by (auto simp: ds skip_prefix_def numeral_2_eq_2)
  ultimately show ?thesis
    using scan_hex_digits [OF assms(1), of 0] hex_digit_plain(1) [OF a] a
    by (simp add: int_base16_def Let_def ds)
qed

lemma length_base16: "n < 16 ^ k \<Longrightarrow> 0 < k \<Longrightarrow> length (base16 n) \<le> k"
proof (induction n arbitrary: k rule: base16.induct)
  case (1 n)
  show ?case
  proof (cases "n < 16")
    case True
    with 1(3) show ?thesis by (simp add: base16.simps [of n])
  next
    case False
    then have "k \<noteq> 1" using 1(2) by auto
    with 1(3) obtain j where j: "k = Suc j" "0 < j" by (cases k) auto
    then have "n div 16 < 16 ^ j" using 1(2) by (simp add: less_mult_imp_div_less mult.commute)
    then show ?thesis using 1(1) [OF False _ j(2)] False j(1) by (simp add: base16.simps [of n])
  qed
qed

lemma length_uuid_hex: "i < 2 ^ 128 \<Longrightarrow> length (uuid_hex i) = 32"
  using length_base16 [of i 32] by (simp add: uuid_hex_def uuid_digits_def Let_def)

lemma uuid_str_set: "set (uuid_str i) \<subseteq> insert (CHR ''-'') (set (uuid_hex i))"
proof
  fix c assume "c \<in> set (uuid_str i)"
  then have "c = CHR ''-'' \<or> c \<in> set (filter (\<lambda>c. c \<noteq> CHR ''-'') (uuid_str i))" by auto
  then show "c \<in> insert (CHR ''-'') (set (uuid_hex i))" unfolding uuid_str_strip by simp
qed

lemma UUID_uuid_str:
  assumes "i < 2 ^ 128"
  shows "UUID (uuid_str i) = Inr i"
proof -
  have digits: "\<forall>d\<in>set (rev (uuid_digits i)). d < 16" using uuid_digits_bound by simp
  have plain: "c \<notin> {CHR ''u'', CHR ''{'', CHR ''}''}" if c: "c \<in> set (uuid_str i)" for c
  proof (cases "c = CHR ''-''")
    case False
    then have "c \<in> set (uuid_hex i)" using c uuid_str_set by blast
    then obtain d where "d < 16" "c = hex_digit d" using digits by (auto simp: uuid_hex_def)
    then show ?thesis using hex_digit_plain(1) [of d] by simp
  qed simp
  then have "CHR ''u'' \<notin> set (uuid_str i)"
    and braces: "\<forall>c\<in>set (uuid_str i). c \<noteq> CHR ''{'' \<and> c \<noteq> CHR ''}''" by blast+
  then have "remove_all ''urn:'' (uuid_str i) = uuid_str i" "remove_all ''uuid:'' (uuid_str i) = uuid_str i"
    by (simp_all only: remove_all_absent list.sel list.simps not_False_eq_True)
  moreover have "strip_braces (uuid_str i) = uuid_str i" using braces by (rule strip_braces_absent)
  moreover have "remove_all ''-'' (uuid_str i) = uuid_hex i"
    by (simp only: remove_all_char uuid_str_strip)
  moreover have "int_base16 (uuid_hex i) = Some (int i)"
    using int_base16_hex_digits [OF digits] length_uuid_hex [OF assms] foldl_base16 [of 0 "uuid_digits i"]
    by (simp add: uuid_hex_def uuid_digits_value)
  ultimately show ?thesis
    using assms length_uuid_hex [OF assms] by (simp add: UUID_def Let_def)
qed

lemma UUID_range: "UUID s = Inr i \<Longrightarrow> i < 2 ^ 128"
  by (auto simp: UUID_def Let_def nat_less_iff split: if_splits option.splits)

text \<open>C32. No header stops a request, and a response names the request it answers: whatever
  the header holds, the handler runs with a 128-bit identifier, the response carries
  that identifier, and a caller who sends it back gets it again.\<close>

theorem correlation_header_roundtrip:
  assumes "fresh < 2 ^ 128"
  shows "\<exists>i < 2 ^ 128. correlation_id_middleware fresh header call_next = (uuid_str i, call_next i)
    \<and> correlation_id_middleware fresh' (Some (uuid_str i)) call_next' = (uuid_str i, call_next' i)"
proof -
  let ?i = "correlation_id_from_header fresh header"
  have "?i < 2 ^ 128"
    using assms by (auto simp: correlation_id_from_header_def dest: UUID_range split: option.splits sum.splits)
  moreover from this have "correlation_id_from_header fresh' (Some (uuid_str ?i)) = ?i"
    by (simp add: correlation_id_from_header_def [of fresh' "Some (uuid_str ?i)"] UUID_uuid_str)
  ultimately show ?thesis
    by (intro exI [of _ ?i]) (simp add: correlation_id_middleware_def Let_def)
qed

text \<open>A header in the form with braces and upper-case digits, and one that is malformed.\<close>

theorem correlation_header_roundtrip_witness:
  "correlation_id_from_header 5 (Some ''{0000000000000000000000000000002D}'') = 45
    \<and> correlation_id_from_header 5 (Some ''not-a-uuid'') = 5
    \<and> correlation_id_middleware 9 (Some (uuid_str 5)) (\<lambda>i. i) = (uuid_str 5, 5)"
proof -
  have parsed: "correlation_id_from_header 5 (Some ''{0000000000000000000000000000002D}'') = 45"
    and fallback: "correlation_id_from_header 5 (Some ''not-a-uuid'') = 5"
    by code_simp+
  obtain i where "correlation_id_middleware 5 (Some ''not-a-uuid'') (\<lambda>i. i) = (uuid_str i, i)"
      "correlation_id_middleware 9 (Some (uuid_str i)) (\<lambda>i. i) = (uuid_str i, i)"
    using correlation_header_roundtrip [of 5 "Some ''not-a-uuid''" "\<lambda>i. i" 9 "\<lambda>i. i"] by auto
  moreover from this(1) fallback have "i = 5" by (simp add: correlation_id_middleware_def Let_def)
  ultimately show ?thesis using parsed fallback by simp
qed

end
