(* ===== verification/Events_Api.thy ===== *)
theory Events_Api
  imports Ingestion Correlation
begin

text \<open>
  \<open>src/orchestrator/api/events.py\<close>: the request with its field constraints and validators,
  and the route over ingestion.  A request is what the framework has parsed, so status,
  counts and timestamps have their types; what is modelled are the constraints the
  source declares on them.  A \<open>ValueError\<close> raised by a validator becomes a validation
  error, any other exception leaves it.
\<close>

section \<open>Requests\<close>

definition EVENT_TYPES :: "string list" where
  "EVENT_TYPES = [''account_delinquent'', ''payment_failed'', ''payment_received'',
     ''hardship_requested'', ''opt_out_received'', ''account_paused'']"

definition sized_field :: "nat \<Rightarrow> nat \<Rightarrow> string \<Rightarrow> bool" where
  "sized_field lo hi s \<longleftrightarrow> lo \<le> length s \<and> length s \<le> hi"

definition identity_field :: "string \<Rightarrow> bool" where
  "identity_field = sized_field 1 255"

definition optional_field :: "nat \<Rightarrow> string option \<Rightarrow> bool" where
  "optional_field hi v \<longleftrightarrow> (case v of None \<Rightarrow> True | Some s \<Rightarrow> length s \<le> hi)"

text \<open>How the framework reports what a validator raises.\<close>

definition validator_error :: "py_error \<Rightarrow> py_error" where
  "validator_error e = (case e of ValueError m \<Rightarrow> ValidationError m | _ \<Rightarrow> e)"

definition validate_timezone :: "env \<Rightarrow> string \<Rightarrow> py_error + string" where
  "validate_timezone E value =
     (case tzdb E value of
        Inr z \<Rightarrow> Inr value
      | Inl (ZoneInfoNotFoundError m) \<Rightarrow> Inl (ValueError ''Invalid customer timezone'')
      | Inl e \<Rightarrow> Inl e)"

definition customer_snapshot_request :: "env \<Rightarrow> customer_snapshot \<Rightarrow> py_error + customer_snapshot" where
  "customer_snapshot_request E c =
     (if \<not> identity_field (cs_external_id c) then Inl (ValidationError ''external_id'')
      else if \<not> sized_field 1 255 (cs_full_name c) then Inl (ValidationError ''full_name'')
      else if \<not> sized_field 1 64 (cs_timezone c) then Inl (ValidationError ''timezone'')
      else if \<not> optional_field 64 (cs_phone_number c) then Inl (ValidationError ''phone_number'')
      else if \<not> optional_field 255 (cs_email c) then Inl (ValidationError ''email'')
      else map_sum validator_error (\<lambda>tz. c\<lparr>cs_timezone := tz\<rparr>) (validate_timezone E (cs_timezone c)))"

definition account_snapshot_request :: "account_snapshot \<Rightarrow> py_error + account_snapshot" where
  "account_snapshot_request a =
     (if \<not> identity_field (as_external_id a) then Inl (ValidationError ''external_id'')
      else if as_balance_cents a < 0 then Inl (ValidationError ''balance_cents'')
      else if as_days_past_due a < 0 then Inl (ValidationError ''days_past_due'')
      else Inr a)"

fun validate_occurred_at :: "py_datetime \<Rightarrow> py_error + py_datetime" where
  "validate_occurred_at (Naive w) = Inl (ValueError ''occurred_at must be timezone-aware'')"
| "validate_occurred_at (Aware dt) = Inr (Aware dt)"

record event_request =
  rq_source :: string
  rq_external_id :: string
  rq_event_type :: string
  rq_customer :: customer_snapshot
  rq_account :: account_snapshot
  rq_occurred_at :: py_datetime
  rq_metadata :: payload

definition inbound_event_request :: "env \<Rightarrow> event_request \<Rightarrow> py_error + event_request" where
  "inbound_event_request E body =
     (if \<not> identity_field (rq_source body) then Inl (ValidationError ''source'')
      else if \<not> identity_field (rq_external_id body) then Inl (ValidationError ''external_id'')
      else if rq_event_type body \<notin> set EVENT_TYPES then Inl (ValidationError ''event_type'')
      else case customer_snapshot_request E (rq_customer body) of
        Inl e \<Rightarrow> Inl e
      | Inr customer \<Rightarrow>
          (case account_snapshot_request (rq_account body) of
             Inl e \<Rightarrow> Inl e
           | Inr account \<Rightarrow>
               map_sum validator_error
                 (\<lambda>at. body\<lparr>rq_customer := customer, rq_account := account, rq_occurred_at := at\<rparr>)
                 (validate_occurred_at (rq_occurred_at body))))"

section \<open>The route\<close>

record event_response =
  rs_event_id :: uuid
  rs_status :: string
  rs_created_tasks :: nat
  rs_blocked_tasks :: nat
  rs_deferred_tasks :: nat
  rs_cancelled_tasks :: nat
  rs_policy_decisions :: nat
  rs_correlation_id :: uuid

text \<open>
  The answer and the committed database; a session that ends with an exception loses
  what it had pending.
\<close>

definition ingest_event ::
  "env \<Rightarrow> (db \<Rightarrow> db) \<Rightarrow> uuid \<Rightarrow> event_request \<Rightarrow> db \<Rightarrow> (py_error + event_response) \<times> db" where
  "ingest_event E others correlation_id body d =
     (case ingest_event_snapshot E others (rq_source body) (rq_external_id body) (rq_event_type body)
             (rq_customer body) (rq_account body) (rq_occurred_at body) (rq_metadata body)
             correlation_id (open_session d) of
        (Inl (EventIngestionValidationError m), s) \<Rightarrow> (Inl (HTTPException 422 m), store (rollback s))
      | (Inl e, s) \<Rightarrow> (Inl e, store s)
      | (Inr r, s) \<Rightarrow>
          (Inr \<lparr>rs_event_id = ir_event_id r, rs_status = ''accepted'',
             rs_created_tasks = ir_created_tasks r, rs_blocked_tasks = ir_blocked_tasks r,
             rs_deferred_tasks = ir_deferred_tasks r, rs_cancelled_tasks = ir_cancelled_tasks r,
             rs_policy_decisions = ir_policy_decisions r, rs_correlation_id = correlation_id\<rparr>, store s))"

text \<open>The whole request: the body is validated before the handler runs.\<close>

definition post_event ::
  "env \<Rightarrow> (db \<Rightarrow> db) \<Rightarrow> uuid \<Rightarrow> event_request \<Rightarrow> db \<Rightarrow> (py_error + event_response) \<times> db" where
  "post_event E others correlation_id body d =
     (case inbound_event_request E body of
        Inl e \<Rightarrow> (Inl e, d)
      | Inr body' \<Rightarrow> ingest_event E others correlation_id body' d)"

end
