(* ===== verification/Ingestion_Replay.thy ===== *)
theory Ingestion_Replay
  imports Ingestion_Facts
begin

text \<open>
  The outcomes of an ingestion, and the properties that rest on them: atomicity, the
  replay guard, and that the rows of an event account for the answer it was given.
\<close>

section \<open>The outcomes of an ingestion\<close>

lemma session_eta: "s\<lparr>store := a, pending := b\<rparr> = \<lparr>store = a, pending = b\<rparr>" for s :: session
  by (cases s) simp

lemma ingest_split:
  obtains (existing) e where "find_existing_event (pending s) src ext = Some e"
      and "ingest_event_snapshot E others src ext ty cs as at md corr s =
        (Inr (result_from_existing_event (pending s) e), s)"
  | (rejected) err d where "find_existing_event (pending s) src ext = None"
      and "ingest_event_snapshot E others src ext ty cs as at md corr s = (Inl err, s\<lparr>pending := d\<rparr>)"
      and "upsert_customer E cs (pending s) = (Inl err, d)
        \<or> (\<exists>c d0. upsert_customer E cs (pending s) = (Inr c, d0) \<and> upsert_account E as c d0 = (Inl err, d))"
  | (flush) customer d0 account d1 where "find_existing_event (pending s) src ext = None"
      and "upsert_customer E cs (pending s) = (Inr customer, d0)"
      and "upsert_account E as customer d0 = (Inr account, d1)"
      and "ingest_event_snapshot E others src ext ty cs as at md corr s =
        flush_new_event E (new_event E (next_uuid (others d1)) src ext ty cs as at md customer account) at corr
          \<lparr>store = others (store s),
            pending = (others d1)\<lparr>next_uuid := Suc (next_uuid (others d1))\<rparr>\<rparr>"
proof (cases "find_existing_event (pending s) src ext")
  case (Some e)
  then show thesis by (intro existing) (simp_all add: ingest_event_snapshot_def)
next
  case None
  obtain rc d0 where c: "upsert_customer E cs (pending s) = (rc, d0)" by fastforce
  show thesis
  proof (cases rc)
    case (Inl err)
    with None c show thesis by (intro rejected [of err d0]) (simp_all add: ingest_event_snapshot_def)
  next
    case rc: (Inr customer)
    obtain ra d1 where a: "upsert_account E as customer d0 = (ra, d1)" by fastforce
    show thesis
    proof (cases ra)
      case (Inl err)
      with None c rc a show thesis by (intro rejected [of err d1]) (simp_all add: ingest_event_snapshot_def)
    next
      case (Inr account)
      with None c rc a show thesis
        by (intro flush) (simp_all add: ingest_event_snapshot_def uuid4_def commit_elsewhere_def session_eta)
    qed
  qed
qed

lemma flush_new_event_cases:
  assumes "flush_new_event E e at corr
      \<lparr>store = st, pending = d\<lparr>next_uuid := Suc (next_uuid d)\<rparr>\<rparr> = (res, s')"
  obtains (failed) err where "res = Inl err" and "store s' = st"
  | (race) e' where "res = Inr (result_from_existing_event st e')"
      and "find_existing_event st (ev_source e) (ev_external_id e) = Some e'"
      and "s' = \<lparr>store = st, pending = st\<rparr>"
      and "insert_event E e (d\<lparr>next_uuid := Suc (next_uuid d)\<rparr>) = Inl IntegrityError"
  | (stored) r d1 where "res = Inr (result_from_planner (ev_id e) r)"
      and "insert_event E e (d\<lparr>next_uuid := Suc (next_uuid d)\<rparr>) = Inr (add_event e d)"
      and "plan_outreach_for_event E (ev_id e) corr (Some at) 3
             (audit_accepted_event E e corr (add_event e d)) = (Inr r, d1)"
      and "s' = \<lparr>store = mark_processed (ev_id e) d1, pending = mark_processed (ev_id e) d1\<rparr>"
proof (cases "insert_event E e (d\<lparr>next_uuid := Suc (next_uuid d)\<rparr>)")
  case (Inl err)
  then show thesis
    using assms(1) failed race
    by (auto simp: flush_new_event_def Let_def rollback_def split: if_splits option.splits)
next
  case (Inr d2)
  have d2: "d2 = add_event e d" using insert_event_Inr(1) [OF Inr] .
  show thesis
    using assms(1) Inr [unfolded d2] failed stored
    by (auto simp: flush_new_event_def complete_ingestion_def commit_def split: sum.splits prod.splits)
qed

text \<open>What the upserts can raise.\<close>

lemma upsert_customer_error: "upsert_customer E cs d = (Inl err, d1) \<Longrightarrow> err = DataError \<and> d1 = d"
  by (auto simp: upsert_customer_def Let_def uuid4_def split: option.splits if_splits)

lemma upsert_account_error:
  "upsert_account E as c d = (Inl err, d1) \<Longrightarrow> d1 = d \<and>
     (err = DataError \<or> err = EventIngestionValidationError
        ''Account external_id already belongs to another customer'')"
  by (auto simp: upsert_account_def Let_def uuid4_def split: option.splits if_splits)

text \<open>Planning and marking keep the stored events but for the status.\<close>

lemma plan_outreach_events:
  assumes "plan_outreach_for_event E i corr now cap d = (Inr r, d')"
  shows "inbound_events d' = inbound_events d"
  using assms
proof (cases rule: plan_outreach_cases)
  case (state ev c a n d1)
  then have "inbound_events d1 = inbound_events d"
    by (auto simp: cancel_scheduled_tasks_def Let_def frame_simps)
  with state show ?thesis by (simp add: frame_simps)
qed (auto simp: loop_effect_def)

lemma find_existing_mark_processed:
  "find_existing_event (mark_processed i d) src ext =
     map_option (\<lambda>e. if ev_id e = i then e\<lparr>ev_processing_status := PROCESSED\<rparr> else e)
       (find_existing_event d src ext)"
  by (simp add: find_existing_event_def mark_processed_def find_update_where)

lemma find_existing_Some:
  assumes "find_existing_event d src ext = Some e"
  shows "e \<in> set (inbound_events d)" "ev_source e = src" "ev_external_id e = ext"
  using assms find_Some_in [of _ "inbound_events d" e] by (auto simp: find_existing_event_def)

lemma find_existing_add_event:
  "find_existing_event d src ext = None \<Longrightarrow> ev_source e = src \<Longrightarrow> ev_external_id e = ext \<Longrightarrow>
     find_existing_event (add_event e d) src ext = Some e"
  by (auto simp: find_existing_event_def add_event_def find_append_rows split: option.splits)

lemma ingest_marks:
  assumes "ingest_event_snapshot E others src ext ty cs as at md corr s = (Inr r, s')"
  shows "find_existing_event (pending s') src ext \<noteq> None"
proof (cases rule: ingest_split [of s src ext E others ty cs as at md corr])
  case (existing e)
  with assms show ?thesis by simp
next
  case (rejected err d)
  with assms show ?thesis by simp
next
  case (flush customer d0 account d1)
  let ?e = "new_event E (next_uuid (others d1)) src ext ty cs as at md customer account"
  have e: "ev_source ?e = src" "ev_external_id ?e = ext" by (simp_all add: new_event_def)
  from assms flush(4) have run: "flush_new_event E ?e at corr \<lparr>store = others (store s),
      pending = (others d1)\<lparr>next_uuid := Suc (next_uuid (others d1))\<rparr>\<rparr> = (Inr r, s')" by simp
  then show ?thesis
  proof (cases rule: flush_new_event_cases)
    case (race e')
    with e show ?thesis by simp
  next
    case (stored r d2)
    have "find_existing_event (add_event ?e (others d1)) src ext \<noteq> None"
      by (auto simp: find_existing_event_def find_None_ball add_event_def e)
    then have "find_existing_event d2 src ext \<noteq> None"
      using plan_outreach_events [OF stored(3)] by (simp add: find_existing_event_def frame_simps)
    with stored(4) show ?thesis by (simp add: find_existing_mark_processed)
  qed simp_all
qed

interpretation ingestion_replay: replay_guard
  "\<lambda>s. find_existing_event (pending s) src ext \<noteq> None"
  "ingest_event_snapshot E others src ext ty cs as at md corr"
  "\<lambda>s. Inr (result_from_existing_event (pending s) (the (find_existing_event (pending s) src ext)))"
  "\<lambda>r. \<exists>x. r = Inr x"
  for E others src ext ty cs as at md corr
proof
  show "find_existing_event (pending s) src ext \<noteq> None \<Longrightarrow>
      ingest_event_snapshot E others src ext ty cs as at md corr s =
        (Inr (result_from_existing_event (pending s) (the (find_existing_event (pending s) src ext))), s)" for s
    by (auto simp: ingest_event_snapshot_def)
  show "\<exists>x. fst (ingest_event_snapshot E others src ext ty cs as at md corr s) = Inr x \<Longrightarrow>
      find_existing_event (pending (snd (ingest_event_snapshot E others src ext ty cs as at md corr s))) src ext \<noteq> None" for s
    using ingest_marks [of E others src ext ty cs as at md corr s] by (metis prod.collapse)
qed

section \<open>The rows of an event account for its answer\<close>

text \<open>The rows that mention an event, as the replay counts them.\<close>

definition untouched :: "uuid \<Rightarrow> db \<Rightarrow> bool" where
  "untouched i d \<longleftrightarrow> (\<forall>p\<in>set (policy_decisions d). pd_inbound_event_id p \<noteq> Some i)
     \<and> (\<forall>r\<in>set (audit_events d). map_of (ae_payload r) ''inbound_event_id'' \<noteq> Some (JStr (uuid_str i)))"

lemma wf_untouched:
  assumes "wf_db d" and "i \<notin> ev_id ` set (inbound_events d)"
  shows "untouched i d"
  unfolding untouched_def
proof (intro conjI ballI)
  fix p assume "p \<in> set (policy_decisions d)"
  then have "decision_ok d p" using assms(1) by (simp add: wf_db_def)
  then show "pd_inbound_event_id p \<noteq> Some i" using assms(2) by (auto simp: decision_ok_def)
next
  fix r assume "r \<in> set (audit_events d)"
  then have "audit_ok d r" using assms(1) by (simp add: wf_db_def)
  then show "map_of (ae_payload r) ''inbound_event_id'' \<noteq> Some (JStr (uuid_str i))"
    using assms(2) by (auto simp: audit_ok_def)
qed

lemma wf_no_marker:
  assumes "wf_db d" and "ev_id e \<notin> ev_id ` set (inbound_events d)"
  shows "\<not> has_processed_marker d e"
proof
  assume "has_processed_marker d e"
  then obtain r where "r \<in> set (audit_events d)" "ae_entity_type r = ''inbound_event''"
      "ae_entity_id r = uuid_str (ev_id e)"
    by (auto simp: has_processed_marker_def dest: find_Some_in)
  moreover from this have "audit_ok d r" using assms(1) by (simp add: wf_db_def)
  ultimately show False using assms(2) by (auto simp: audit_ok_def)
qed

lemma accepted_no_marker:
  "has_processed_marker (audit_accepted_event E e corr (add_event e d)) e' = has_processed_marker d e'"
proof -
  have "map_of PROCESSED_MARKERS ty \<noteq> Some ''event_received''"
    "map_of PROCESSED_MARKERS ty \<noteq> Some ''event_accepted''" for ty
    by (simp_all add: PROCESSED_MARKERS_def)
  then show ?thesis
    by (auto simp: has_processed_marker_def audit_accepted_event_def Let_def append_audit_event_update
        add_event_def find_None_ball eq_commute [of "Some _"])
qed

lemma accepted_untouched:
  "untouched i (audit_accepted_event E e corr (add_event e d)) = untouched i d"
  by (simp add: untouched_def audit_accepted_event_def Let_def append_audit_event_update add_event_def)

lemma created_count:
  assumes "wf_db d" 
  shows "rowcount (\<lambda>(t, p). task_policy_decision_id t = Some (pd_id p) \<and> pd_inbound_event_id p = Some i)
      (List.product ts (policy_decisions d)) =
    rowcount (\<lambda>t. \<exists>p\<in>set (policy_decisions d). task_policy_decision_id t = Some (pd_id p)
      \<and> pd_inbound_event_id p = Some i) ts"
proof (induction ts)
  case Nil
  then show ?case by simp
next
  case (Cons t ts)
  let ?P = "\<lambda>p. task_policy_decision_id t = Some (pd_id p) \<and> pd_inbound_event_id p = Some i"
  have "rowcount ?P (policy_decisions d) = (if \<exists>p\<in>set (policy_decisions d). ?P p then 1 else 0)"
  proof (cases "\<exists>p\<in>set (policy_decisions d). ?P p")
    case True
    then obtain p where p: "p \<in> set (policy_decisions d)" "?P p" by blast
    have eq: "?P = (\<lambda>r. pd_id r = pd_id p \<and> pd_inbound_event_id r = Some i)" using p(2) by auto
    have "rowcount ?P (policy_decisions d) = 1"
      unfolding eq using p by (intro rowcount_by_key [OF wf_distinct(4) [OF assms]]) simp_all
    with True show ?thesis by simp
  next
    case False
    then have "rowcount ?P (policy_decisions d) = 0" by (simp add: rowcount_zero_iff)
    with False show ?thesis by simp
  qed
  moreover have "rowcount (\<lambda>(t, p). task_policy_decision_id t = Some (pd_id p) \<and> pd_inbound_event_id p = Some i)
      (map (Pair t) (policy_decisions d)) = rowcount ?P (policy_decisions d)"
    by (simp add: rowcount_def filter_map comp_def)
  ultimately show ?case using Cons.IH by simp
qed

lemma rowcount_all: "\<forall>x\<in>set xs. P x \<Longrightarrow> rowcount P xs = length xs"
  by (simp add: rowcount_def)

lemma rowcount_none: "\<forall>x\<in>set xs. \<not> P x \<Longrightarrow> rowcount P xs = 0"
  by (simp add: rowcount_zero_iff)

lemma rowcount_cong: "(\<And>x. x \<in> set xs \<Longrightarrow> P x = Q x) \<Longrightarrow> rowcount P xs = rowcount Q xs"
  by (metis (mono_tags, lifting) filter_cong rowcount_def)

lemma summary_of_loop:
  assumes wf: "wf_db d" "wf_db d'" and eff: "loop_effect E ev c a corr cap ps pg d pg' d' ds ts rows"
    and none: "untouched (ev_id ev) d" and id: "ev_id e = ev_id ev"
  shows "result_from_existing_event d' e = result_from_planner (ev_id ev) (policy_event_result ev ds ts)"
proof -
  let ?i = "Some (ev_id ev)"
  have decisions: "policy_decisions d' = policy_decisions d @ ds" and tasks: "outreach_tasks d' = outreach_tasks d @ ts"
    and audit: "audit_events d' = audit_events d @ rows"
    and quiet: "\<forall>r\<in>set rows. ae_event_type r \<noteq> ''outreach_cancelled''"
    and planned: "\<forall>t\<in>set ts. planned_task E ev c a corr ds t"
    using eff by (simp_all add: loop_effect_def)
  have new: "\<forall>p\<in>set ds. pd_inbound_event_id p = ?i"
    using eff by (auto simp: loop_effect_def planned_decision_def list_all2_conv_all_nth in_set_conv_nth)
  have old: "\<forall>p\<in>set (policy_decisions d). pd_inbound_event_id p \<noteq> ?i"
    using none by (simp add: untouched_def)
  let ?made = "\<lambda>t. \<exists>p\<in>set (policy_decisions d'). task_policy_decision_id t = Some (pd_id p)
      \<and> pd_inbound_event_id p = ?i"
  have "\<not> ?made t" if t: "t \<in> set (outreach_tasks d)" for t
  proof
    assume "?made t"
    then obtain p where p: "p \<in> set (policy_decisions d')" "task_policy_decision_id t = Some (pd_id p)"
      "pd_inbound_event_id p = ?i" by blast
    obtain q where q: "q \<in> set (policy_decisions d)" "task_policy_decision_id t = Some (pd_id q)"
      using wf(1) t by (auto simp: wf_db_def task_ok_def task_basis_def)
    have "p = q"
      using key_row_unique [OF wf_distinct(4) [OF wf(2)] p(1), of q] p q by (simp add: decisions)
    with p(3) q(1) old show False by blast
  qed
  moreover have "?made t" if "t \<in> set ts" for t
    using planned that new by (fastforce simp: planned_task_def decisions)
  ultimately have "rowcount ?made (outreach_tasks d') = length ts"
    by (simp add: tasks rowcount_all rowcount_none)
  then have created: "ir_created_tasks (result_from_existing_event d' e) = length ts"
    by (simp add: result_from_existing_event_def id created_count [OF wf(2)])
  have cancelled: "ir_cancelled_tasks (result_from_existing_event d' e) = 0"
    using none quiet by (simp add: result_from_existing_event_def id audit untouched_def rowcount_none)
  have decided: "rowcount (\<lambda>p. pd_inbound_event_id p = ?i \<and> Q p) (policy_decisions d') = rowcount Q ds" for Q
    using old new by (simp add: decisions rowcount_none) (rule rowcount_cong, simp)
  have "rowcount (\<lambda>p. pd_inbound_event_id p = ?i) (policy_decisions d') = length ds"
    using decided [of "\<lambda>_. True"] by (simp add: rowcount_all)
  then show ?thesis
    using created cancelled decided
    by (simp add: result_from_existing_event_def result_from_planner_def policy_event_result_def id)
qed

lemma summary_of_cancellation:
  assumes none: "untouched (ev_id ev) d" and "fair_scan E" and wf: "wf_db d"
    and type: "ev_event_type ev \<in> state_event_types"
    and run: "cancel_scheduled_tasks E ev c a corr (event_write E ev c a corr d) = (n, d1)"
    and id: "ev_id e = ev_id ev"
  shows "result_from_existing_event (append_processed_marker E ev corr d1) e =
    result_from_planner (ev_id ev) (cancelled_result ev n)"
proof -
  let ?d = "append_processed_marker E ev corr d1"
  have ids: "distinct (map task_id (outreach_tasks (event_write E ev c a corr d)))"
    using wf_distinct(5) [OF wf] by (simp add: frame_simps)
  note eff = cancel_scheduled_tasks_effect [OF run assms(2) ids]
  obtain rows where rows: "audit_events d1 = audit_events (event_write E ev c a corr d) @ rows"
      "length rows = n" "\<forall>r\<in>set rows. cancellation_row ev r" using eff(3) by blast
  obtain pre where pre: "audit_events (event_write E ev c a corr d) = audit_events d @ pre"
      "\<forall>r\<in>set pre. ae_event_type r \<noteq> ''outreach_cancelled''" using event_write_audit by blast
  obtain m where m: "audit_events ?d = audit_events d1 @ [m]" "ae_event_type m \<noteq> ''outreach_cancelled''"
    using type by (rule marker_is_no_cancellation)
  have decisions: "policy_decisions ?d = policy_decisions d" by (simp add: frame_simps eff(7))
  have old: "\<forall>p\<in>set (policy_decisions d). pd_inbound_event_id p \<noteq> Some (ev_id ev)"
    using none by (simp add: untouched_def)
  have "ir_cancelled_tasks (result_from_existing_event ?d e) = n"
    using none rows pre(2) m(2)
    by (simp add: result_from_existing_event_def id m(1) rows(1) pre(1) untouched_def rowcount_none
        rowcount_all cancellation_row_def)
  moreover have "ir_created_tasks (result_from_existing_event ?d e) = 0"
    using old by (simp add: result_from_existing_event_def id decisions rowcount_none)
  moreover have "rowcount (\<lambda>p. pd_inbound_event_id p = Some (ev_id ev) \<and> Q p) (policy_decisions d) = 0" for Q
    using old by (simp add: rowcount_none)
  ultimately show ?thesis
    using old by (simp add: result_from_existing_event_def result_from_planner_def cancelled_result_def
        no_effects_def id decisions rowcount_none)
qed

text \<open>
  The invariant along an ingestion: the interpretations of the write interface carry
  it through each part.
\<close>

lemma wf_ingest_parts:
  assumes "wf_db d" and "upsert_customer E cs d = (Inr c, d0)" and "upsert_account E as c d0 = (ra, d1)"
  shows "wf_db d0" "wf_db d1"
proof -
  show d0: "wf_db d0" using audit_log.frame_upsert_customer [OF assms(2)] assms(1) by (simp add: keeps_def)
  show "wf_db d1"
    using audit_log.frame_upsert_account [OF assms(3) upsert_customer_id [OF assms(2)]] d0
    by (simp add: keeps_def)
qed

lemma wf_new_event:
  assumes "wf_db d" and "ev_id e = next_uuid d"
    and "insert_event E e (d\<lparr>next_uuid := Suc (next_uuid d)\<rparr>) = Inr (add_event e d)"
  shows "wf_db (audit_accepted_event E e corr (add_event e d))"
proof -
  note ins = insert_event_Inr [OF assms(3)]
  have "wf_db (add_event e d)" using assms(1,2) ins(2,3) by (rule wf_add_event)
  moreover have "ev_id e \<in> ev_id ` set (inbound_events (add_event e d))" by (simp add: add_event_def)
  ultimately show ?thesis
    using audit_log.frame_audit_accepted_event [of e "add_event e d" E corr] by (simp add: keeps_def)
qed

lemma next_uuid_unused: "wf_db d \<Longrightarrow> next_uuid d \<notin> ev_id ` set (inbound_events d)"
  using wf_ids_below(3) [of d] by (metis imageE less_irrefl)

text \<open>The planner's account of a new event agrees with the rows it leaves.\<close>

lemma new_event_summary:
  assumes "wf_db d" and "fair_scan E" and "ev_id e = next_uuid d"
    and ins: "insert_event E e (d\<lparr>next_uuid := Suc (next_uuid d)\<rparr>) = Inr (add_event e d)"
    and plan: "plan_outreach_for_event E (ev_id e) corr now cap
        (audit_accepted_event E e corr (add_event e d)) = (Inr r, d')"
    and id: "ev_id e' = ev_id e"
  shows "result_from_existing_event d' e' = result_from_planner (ev_id e) r"
proof -
  let ?d = "audit_accepted_event E e corr (add_event e d)"
  have new: "ev_id e \<notin> ev_id ` set (inbound_events d)"
    using next_uuid_unused [OF assms(1)] assms(3) by simp
  have wf: "wf_db ?d" using assms(1,3) ins by (rule wf_new_event)
  have wf': "wf_db d'"
    using audit_log.frame_plan_outreach [OF assms(2), of ?d "ev_id e" corr now cap] wf plan
    by (simp add: keeps_def)
  have none: "untouched (ev_id e) ?d"
    using wf_untouched [OF assms(1) new] by (simp add: accepted_untouched)
  have unmarked: "\<not> has_processed_marker ?d x" if "ev_id x = ev_id e" for x
    using wf_no_marker [OF assms(1), of x] new that by (simp add: accepted_no_marker)
  show ?thesis
    using plan
  proof (cases rule: plan_outreach_cases)
    case (replay ev c a)
    have same: "ev_id ev = ev_id e" using find_Some_in [OF replay(1)] by simp
    with none have "\<not> has_decision ?d ev" by (auto simp: untouched_def has_decision_def)
    with replay(5) unmarked [OF same] show ?thesis by blast
  next
    case (policy ev c a now' recent ps pg ds ts rows)
    have same: "ev_id ev = ev_id e" using find_Some_in [OF policy(1)] by simp
    show ?thesis
      using summary_of_loop [OF wf wf' policy(8), of e'] none id same by (simp add: policy(9))
  next
    case (state ev c a n d1)
    have same: "ev_id ev = ev_id e" using find_Some_in [OF state(1)] by simp
    show ?thesis
      using summary_of_cancellation [OF _ assms(2) wf state(3) state(5), of e'] none id same
      by (simp add: state(6,7))
  qed
qed

lemma summary_mark_processed:
  "ev_id e' = ev_id e \<Longrightarrow> result_from_existing_event (mark_processed i d) e' = result_from_existing_event d e"
  by (simp add: result_from_existing_event_def mark_processed_def)

section \<open>Properties of ingestion\<close>

lemma ingest_answer_stored:
  assumes "wf_db d" and "fair_scan E"
    and "ingest_event_snapshot E (\<lambda>x. x) src ext ty cs as at md corr (open_session d) = (Inr r, s)"
  shows "r = result_from_existing_event (pending s) (the (find_existing_event (pending s) src ext))"
proof -
  have seen: "find_existing_event (pending s) src ext \<noteq> None" by (rule ingest_marks [OF assms(3)])
  show ?thesis
  proof (cases rule: ingest_split [of "open_session d" src ext E "\<lambda>x. x" ty cs as at md corr])
    case (existing e)
    with assms(3) have "s = open_session d" "r = result_from_existing_event (pending s) e" by auto
    with existing(1) show ?thesis by simp
  next
    case (rejected err d')
    with assms(3) show ?thesis by simp
  next
    case (flush customer d0 account d1)
    let ?e = "new_event E (next_uuid d1) src ext ty cs as at md customer account"
    have e: "ev_source ?e = src" "ev_external_id ?e = ext" "ev_id ?e = next_uuid d1"
      by (simp_all add: new_event_def)
    from assms(3) flush(4) have "flush_new_event E ?e at corr
        \<lparr>store = d, pending = d1\<lparr>next_uuid := Suc (next_uuid d1)\<rparr>\<rparr> = (Inr r, s)" by simp
    then show ?thesis
    proof (cases rule: flush_new_event_cases)
      case (race e')
      with flush(1) e show ?thesis by simp
    next
      case (stored pr d2)
      have wf: "wf_db d1" using wf_ingest_parts [OF assms(1) _ flush(3)] flush(2) by simp
      obtain e1 where e1: "find_existing_event (pending s) src ext = Some e1" using seen by blast
      have "result_from_existing_event d2 ?e = result_from_planner (ev_id ?e) pr"
        using new_event_summary [OF wf assms(2) e(3) stored(2,3)] by simp
      moreover have "ev_id e1 = ev_id ?e"
      proof -
        obtain e2 where e2: "find_existing_event d2 src ext = Some e2" "ev_id e1 = ev_id e2"
          using e1 stored(4) by (auto simp: find_existing_mark_processed split: if_splits)
        have "find_existing_event d1 src ext = None"
          using flush(1) upsert_customer_tables(2) [OF flush(2)] upsert_account_tables(2) [OF flush(3)]
          by (simp add: find_existing_event_def)
        then have "find_existing_event (add_event ?e d1) src ext = Some ?e"
          using e by (intro find_existing_add_event)
        then have "find_existing_event d2 src ext = Some ?e"
          using plan_outreach_events [OF stored(3)] by (simp add: find_existing_event_def frame_simps)
        with e2 show ?thesis by simp
      qed
      ultimately show ?thesis using stored(1,4) e1 by (simp add: summary_mark_processed)
    qed simp
  qed
qed

lemma ingest_again:
  assumes "wf_db d" and "fair_scan E"
    and "ingest_event_snapshot E (\<lambda>x. x) src ext ty cs as at md corr (open_session d) = (Inr r, s)"
  shows "ingest_event_snapshot E' others src ext ty' cs' as' at' md' corr' s = (Inr r, s)"
  using ingestion_replay.guard [OF ingest_marks [OF assms(3)]] ingest_answer_stored [OF assms] by simp

text \<open>C7. A retry gets the first answer: after a successful ingestion, sending the same
  source and external id again, with any other event type, snapshots, time,
  metadata, correlation id and environment and any number of times, returns exactly
  the counts of the first answer and changes neither the store nor the session.\<close>

theorem ingest_replay_same_answer:
  assumes "wf_db d" and "fair_scan E"
    and "ingest_event_snapshot E (\<lambda>x. x) src ext ty cs as at md corr (open_session d) = (Inr r, s)"
  shows "ingest_event_snapshot E' others src ext ty' cs' as' at' md' corr' s = (Inr r, s)
    \<and> ((\<lambda>s. snd (ingest_event_snapshot E' others src ext ty' cs' as' at' md' corr' s)) ^^ n) s = s"
  by (simp add: ingest_again [OF assms] ingestion_replay.replays [OF ingest_again [OF assms]])

text \<open>Ingestion is all or nothing: when it raises, the store is what it was before or
  what another session committed meanwhile, never a part of this one; when it answers,
  nothing is left uncommitted.\<close>

lemma ingest_atomic:
  assumes "ingest_event_snapshot E others src ext ty cs as at md corr (open_session d) = (res, s)"
  shows "case res of Inl err \<Rightarrow> store s = d \<or> store s = others d
    | Inr r \<Rightarrow> pending s = store s"
proof (cases rule: ingest_split [of "open_session d" src ext E others ty cs as at md corr])
  case (flush customer d0 account d1)
  let ?e = "new_event E (next_uuid (others d1)) src ext ty cs as at md customer account"
  from assms flush(4) have "flush_new_event E ?e at corr
      \<lparr>store = others d, pending = (others d1)\<lparr>next_uuid := Suc (next_uuid (others d1))\<rparr>\<rparr> = (res, s)" by simp
  then show ?thesis by (cases rule: flush_new_event_cases) auto
qed (use assms in auto)

text \<open>C12. Two sessions that ingest the same event at once store it once: the one whose
  insert loses the race answers with the rows of the winner and leaves exactly the
  winner's commit.\<close>

theorem ingest_race_single_event:
  assumes "ingest_event_snapshot E others src ext ty cs as at md corr (open_session d) = (res, s)"
    and "find_existing_event d src ext = None"
    and "find_existing_event (others d) src ext = Some e"
    and "\<And>d'. inbound_events d' = inbound_events d \<Longrightarrow> find_existing_event (others d') src ext \<noteq> None"
  shows "(\<exists>err. res = Inl err \<and> err \<noteq> IntegrityError \<and> store s \<in> {d, others d})
    \<or> res = Inr (result_from_existing_event (others d) e) \<and> s = open_session (others d)"
proof (cases rule: ingest_split [of "open_session d" src ext E others ty cs as at md corr])
  case (existing e)
  with assms(2) show ?thesis by simp
next
  case (rejected err d')
  have "err \<noteq> IntegrityError"
    using rejected(3) by (auto dest: upsert_customer_error upsert_account_error)
  then show ?thesis using assms(1) rejected(2) by auto
next
  case (flush customer d0 account d1)
  let ?d = "others d1"
  let ?e = "new_event E (next_uuid ?d) src ext ty cs as at md customer account"
  have "inbound_events d1 = inbound_events d"
    using upsert_customer_tables(2) [OF flush(2)] upsert_account_tables(2) [OF flush(3)] by simp
  then have "find_existing_event ?d src ext \<noteq> None" by (rule assms(4))
  then have conflict: "insert_event E ?e (?d\<lparr>next_uuid := Suc (next_uuid ?d)\<rparr>) \<in> {Inl DataError, Inl IntegrityError}"
    by (auto simp: insert_event_def find_existing_event_def new_event_def)
  from assms(1) flush(4) have run: "flush_new_event E ?e at corr
      \<lparr>store = others d, pending = ?d\<lparr>next_uuid := Suc (next_uuid ?d)\<rparr>\<rparr> = (res, s)" by simp
  show ?thesis
    using run conflict assms(3)
    by (auto simp: flush_new_event_def Let_def rollback_def open_session_def new_event_def)
qed

end
