(* ===== verification/Ingestion_Properties.thy ===== *)
theory Ingestion_Properties
  imports Ingestion_Replay
begin

text \<open>
  Further promises of ingestion: what a new event leaves in the store, that the tasks
  it adds are compliant, that it never takes an account from its customer, and what
  the idempotency key separates and what it does not.
\<close>

section \<open>New tasks\<close>

lemma fresh_run:
  assumes "wf_db d" and "fair_scan E" and "find_existing_event d src ext = None"
    and "ingest_event_snapshot E (\<lambda>x. x) src ext ty cs as at md corr (open_session d) = (Inr r, s)"
  obtains customer d0 account d1 e pr d2 where
      "upsert_customer E cs d = (Inr customer, d0)" and "upsert_account E as customer d0 = (Inr account, d1)"
      and "wf_db d0" and "wf_db d1"
      and "e = new_event E (next_uuid d1) src ext ty cs as at md customer account"
      and "insert_event E e (d1\<lparr>next_uuid := Suc (next_uuid d1)\<rparr>) = Inr (add_event e d1)"
      and "plan_outreach_for_event E (ev_id e) corr (Some at) 3
             (audit_accepted_event E e corr (add_event e d1)) = (Inr pr, d2)"
      and "r = result_from_planner (ev_id e) pr" and "s = open_session (mark_processed (ev_id e) d2)"
proof (cases rule: ingest_split [of "open_session d" src ext E "\<lambda>x. x" ty cs as at md corr])
  case (existing e)
  with assms(3) show thesis by simp
next
  case (rejected err d')
  with assms(4) show thesis by simp
next
  case (flush customer d0 account d1)
  let ?e = "new_event E (next_uuid d1) src ext ty cs as at md customer account"
  note wf = wf_ingest_parts [OF assms(1) _ flush(3)]
  from assms(4) flush(4) have "flush_new_event E ?e at corr
      \<lparr>store = d, pending = d1\<lparr>next_uuid := Suc (next_uuid d1)\<rparr>\<rparr> = (Inr r, s)" by simp
  then show thesis
  proof (cases rule: flush_new_event_cases)
    case (race e')
    with assms(3) show thesis by (simp add: new_event_def)
  next
    case (stored pr d2)
    show thesis
      using that [of customer d0 account d1 ?e pr d2] stored flush(2,3) wf
      by (simp add: open_session_def)
  qed simp
qed

lemma opted_out_of_snapshot:
  assumes "upsert_customer E cs d = (Inr customer, d0)" and "c \<in> set (customers d)"
    and "cust_external_id c = cs_external_id cs" and "wf_db d"
  shows "cust_opted_out customer = cust_opted_out c" and "cust_id customer = cust_id c"
proof -
  have "find (\<lambda>r. cust_external_id r = cs_external_id cs) (customers d) = Some c"
    using find_by_key [OF wf_unique(1) [OF assms(4)] assms(2)] assms(3) by simp
  then show "cust_opted_out customer = cust_opted_out c" "cust_id customer = cust_id c"
    using assms(1) by (auto simp: upsert_customer_def Let_def split: if_splits)
qed

text \<open>C5. Compliance end to end: every task that ingesting an event adds to the store
  belongs to a stored customer who has not opted out and consents to its channel and
  to that customer's account, neither paused nor resolved; a call or message falls in
  the contact window of the customer's zone; and the task rests on a decision of that
  event that is not a block.\<close>

theorem ingested_tasks_compliant:
  assumes "wf_db d" and "fair_scan E"
    and "ingest_event_snapshot E (\<lambda>x. x) src ext ty cs as at md corr (open_session d) = (Inr r, s)"
    and "t \<in> set (outreach_tasks (store s))"
    and "task_id t \<notin> task_id ` set (outreach_tasks d)"
  shows "\<exists>c\<in>set (customers (store s)). \<exists>a\<in>set (accounts (store s)).
      cust_id c = task_customer_id t \<and> acct_id a = task_account_id t \<and> acct_customer_id a = cust_id c
      \<and> contact_permitted c a (task_channel t) \<and> compliant_time E c t
      \<and> task_status t = SCHEDULED
      \<and> (\<exists>pd\<in>set (policy_decisions (store s)). task_policy_decision_id t = Some (pd_id pd)
           \<and> pd_decision pd \<noteq> BLOCK \<and> pd_inbound_event_id pd = Some (ir_event_id r))"
proof (cases "find_existing_event d src ext")
  case (Some e)
  then have "s = open_session d" using assms(3) by (simp add: ingest_event_snapshot_def)
  with assms(4,5) show ?thesis by simp
next
  case None
  from fresh_run [OF assms(1,2) None assms(3)] obtain customer d0 account d1 e pr d2 where
      up: "upsert_customer E cs d = (Inr customer, d0)" "upsert_account E as customer d0 = (Inr account, d1)"
      and wf: "wf_db d1" and e: "e = new_event E (next_uuid d1) src ext ty cs as at md customer account"
      and ins: "insert_event E e (d1\<lparr>next_uuid := Suc (next_uuid d1)\<rparr>) = Inr (add_event e d1)"
      and plan: "plan_outreach_for_event E (ev_id e) corr (Some at) 3
             (audit_accepted_event E e corr (add_event e d1)) = (Inr pr, d2)"
      and r: "r = result_from_planner (ev_id e) pr" and s: "s = open_session (mark_processed (ev_id e) d2)"
    by metis
  let ?d = "audit_accepted_event E e corr (add_event e d1)"
  have wf_e: "wf_db ?d" using wf_new_event [OF wf _ ins] e by (simp add: new_event_def)
  have tasks: "outreach_tasks ?d = outreach_tasks d"
    using upsert_customer_tables(4) [OF up(1)] upsert_account_tables(4) [OF up(2)]
    by (simp add: frame_simps add_event_def)
  have t: "t \<in> set (outreach_tasks d2)" using assms(4) s by (simp add: mark_processed_def)
  have new: "task_id t \<notin> task_id ` set (outreach_tasks ?d)" using assms(5) tasks by simp
  obtain ev c a ds where o: "planned_task E ev c a corr ds t" "c \<in> set (customers ?d)"
      "a \<in> set (accounts ?d)" "acct_customer_id a = cust_id c"
      "customers d2 = customers ?d" "accounts d2 = accounts ?d"
      "set ds \<subseteq> set (policy_decisions d2)" "\<forall>pd\<in>set ds. pd_inbound_event_id pd = Some (ev_id e)"
    using plan t new assms(2) wf_distinct(5) [OF wf_e] by (rule new_task_origin)
  then obtain pd where "pd \<in> set (policy_decisions d2)" "task_policy_decision_id t = Some (pd_id pd)"
      "pd_decision pd \<noteq> BLOCK" "pd_inbound_event_id pd = Some (ev_id e)"
    unfolding planned_task_def by blast
  then have "\<exists>pd\<in>set (policy_decisions (store s)). task_policy_decision_id t = Some (pd_id pd)
      \<and> pd_decision pd \<noteq> BLOCK \<and> pd_inbound_event_id pd = Some (ir_event_id r)"
    by (auto simp: s r mark_processed_def result_from_planner_def)
  moreover have "c \<in> set (customers (store s))" "a \<in> set (accounts (store s))"
    using o by (simp_all add: s mark_processed_def)
  ultimately show ?thesis using o(1,4) unfolding planned_task_def
    by - (rule bexI [of _ c], rule bexI [of _ a], simp_all)
qed

text \<open>No ingestion rewrites history, whatever it answers: the invariant holds again, audit
  rows and decisions are only appended, no opt-out is taken back, no account leaves
  its customer and every task moves along its life cycle, provided other sessions
  that commit meanwhile do the same.\<close>

lemma ingest_keeps_history:
  assumes "wf_db d" and "fair_scan E" and "\<And>x. keeps history_kept x (others x)"
    and "ingest_event_snapshot E others src ext ty cs as at md corr (open_session d) = (res, s)"
  shows "wf_db (store s) \<and> audit_appended d (store s) \<and> decisions_appended d (store s)
    \<and> opt_out_kept d (store s) \<and> lineage_kept d (store s) \<and> tasks_evolved d (store s)"
  using history.frame_ingest [OF assms(2,3) _ assms(4)] assms(1)
  by (simp add: keeps_def history_kept_def)

lemma opted_out_no_new_task:
  assumes "wf_db d" and "fair_scan E" and "c \<in> set (customers d)" and "cust_opted_out c"
    and "cust_external_id c = cs_external_id cs"
    and "ingest_event_snapshot E (\<lambda>x. x) src ext ty cs as at md corr (open_session d) = (Inr r, s)"
  shows "task_id ` set (outreach_tasks (store s)) \<subseteq> task_id ` set (outreach_tasks d)"
proof (cases "find_existing_event d src ext")
  case (Some e)
  then have "s = open_session d" using assms(6) by (simp add: ingest_event_snapshot_def)
  then show ?thesis by simp
next
  case None
  from fresh_run [OF assms(1,2) None assms(6)] obtain customer d0 account d1 e pr d2 where
      up: "upsert_customer E cs d = (Inr customer, d0)" "upsert_account E as customer d0 = (Inr account, d1)"
      and wf: "wf_db d0" "wf_db d1"
      and e: "e = new_event E (next_uuid d1) src ext ty cs as at md customer account"
      and ins: "insert_event E e (d1\<lparr>next_uuid := Suc (next_uuid d1)\<rparr>) = Inr (add_event e d1)"
      and plan: "plan_outreach_for_event E (ev_id e) corr (Some at) 3
             (audit_accepted_event E e corr (add_event e d1)) = (Inr pr, d2)"
      and s: "s = open_session (mark_processed (ev_id e) d2)"
    by metis
  let ?d = "audit_accepted_event E e corr (add_event e d1)"
  have wf_e: "wf_db ?d" using wf_new_event [OF wf(2) _ ins] e by (simp add: new_event_def)
  have tables: "outreach_tasks ?d = outreach_tasks d" "customers ?d = customers d0"
      "inbound_events ?d = inbound_events d1 @ [e]"
    using upsert_customer_tables(4) [OF up(1)] upsert_account_tables(1,4) [OF up(2)]
    by (simp_all add: frame_simps add_event_def)
  have "opt_out_kept d d0"
    using opt_outs.frame_upsert_customer [OF up(1)] assms(1) by (simp add: keeps_def)
  then obtain c' where c': "c' \<in> set (customers d0)" "customer_step c c'"
    using assms(3) by (auto simp: opt_out_kept_def)
  have found: "find (\<lambda>ev. ev_id ev = ev_id e) (inbound_events ?d) = Some e"
    using find_by_key [OF wf_distinct(3) [OF wf_e], of e] tables(3) by simp
  have ext: "cust_external_id customer = cs_external_id cs"
    using up(1) by (auto elim!: upsert_customer_cases)
  show ?thesis
  proof
    fix i assume "i \<in> task_id ` set (outreach_tasks (store s))"
    then obtain t where t: "t \<in> set (outreach_tasks d2)" "i = task_id t" by (auto simp: s mark_processed_def)
    show "i \<in> task_id ` set (outreach_tasks d)"
    proof (rule ccontr)
      assume "i \<notin> task_id ` set (outreach_tasks d)"
      then have new: "task_id t \<notin> task_id ` set (outreach_tasks ?d)" by (simp add: t tables)
      obtain ev x a ds where o: "find (\<lambda>ev. ev_id ev = ev_id e) (inbound_events ?d) = Some ev"
          "planned_task E ev x a corr ds t" "x \<in> set (customers ?d)"
          "load_customer_and_account ?d ev = Inr (x, a)"
        using plan t(1) new assms(2) wf_distinct(5) [OF wf_e] by (rule new_task_origin)
      have "cust_external_id x = ev_customer_external_id ev"
        using o(4) by (auto simp: load_customer_and_account_def dest: find_Some_in
            split: option.splits if_splits)
      then have "cust_external_id x = cust_external_id c'"
        using o(1) found ext assms(5) c'(2) by (simp add: e new_event_def customer_step_def)
      then have "x = c'"
        using key_row_unique [OF wf_unique(1) [OF wf(1)] _ c'(1), of x] o(3) tables(2) by simp
      then have "cust_opted_out x" using c'(2) assms(4) by (simp add: customer_step_def)
      with o(2) show False by (simp add: planned_task_def contact_permitted_def)
    qed
  qed
qed

text \<open>C6. An opt-out outlives the snapshots: while a stored customer is opted out, no
  ingestion about that customer adds a task, whatever consent its snapshot claims.\<close>

theorem opted_out_customer_gets_no_task:
  assumes "wf_db d" and "fair_scan E" and "c \<in> set (customers d)" and "cust_opted_out c"
    and "cust_external_id c = cs_external_id cs"
    and "ingest_event_snapshot E (\<lambda>x. x) src ext ty cs as at md corr (open_session d) = (Inr r, s)"
  shows "task_id ` set (outreach_tasks (store s)) \<subseteq> task_id ` set (outreach_tasks d)"
  using assms by (rule opted_out_no_new_task)

section \<open>Rejections\<close>

text \<open>An account never moves: an event whose account is stored under another customer
  is rejected with a validation error and nothing of it is stored.\<close>

lemma ingest_rejects_moved_account:
  assumes "wf_db d" and "find_existing_event d src ext = None"
    and "a \<in> set (accounts d)" and "acct_external_id a = as_external_id as"
    and "c \<in> set (customers d)" and "cust_id c = acct_customer_id a"
    and "cust_external_id c \<noteq> cs_external_id cs" and "upsert_customer E cs d = (Inr customer, d0)"
  shows "\<exists>s. ingest_event_snapshot E others src ext ty cs as at md corr (open_session d) =
      (Inl (EventIngestionValidationError ''Account external_id already belongs to another customer''), s)
    \<and> store s = d"
proof -
  note up = assms(8)
  have "accounts d0 = accounts d" using upsert_customer_tables(1) [OF up] .
  then have found: "find (\<lambda>r. acct_external_id r = as_external_id as) (accounts d0) = Some a"
    using find_by_key [OF wf_unique(2) [OF assms(1)] assms(3)] assms(4) by simp
  have "cust_id customer \<noteq> cust_id c"
    using up
  proof (cases rule: upsert_customer_cases)
    case (inserted x)
    then show ?thesis using wf_ids_below(1) [OF assms(1,5)] by simp
  next
    case (updated c0)
    then show ?thesis
      using key_row_unique [OF wf_distinct(1) [OF assms(1)] updated(1) assms(5)] assms(7) by auto
  qed simp
  then have "upsert_account E as customer d0 = (Inl (EventIngestionValidationError
      ''Account external_id already belongs to another customer''), d0)"
    using found assms(6) by (simp add: upsert_account_def)
  with up assms(2) show ?thesis by (simp add: ingest_event_snapshot_def)
qed

section \<open>The idempotency key\<close>

text \<open>For sources without the separator character the key keeps apart what the business
  identity keeps apart, as long as the digest has no collision on the two inputs; and it
  fits its column whatever the length of the identity.\<close>

lemma idempotency_key_separates:
  assumes "CHR 0x1F \<notin> set src" and "CHR 0x1F \<notin> set src'"
    and "\<And>x y. sha256_hexdigest E x = sha256_hexdigest E y \<Longrightarrow>
      x \<in> {src @ [CHR 0x1F] @ ext, src' @ [CHR 0x1F] @ ext'} \<Longrightarrow>
      y \<in> {src @ [CHR 0x1F] @ ext, src' @ [CHR 0x1F] @ ext'} \<Longrightarrow> x = y"
    and "length (sha256_hexdigest E (src @ [CHR 0x1F] @ ext)) = 64"
  shows "(inbound_event_idempotency_key E src ext = inbound_event_idempotency_key E src' ext'
      \<longleftrightarrow> src = src' \<and> ext = ext') \<and> varchar 255 (inbound_event_idempotency_key E src ext)"
proof -
  have "takeWhile (\<lambda>c. c \<noteq> CHR 0x1F) (s @ [CHR 0x1F] @ e) = s" if "CHR 0x1F \<notin> set s" for s e
    using that by (induction s) auto
  then have "src @ [CHR 0x1F] @ ext = src' @ [CHR 0x1F] @ ext' \<Longrightarrow> src = src' \<and> ext = ext'"
    using assms(1,2) by (metis append_same_eq same_append_eq)
  then have "inbound_event_idempotency_key E src ext = inbound_event_idempotency_key E src' ext'
      \<longleftrightarrow> src = src' \<and> ext = ext'"
    using assms(3) by (auto simp: inbound_event_idempotency_key_def)
  then show ?thesis using assms(4) by (simp add: inbound_event_idempotency_key_def varchar_def)
qed

text \<open>Where the separator occurs in the identity the key is ambiguous: an event of another
  identity whose joined text is the same as that of a stored event, so that the keys are
  equal, is not ingested; the caller gets the database error and nothing is stored.\<close>

lemma ambiguous_identity_refused:
  assumes "find_existing_event d src ext = None" and "e \<in> set (inbound_events d)"
    and "ev_idempotency_key e = inbound_event_idempotency_key E (ev_source e) (ev_external_id e)"
    and "ev_source e @ [CHR 0x1F] @ ev_external_id e = src @ [CHR 0x1F] @ ext"
    and "upsert_customer E cs d = (Inr customer, d0)"
    and "upsert_account E as customer d0 = (Inr account, d1)"
    and "\<not> strict_columns E \<or> event_fits (new_event E (next_uuid d1) src ext ty cs as at md customer account)"
  shows "ingest_event_snapshot E (\<lambda>x. x) src ext ty cs as at md corr (open_session d) =
    (Inl IntegrityError, open_session d)"
proof -
  let ?e = "new_event E (next_uuid d1) src ext ty cs as at md customer account"
  have "inbound_events d1 = inbound_events d"
    using upsert_customer_tables(2) [OF assms(5)] upsert_account_tables(2) [OF assms(6)] by simp
  moreover have "ev_idempotency_key ?e = ev_idempotency_key e"
    using assms(3,4) by (simp add: new_event_def inbound_event_idempotency_key_def)
  ultimately have "insert_event E ?e (d1\<lparr>next_uuid := Suc (next_uuid d1)\<rparr>) = Inl IntegrityError"
    using assms(2,7) by (auto simp: insert_event_def find_None_ball)
  moreover have "ev_source ?e = src" "ev_external_id ?e = ext" by (simp_all add: new_event_def)
  ultimately show ?thesis
    using assms(1,5,6)
    by (simp add: ingest_event_snapshot_def uuid4_def commit_elsewhere_def flush_new_event_def Let_def
        rollback_def open_session_def)
qed

end
