(* ===== verification/Planner_Total.thy ===== *)
theory Planner_Total
  imports Planner_Frame
begin

text \<open>
  The planner does not fail on an event that is new, whose customer and account are
  stored and whose customer has a known zone: away from the ends of the calendar no
  operation on times overflows, and the keys of the tasks of a new event are free.
\<close>

section \<open>Times away from the ends of the calendar\<close>

text \<open>UTC offsets are less than a day, as \<open>datetime\<close> demands of every \<open>tzinfo\<close>.\<close>

definition zone_sane :: "zone \<Rightarrow> bool" where
  "zone_sane z \<longleftrightarrow> \<bar>first_offset z\<bar> < days 1 \<and> (\<forall>(t, off)\<in>set (transitions z). \<bar>off\<bar> < days 1)"

fun tz_sane :: "tzinfo \<Rightarrow> bool" where
  "tz_sane (FixedOffset off) \<longleftrightarrow> \<bar>off\<bar> < days 1"
| "tz_sane (ZoneInfo key z) \<longleftrightarrow> zone_sane z"

definition roomy :: "int \<Rightarrow> datetime \<Rightarrow> bool" where
  "roomy n dt \<longleftrightarrow> tz_sane (dt_tzinfo dt) \<and> days n \<le> dt_wall dt \<and> dt_wall dt < days (days_in_range - n)"

lemma wall_scan_sane:
  "\<bar>off\<bar> < days 1 \<Longrightarrow> \<forall>(t, o')\<in>set ts. \<bar>o'\<bar> < days 1 \<Longrightarrow> \<bar>wall_scan fd off ts w\<bar> < days 1"
  by (induction fd off ts w rule: wall_scan.induct) auto

lemma utc_scan_sane:
  "\<bar>off\<bar> < days 1 \<Longrightarrow> \<forall>(t, o')\<in>set ts. \<bar>o'\<bar> < days 1 \<Longrightarrow> \<bar>fst (utc_scan off fd ts u)\<bar> < days 1"
  by (induction off fd ts u rule: utc_scan.induct) auto

lemma utcoffset_sane: "tz_sane tz \<Longrightarrow> \<bar>utcoffset tz w fd\<bar> < days 1"
  using wall_scan_sane by (cases tz) (auto simp: zone_sane_def)

lemma utc_to_wall_sane: "tz_sane tz \<Longrightarrow> \<bar>fst (utc_to_wall tz u) - u\<bar> < days 1"
proof (cases tz)
  case (ZoneInfo key z)
  moreover assume "tz_sane tz"
  ultimately have "\<bar>fst (utc_scan (first_offset z) False (transitions z) u)\<bar> < days 1"
    by (intro utc_scan_sane) (simp_all add: zone_sane_def)
  then show ?thesis by (auto simp: ZoneInfo split: prod.splits)
qed simp

lemma roomy_dt_add:
  assumes "roomy n dt" and "\<bar>d\<bar> \<le> days k" and "k \<le> n" and "0 \<le> n - k"
  shows "\<exists>r. dt_add dt d = Inr r \<and> roomy (n - k) r"
  using assms by (auto simp: roomy_def dt_add_def wall_ok_def algebra_simps)

lemma roomy_astimezone:
  assumes "roomy n dt" and "tz_sane tz" and "2 \<le> n"
  shows "\<exists>r. astimezone dt tz = Inr r \<and> roomy (n - 2) r \<and> dt_tzinfo r = tz"
proof (cases "dt_tzinfo dt = tz")
  case True
  with assms show ?thesis by (auto simp: roomy_def algebra_simps)
next
  case False
  obtain w fd where w: "utc_to_wall tz (instant dt) = (w, fd)" by fastforce
  have "\<bar>dt_wall dt - instant dt\<bar> < days 1"
    using utcoffset_sane [of "dt_tzinfo dt" "dt_wall dt" "dt_fold dt"] assms(1)
    by (simp add: instant_def roomy_def)
  moreover have "\<bar>w - instant dt\<bar> < days 1"
    using utc_to_wall_sane [OF assms(2), of "instant dt"] w by simp
  moreover have "days n \<le> dt_wall dt" "dt_wall dt < days (days_in_range - n)"
    using assms(1) by (simp_all add: roomy_def)
  ultimately have "days (n - 2) \<le> w" "w < days (days_in_range - (n - 2))"
      "days (n - 2) \<le> instant dt" "instant dt < days (days_in_range - (n - 2))"
    by (simp_all add: left_diff_distrib)
  moreover from this have "wall_ok w" "wall_ok (instant dt)"
    using assms(3) by (simp_all add: wall_ok_def algebra_simps)
  ultimately show ?thesis
    using False w assms(2) by (simp add: astimezone_def roomy_def)
qed

lemma evaluate_policy_total:
  assumes "tzdb E (pi_customer_timezone pin) = Inr z" and "zone_sane z" and "roomy 4 (pi_scheduled_at pin)"
  shows "\<exists>r. evaluate_policy E pin = Inr r"
proof -
  let ?tz = "ZoneInfo (pi_customer_timezone pin) z"
  obtain local where local: "astimezone (pi_scheduled_at pin) ?tz = Inr local" "roomy 2 local"
    using roomy_astimezone [OF assms(3), of ?tz] assms(2) by auto
  obtain nd where "dt_add local (days 1) = Inr nd" using roomy_dt_add [OF local(2), of "days 1" 1] by auto
  then have "\<exists>q. quiet_hours_defer_until E pin = Inr q"
    using local(1) assms(1) by (simp add: quiet_hours_defer_until_def get_customer_timezone_def Let_def)
  then show ?thesis
    by (cases "hard_block pin") (auto simp: evaluate_policy_blocked evaluate_policy_unblocked Let_def)
qed

lemma proposals_total:
  assumes "tzdb E tzname = Inr z" and "zone_sane z" and "roomy 10 now" and "ty \<in> policy_event_types"
  shows "\<exists>ps. proposals_for_event E ty now tzname = Inr ps \<and> (\<forall>p\<in>set ps. roomy 4 (prop_scheduled_at p))"
proof -
  have now: "roomy 4 now" using assms(3) by (simp add: roomy_def)
  have add: "\<exists>r. dt_add now (minutes m) = Inr r \<and> roomy 4 r" if "0 \<le> m" "m \<le> 60" for m
    using that assms(3) by (auto simp: roomy_def dt_add_def wall_ok_def days_in_range_def)
  obtain local where local: "astimezone now (ZoneInfo tzname z) = Inr local" "roomy 8 local"
    using roomy_astimezone [OF assms(3), of "ZoneInfo tzname z"] assms(2) by auto
  let ?d = "date_of (dt_wall local)"
  have d: "8 \<le> ?d" "?d < days_in_range - 8"
    using local(2) wall_split [of "dt_wall local"] time_of_range [of "dt_wall local"]
    by (auto simp: roomy_def)
  then obtain c where c: "skip_weekend (?d + 1) = Inr c" using skip_weekend_total [of "?d + 1"] by auto
  have call: "next_business_day_at_10 E now tzname = Inr (combine c (hours 10) (ZoneInfo tzname z))"
    using assms(1) local(1) c d by (simp add: next_business_day_at_10_def Let_def)
  have "roomy 4 (combine c (hours 10) (ZoneInfo tzname z))"
    using skip_weekend_Inr [OF c] d assms(2) by (simp add: roomy_def combine_def)
  with call now add [of 15] add [of 30] assms(4) show ?thesis
    by (auto simp: policy_event_types_def proposals_for_event_def)
qed

section \<open>The keys of a new event\<close>

definition free_keys :: "inbound_event \<Rightarrow> outreach_channel set \<Rightarrow> db \<Rightarrow> bool" where
  "free_keys ev chs d \<longleftrightarrow> (\<forall>ch\<in>chs. task_key ev ch \<notin> task_idempotency_key ` set (outreach_tasks d))"

lemma uuid_str_no_colon: "CHR '':'' \<notin> set (uuid_str i)"
proof
  assume "CHR '':'' \<in> set (uuid_str i)"
  then have "CHR '':'' \<in> set (filter (\<lambda>c. c \<noteq> CHR ''-'') (uuid_str i))" by simp
  then obtain n where "n < 16" "hex_digit n = CHR '':''"
    unfolding uuid_str_strip using uuid_digits_bound [of i] by (auto simp: uuid_hex_def)
  moreover have "\<forall>n\<in>set [0..<16]. hex_digit n \<noteq> CHR '':''" by code_simp
  ultimately show False by simp
qed

lemma uuid_str_colon: "uuid_str i @ '':'' @ x = uuid_str j @ '':'' @ y \<Longrightarrow> i = j"
proof -
  assume eq: "uuid_str i @ '':'' @ x = uuid_str j @ '':'' @ y"
  have cut: "takeWhile (\<lambda>c. c \<noteq> CHR '':'') (uuid_str k @ '':'' @ z) = uuid_str k" for k z
  proof -
    have "\<forall>c\<in>set (uuid_str k). c \<noteq> CHR '':''" using uuid_str_no_colon [of k] by metis
    then have "takeWhile (\<lambda>c. c \<noteq> CHR '':'') (uuid_str k @ '':'' @ z) =
        uuid_str k @ takeWhile (\<lambda>c. c \<noteq> CHR '':'') ('':'' @ z)"
      by (intro takeWhile_append2) blast
    then show ?thesis by simp
  qed
  show "i = j" using arg_cong [OF eq, of "takeWhile (\<lambda>c. c \<noteq> CHR '':'')"] unfolding cut by simp
qed

lemma wf_free_keys:
  assumes "wf_db d" and "ev_id ev \<notin> ev_id ` set (inbound_events d)"
  shows "free_keys ev chs d"
proof -
  have "task_key ev ch \<noteq> task_idempotency_key t" if t: "t \<in> set (outreach_tasks d)" for ch t
  proof
    assume eq: "task_key ev ch = task_idempotency_key t"
    from assms(1) t obtain p where p: "p \<in> set (policy_decisions d)" "task_basis p t"
      by (auto simp: wf_db_def task_ok_def)
    from assms(1) p(1) have "decision_ok d p" by (simp add: wf_db_def)
    then obtain i where "i \<in> ev_id ` set (inbound_events d)" "pd_inbound_event_id p = Some i"
      by (auto simp: decision_ok_def)
    with eq p(2) have "ev_id ev \<in> ev_id ` set (inbound_events d)"
      using uuid_str_colon [of "ev_id ev"] by (auto simp: task_key_def task_basis_def)
    with assms(2) show False by simp
  qed
  then show ?thesis by (auto simp: free_keys_def)
qed

lemma task_key_channel: "task_key ev a = task_key ev b \<longleftrightarrow> a = b"
  by (simp add: task_key_def)

text \<open>One pass uses the key of its channel at most.\<close>

lemma apply_policy_result_total:
  assumes "free_keys ev (insert (prop_channel p) chs) d" and "res_channel r = prop_channel p"
    and "prop_channel p \<notin> chs"
  shows "\<exists>pg' d'. apply_policy_result E ev c a corr p r pg d = (Inr pg', d') \<and> free_keys ev chs d'"
proof -
  obtain pd d1 where rec: "record_decision E ev c a corr r d = (pd, d1)" by fastforce
  have tasks: "outreach_tasks d1 = outreach_tasks d"
    using rec by (auto simp: record_decision_def uuid4_def planner_audit_update Let_def)
  have sched: "\<exists>d3. schedule_task E ev c a corr pd (prop_channel p) at d2 = Inr d3 \<and> free_keys ev chs d3"
    if "outreach_tasks d2 = outreach_tasks d" for d2 at
    using assms(1,3) that by (auto simp: schedule_task_def insert_task_def uuid4_def Let_def free_keys_def
        find_None_ball planner_audit_update task_key_channel dest: sym)
  let ?d2 = "if res_decision r = DEFER
      then planner_audit E ev corr ''outreach_deferred'' ''account'' (uuid_str (acct_id a))
        ([(''channel'', JStr (channel_value (prop_channel p))),
          (''reasons'', JList (map JStr (res_reasons r)))]
         @ [(''defer_until'', case res_defer_until r of None \<Rightarrow> JNull
              | Some u \<Rightarrow> JStr (isoformat u))]) d1 else d1"
  have "outreach_tasks ?d2 = outreach_tasks d" using tasks by (simp add: planner_audit_update)
  from sched [OF this, of "scheduled_time r p"] obtain d3 where
    "schedule_task E ev c a corr pd (prop_channel p) (scheduled_time r p) ?d2 = Inr d3" "free_keys ev chs d3" by blast
  then show ?thesis
    using assms(1,2) tasks
    by (cases "res_decision r"; cases "schedules r")
      (auto simp: apply_policy_result_def rec Let_def free_keys_def planner_audit_update schedules_def
        scheduled_time_def)
qed

lemma plan_proposals_total:
  assumes "tzdb E (cust_timezone c) = Inr z" and "zone_sane z" and "0 \<le> cap"
    and "\<forall>p\<in>set ps. roomy 4 (prop_scheduled_at p)" and "distinct (map prop_channel ps)"
    and "free_keys ev (prop_channel ` set ps) d"
  shows "\<exists>pg' d'. plan_proposals E ev c a corr cap ps pg d = (Inr pg', d')"
  using assms(4-)
proof (induction ps arbitrary: pg d)
  case Nil
  then show ?case by simp
next
  case (Cons p ps)
  obtain pin where pin: "proposal_input c a cap p (pg_recent_count pg) = Inr pin"
    using assms(3) by (simp add: proposal_input_def make_policy_input_def)
  note fields = proposal_input_Inr [OF pin]
  obtain r where r: "evaluate_policy E pin = Inr r"
    using evaluate_policy_total [of E pin z] assms(1,2) Cons.prems(1) by (auto simp: fields)
  have "res_channel r = prop_channel p" using evaluate_policy_channel [OF r] by (simp add: fields)
  then obtain pg1 d1 where "apply_policy_result E ev c a corr p r pg d = (Inr pg1, d1)"
      "free_keys ev (prop_channel ` set ps) d1"
    using apply_policy_result_total [of ev p "prop_channel ` set ps" d r E c a corr pg] Cons.prems by auto
  with Cons.IH [of d1 pg1] Cons.prems pin r show ?case by simp
qed

lemma plan_new_event_total:
  assumes "find (\<lambda>x. ev_id x = i) (inbound_events d) = Some ev"
    and "load_customer_and_account d ev = Inr (c, a)"
    and "ev_event_type ev \<in> policy_event_types \<union> state_event_types"
    and "tzdb E (cust_timezone c) = Inr z" and "zone_sane z" and "roomy 10 now" and "0 \<le> cap"
    and "free_keys ev UNIV d"
  shows "\<exists>r d'. plan_outreach_for_event E i corr (Some (Aware now)) cap d = (Inr r, d')"
proof (cases "ev_event_type ev \<in> state_event_types")
  case True
  then show ?thesis
    using plan_state_event [OF assms(1,2)] by (auto split: prod.splits)
next
  case False
  then have ty: "ev_event_type ev \<in> policy_event_types" using assms(3) by blast
  obtain ps where ps: "proposals_for_event E (ev_event_type ev) now (cust_timezone c) = Inr ps"
      "\<forall>p\<in>set ps. roomy 4 (prop_scheduled_at p)"
    using proposals_total [OF assms(4-6) ty] by blast
  have "distinct (map prop_channel ps)" using proposals_channels(1) [OF ps(1)] by simp
  then have loop: "\<exists>pg' d'. plan_proposals E ev c a corr cap ps pg d = (Inr pg', d')" for pg
    using plan_proposals_total [OF assms(4,5,7) ps(2)] assms(8) by (auto simp: free_keys_def)
  have "\<exists>since. dt_add now (- hours 24) = Inr since" using roomy_dt_add [OF assms(6), of "- hours 24" 1] by auto
  then have "\<exists>n. recent_attempt_count d c now = Inr n" by (auto simp: recent_attempt_count_def)
  then obtain n where n: "recent_attempt_count d c now = Inr n" by blast
  from loop [of "initial_progress n"] obtain pg' d' where
    "plan_proposals E ev c a corr cap ps (initial_progress n) d = (Inr pg', d')" by blast
  then have "\<exists>r d'. plan_policy_event E ev c a corr now cap d = (Inr r, d')"
    using ps(1) n by (simp add: plan_policy_event_def initial_progress_def)
  then show ?thesis
    using assms(1,2) ty by (simp add: plan_outreach_for_event_def policy_event_types_def)
qed

end
