(* ===== verification/Events_Properties.thy ===== *)
theory Events_Properties
  imports Events_Api Ingestion_Properties Planner_Total
begin

text \<open>
  What a valid request can run into.
\<close>

section \<open>What validation guarantees\<close>

lemma valid_requestE:
  assumes "inbound_event_request E body = Inr body'"
  obtains z dt where "body' = body" and "rq_occurred_at body = Aware dt"
    and "tzdb E (cs_timezone (rq_customer body)) = Inr z"
    and "identity_field (rq_source body)" and "identity_field (rq_external_id body)"
    and "rq_event_type body \<in> set EVENT_TYPES"
    and "identity_field (cs_external_id (rq_customer body))" and "sized_field 1 255 (cs_full_name (rq_customer body))"
    and "sized_field 1 64 (cs_timezone (rq_customer body))" and "optional_field 64 (cs_phone_number (rq_customer body))"
    and "optional_field 255 (cs_email (rq_customer body))"
    and "identity_field (as_external_id (rq_account body))"
    and "0 \<le> as_balance_cents (rq_account body)" and "0 \<le> as_days_past_due (rq_account body)"
proof -
  obtain dt where dt: "rq_occurred_at body = Aware dt"
    using assms by (cases "rq_occurred_at body")
      (auto simp: inbound_event_request_def split: if_splits sum.splits)
  obtain z where z: "tzdb E (cs_timezone (rq_customer body)) = Inr z"
    using assms by (auto simp: inbound_event_request_def customer_snapshot_request_def validate_timezone_def
        validator_error_def split: if_splits sum.splits py_error.splits)
  show thesis
    using assms dt z
    by (intro that [OF _ dt z])
      (auto simp: inbound_event_request_def customer_snapshot_request_def validate_timezone_def
        account_snapshot_request_def not_less split: if_splits sum.splits)
qed

lemma valid_customer_fits:
  assumes "identity_field (cs_external_id cs)" and "sized_field 1 255 (cs_full_name cs)"
    and "sized_field 1 64 (cs_timezone cs)" and "optional_field 64 (cs_phone_number cs)"
    and "optional_field 255 (cs_email cs)" and "cust_external_id c = cs_external_id cs"
  shows "customer_fits (apply_customer_snapshot cs c)"
  using assms by (auto simp: customer_fits_def apply_customer_snapshot_def varchar_def nullable_varchar_def
      identity_field_def sized_field_def optional_field_def split: option.splits)

lemma valid_upsert_customer:
  assumes "identity_field (cs_external_id cs)" and "sized_field 1 255 (cs_full_name cs)"
    and "sized_field 1 64 (cs_timezone cs)" and "optional_field 64 (cs_phone_number cs)"
    and "optional_field 255 (cs_email cs)"
  shows "\<exists>c d0. upsert_customer E cs d = (Inr c, d0) \<and> c \<in> set (customers d0)
    \<and> cust_external_id c = cs_external_id cs \<and> cust_timezone c = cs_timezone cs
    \<and> ((\<exists>c0\<in>set (customers d). cust_external_id c0 = cs_external_id cs \<and> cust_id c0 = cust_id c)
       \<or> cs_external_id cs \<notin> cust_external_id ` set (customers d) \<and> cust_id c = next_uuid d)"
proof (cases "find (\<lambda>c. cust_external_id c = cs_external_id cs) (customers d)")
  case None
  let ?c = "apply_customer_snapshot cs \<lparr>cust_id = next_uuid d, cust_external_id = cs_external_id cs,
    cust_full_name = cs_full_name cs, cust_timezone = ''America/New_York'', cust_phone_number = None,
    cust_email = None, cust_sms_consent = False, cust_call_consent = False, cust_email_consent = False,
    cust_opted_out = False, cust_created_at = txn_now E\<rparr>"
  have "customer_fits ?c" using assms by (intro valid_customer_fits) simp_all
  then have "upsert_customer E cs d =
      (Inr ?c, d\<lparr>next_uuid := Suc (next_uuid d), customers := customers d @ [?c]\<rparr>)"
    using None by (simp add: upsert_customer_def uuid4_def Let_def)
  then show ?thesis
    using None by (auto simp: find_None_ball) (auto simp: apply_customer_snapshot_def)
next
  case (Some c0)
  then have c0: "c0 \<in> set (customers d)" "cust_external_id c0 = cs_external_id cs"
    using find_Some_in [OF Some] by auto
  let ?c = "apply_customer_snapshot cs c0"
  have "customer_fits ?c" using assms c0(2) by (intro valid_customer_fits)
  then have "upsert_customer E cs d = (Inr ?c, d\<lparr>customers := update_where (\<lambda>r. cust_id r = cust_id c0)
      (apply_customer_snapshot cs) (customers d)\<rparr>)"
    using Some by (simp add: upsert_customer_def Let_def)
  moreover have "?c \<in> set (update_where (\<lambda>r. cust_id r = cust_id c0) (apply_customer_snapshot cs) (customers d))"
    using c0(1) by (force simp: update_where_def)
  moreover have "cust_timezone ?c = cs_timezone cs" by (simp add: apply_customer_snapshot_def)
  ultimately show ?thesis using c0 by (intro exI conjI) auto
qed

text \<open>An account is written unless it belongs to someone else or its numbers overflow.\<close>

lemma valid_upsert_account:
  assumes "identity_field (as_external_id as)"
  obtains (written) a d1 where "upsert_account E as c d = (Inr a, d1)" and "a \<in> set (accounts d1)"
      and "acct_external_id a = as_external_id as" and "acct_customer_id a = cust_id c"
  | (moved) a where "upsert_account E as c d = (Inl (EventIngestionValidationError
        ''Account external_id already belongs to another customer''), d)"
      and "a \<in> set (accounts d)" and "acct_external_id a = as_external_id as" and "acct_customer_id a \<noteq> cust_id c"
  | (overflow) "upsert_account E as c d = (Inl DataError, d)" and "strict_columns E"
      and "\<not> (int4 (as_balance_cents as) \<and> int4 (as_days_past_due as))"
proof -
  have ext: "varchar 255 (as_external_id as)"
    using assms by (simp add: identity_field_def sized_field_def varchar_def)
  show thesis
  proof (cases "find (\<lambda>a. acct_external_id a = as_external_id as) (accounts d)")
    case None
    note run = upsert_account_def [of E as c d] uuid4_def Let_def account_fits_def apply_account_snapshot_def
    show thesis
    proof (cases "strict_columns E \<and> \<not> (int4 (as_balance_cents as) \<and> int4 (as_days_past_due as))")
      case True
      then show thesis using None ext by (intro overflow) (auto simp: run)
    next
      case False
      then show thesis using None ext by (intro written) (auto simp: run)
    qed
  next
    case (Some a0)
    then have a0: "a0 \<in> set (accounts d)" "acct_external_id a0 = as_external_id as"
      using find_Some_in [OF Some] by auto
    have mem: "apply_account_snapshot as a0 \<in> set (update_where (\<lambda>r. acct_id r = acct_id a0)
        (apply_account_snapshot as) (accounts d))" using a0(1) by (force simp: update_where_def)
    have fits: "account_fits (apply_account_snapshot as a0) \<longleftrightarrow>
        int4 (as_balance_cents as) \<and> int4 (as_days_past_due as)"
      using ext a0(2) by (simp add: account_fits_def apply_account_snapshot_def)
    show thesis
    proof (cases "acct_customer_id a0 = cust_id c")
      case False
      then show thesis using Some a0 by (intro moved [of a0]) (simp_all add: upsert_account_def)
    next
      case owner: True
      show thesis
      proof (cases "strict_columns E \<and> \<not> account_fits (apply_account_snapshot as a0)")
        case True
        then show thesis using Some owner fits by (intro overflow) (simp_all add: upsert_account_def Let_def)
      next
        case False
        then show thesis
          using Some owner mem a0(2)
          by (intro written [of "apply_account_snapshot as a0" "d\<lparr>accounts := update_where
              (\<lambda>r. acct_id r = acct_id a0) (apply_account_snapshot as) (accounts d)\<rparr>"])
            (auto simp: upsert_account_def Let_def)
      qed
    qed
  qed
qed

lemma load_upserted:
  assumes "wf_db d" and "c \<in> set (customers d)" and "a \<in> set (accounts d)" and "acct_customer_id a = cust_id c"
    and "ev_customer_external_id ev = cust_external_id c" and "ev_account_external_id ev = acct_external_id a"
    and "customers d' = customers d" and "accounts d' = accounts d"
  shows "load_customer_and_account d' ev = Inr (c, a)"
  using find_by_key [OF wf_unique(1) [OF assms(1)] assms(2)] find_by_key [OF wf_unique(2) [OF assms(1)] assms(3)]
    assms(4-)
  by (simp add: load_customer_and_account_def)

section \<open>The answer to a valid request\<close>

text \<open>From the written snapshots on.\<close>

lemma flush_valid_event:
  assumes "wf_db d1" and "find_existing_event st src ext = None"
    and "e = new_event E (next_uuid d1) src ext ty cs as (Aware dt) md c a"
    and "c \<in> set (customers d1)" and "a \<in> set (accounts d1)" and "acct_customer_id a = cust_id c"
    and "ty \<in> set EVENT_TYPES" and "tzdb E (cust_timezone c) = Inr z" and "zone_sane z" and "roomy 10 dt"
    and "\<not> strict_columns E \<or> event_fits e" and "find_existing_event d1 src ext = None"
    and run: "flush_new_event E e (Aware dt) corr
      \<lparr>store = st, pending = d1\<lparr>next_uuid := Suc (next_uuid d1)\<rparr>\<rparr> = (res, s)"
  shows "(\<exists>r. res = Inr r) \<or> res = Inl IntegrityError \<and> store s = st
    \<and> (\<exists>e'\<in>set (inbound_events d1). ev_idempotency_key e' = ev_idempotency_key e)"
proof -
  let ?p = "d1\<lparr>next_uuid := Suc (next_uuid d1)\<rparr>"
  have e: "ev_source e = src" "ev_external_id e = ext" "ev_id e = next_uuid d1" "ev_event_type e = ty"
      "ev_customer_external_id e = cust_external_id c" "ev_account_external_id e = acct_external_id a"
    by (simp_all add: assms(3) new_event_def)
  show ?thesis
  proof (cases "\<exists>e'\<in>set (inbound_events d1). ev_idempotency_key e' = ev_idempotency_key e")
    case True
    then have "insert_event E e ?p = Inl IntegrityError"
      using assms(11) by (auto simp: insert_event_def find_None_ball)
    then show ?thesis
      using run assms(2) True by (auto simp: flush_new_event_def Let_def rollback_def e)
  next
    case False
    then have "insert_event E e ?p = Inr (add_event e d1)"
      using assms(11,12) by (auto simp: insert_event_def find_None_ball find_existing_event_def e add_event_def)
    let ?d = "audit_accepted_event E e corr (add_event e d1)"
    have new: "ev_id e \<notin> ev_id ` set (inbound_events d1)" using next_uuid_unused [OF assms(1)] e(3) by simp
    then have "find (\<lambda>x. ev_id x = ev_id e) (inbound_events d1) = None"
      by (auto simp: find_None_ball) (metis image_eqI)
    then have found: "find (\<lambda>x. ev_id x = ev_id e) (inbound_events ?d) = Some e"
      by (simp add: frame_simps add_event_def find_append_rows)
    have load: "load_customer_and_account ?d e = Inr (c, a)"
      using assms(1,4-6) e(5,6) by (rule load_upserted) (simp_all add: frame_simps add_event_def)
    have "free_keys e UNIV ?d"
      using wf_free_keys [OF assms(1) new, of UNIV] by (simp add: free_keys_def frame_simps add_event_def)
    moreover have "ev_event_type e \<in> policy_event_types \<union> state_event_types"
      using assms(7) e(4) by (auto simp: EVENT_TYPES_def policy_event_types_def state_event_types_def)
    ultimately obtain r d' where "plan_outreach_for_event E (ev_id e) corr (Some (Aware dt)) 3 ?d = (Inr r, d')"
      using plan_new_event_total [OF found load _ assms(8-10)] by fastforce
    with \<open>insert_event E e ?p = Inr (add_event e d1)\<close> show ?thesis
      using run by (auto simp: flush_new_event_def complete_ingestion_def)
  qed
qed

lemma valid_event_answer:
  assumes "wf_db d" and "\<And>s. length (sha256_hexdigest E s) = 64"
    and "inbound_event_request E body = Inr body'"
    and "\<And>z. tzdb E (cs_timezone (rq_customer body)) = Inr z \<Longrightarrow> zone_sane z"
    and "\<And>dt. rq_occurred_at body = Aware dt \<Longrightarrow> roomy 10 dt"
    and "post_event E (\<lambda>x. x) corr body d = (res, d')"
  shows "(\<exists>r. res = Inr r \<and> rs_status r = ''accepted'' \<and> rs_correlation_id r = corr)
    \<or> d' = d \<and> res = Inl (HTTPException 422 ''Account external_id already belongs to another customer'')
      \<and> (\<exists>a\<in>set (accounts d). acct_external_id a = as_external_id (rq_account body)
          \<and> (acct_customer_id a, cs_external_id (rq_customer body)) \<notin>
              (\<lambda>c. (cust_id c, cust_external_id c)) ` set (customers d))
    \<or> d' = d \<and> res = Inl DataError \<and> strict_columns E
      \<and> (2 ^ 31 \<le> as_balance_cents (rq_account body) \<or> 2 ^ 31 \<le> as_days_past_due (rq_account body))
    \<or> d' = d \<and> res = Inl IntegrityError
      \<and> (\<exists>e\<in>set (inbound_events d). (ev_source e, ev_external_id e) \<noteq> (rq_source body, rq_external_id body)
          \<and> ev_idempotency_key e = inbound_event_idempotency_key E (rq_source body) (rq_external_id body))"
proof -
  let ?src = "rq_source body" and ?ext = "rq_external_id body" and ?ty = "rq_event_type body"
  let ?cs = "rq_customer body" and ?as = "rq_account body" and ?md = "rq_metadata body"
  from assms(3) obtain z dt where body: "body' = body" "rq_occurred_at body = Aware dt"
    and z: "tzdb E (cs_timezone ?cs) = Inr z"
    and ids: "identity_field ?src" "identity_field ?ext" "?ty \<in> set EVENT_TYPES"
    and cs: "identity_field (cs_external_id ?cs)" "sized_field 1 255 (cs_full_name ?cs)"
      "sized_field 1 64 (cs_timezone ?cs)" "optional_field 64 (cs_phone_number ?cs)" "optional_field 255 (cs_email ?cs)"
    and as: "identity_field (as_external_id ?as)" "0 \<le> as_balance_cents ?as" "0 \<le> as_days_past_due ?as"
    by (rule valid_requestE)
  have answer: "(res, d') = ingest_event E (\<lambda>x. x) corr body d"
    using assms(3,6) body(1) by (simp add: post_event_def)
  from valid_upsert_customer [OF cs, of E d] obtain c d0 where up: "upsert_customer E ?cs d = (Inr c, d0)"
    and c: "c \<in> set (customers d0)" "cust_external_id c = cs_external_id ?cs" "cust_timezone c = cs_timezone ?cs"
    and owner: "(\<exists>c0\<in>set (customers d). cust_external_id c0 = cs_external_id ?cs \<and> cust_id c0 = cust_id c)
       \<or> cs_external_id ?cs \<notin> cust_external_id ` set (customers d)" by blast
  show ?thesis
  proof (cases "find_existing_event d ?src ?ext")
    case (Some e)
    then show ?thesis using answer by (simp add: ingest_event_def ingest_event_snapshot_def)
  next
    case None
    from as(1) show ?thesis
    proof (cases rule: valid_upsert_account [of ?as E c d0])
      case (moved a)
      have "d' = d \<and> res = Inl (HTTPException 422 ''Account external_id already belongs to another customer'')"
        using answer None up moved(1)
        by (simp add: ingest_event_def ingest_event_snapshot_def rollback_def)
      moreover have "(acct_customer_id a, cs_external_id ?cs) \<notin> (\<lambda>c. (cust_id c, cust_external_id c)) ` set (customers d)"
        using owner moved(4) key_row_unique [OF wf_unique(1) [OF assms(1)]] by force
      ultimately show ?thesis using moved(2,3) upsert_customer_tables(1) [OF up] by auto
    next
      case overflow
      then have "2 ^ 31 \<le> as_balance_cents ?as \<or> 2 ^ 31 \<le> as_days_past_due ?as"
        using as(2,3) by (auto simp: int4_def)
      then show ?thesis
        using answer None up overflow by (simp add: ingest_event_def ingest_event_snapshot_def)
    next
      case (written a d1)
      let ?e = "new_event E (next_uuid d1) ?src ?ext ?ty ?cs ?as (Aware dt) ?md c a"
      note wf = wf_ingest_parts [OF assms(1) up written(1)]
      have same: "customers d1 = customers d0" "inbound_events d1 = inbound_events d"
        using upsert_account_tables(1,2) [OF written(1)] upsert_customer_tables(2) [OF up] by simp_all
      have none1: "find_existing_event d1 ?src ?ext = None"
        using None by (simp add: find_existing_event_def same(2))
      have fits: "\<not> strict_columns E \<or> event_fits ?e"
        using ids cs(1) as(1) c(2) written(3) assms(2)
        by (auto simp: event_fits_def new_event_def varchar_def identity_field_def sized_field_def
            inbound_event_idempotency_key_def EVENT_TYPES_def)
      obtain r s where flush: "flush_new_event E ?e (Aware dt) corr
          \<lparr>store = d, pending = d1\<lparr>next_uuid := Suc (next_uuid d1)\<rparr>\<rparr> = (r, s)" by fastforce
      have run: "(res, d') = (case (r, s) of
            (Inl (EventIngestionValidationError m), s) \<Rightarrow> (Inl (HTTPException 422 m), store (rollback s))
          | (Inl e, s) \<Rightarrow> (Inl e, store s)
          | (Inr r, s) \<Rightarrow> (Inr \<lparr>rs_event_id = ir_event_id r, rs_status = ''accepted'',
             rs_created_tasks = ir_created_tasks r, rs_blocked_tasks = ir_blocked_tasks r,
             rs_deferred_tasks = ir_deferred_tasks r, rs_cancelled_tasks = ir_cancelled_tasks r,
             rs_policy_decisions = ir_policy_decisions r, rs_correlation_id = corr\<rparr>, store s))"
        using answer None up written(1) flush body(2)
        by (simp add: ingest_event_def ingest_event_snapshot_def uuid4_def commit_elsewhere_def open_session_def)
      have "(\<exists>x. r = Inr x) \<or> r = Inl IntegrityError \<and> store s = d
        \<and> (\<exists>e'\<in>set (inbound_events d1). ev_idempotency_key e' = ev_idempotency_key ?e)"
        using wf(2) None refl c(1) [folded same(1)] written(2,4) ids(3) z [folded c(3)] assms(4) [OF z]
          assms(5) [OF body(2)] fits none1 flush
        by (rule flush_valid_event)
      then show ?thesis
        using run None same(2)
        by (auto simp: find_existing_event_def find_None_ball new_event_def)
    qed
  qed
qed


text \<open>A payment failure about a new account on an empty database.\<close>

definition sample_request :: event_request where
  "sample_request = \<lparr>rq_source = ''crm'', rq_external_id = ''e1'', rq_event_type = ''payment_failed'',
     rq_customer = \<lparr>cs_external_id = ''c1'', cs_full_name = ''Ada'', cs_timezone = ''America/New_York'',
       cs_phone_number = None, cs_email = None, cs_sms_consent = True, cs_call_consent = True,
       cs_email_consent = True\<rparr>,
     rq_account = \<lparr>as_external_id = ''a1'', as_status = DELINQUENT, as_balance_cents = 12500,
       as_days_past_due = 7\<rparr>,
     rq_occurred_at = Aware (utc_datetime (start_now sample_env)), rq_metadata = []\<rparr>"

definition padded_env :: env where
  "padded_env = sample_env\<lparr>sha256_hexdigest := (\<lambda>s. take 64 (s @ replicate 64 CHR ''0''))\<rparr>"


end
