(* ===== verification/Event_Effects.thy ===== *)
theory Event_Effects
  imports Events_Properties
begin

text \<open>
  What an accepted event leaves behind, seen through external identifiers: which accounts
  belong to which customers, which events are stored, which accounts have tasks, and who
  has opted out.
\<close>

section \<open>A database through external identifiers\<close>

definition names_within :: "(string \<times> string) set \<Rightarrow> db \<Rightarrow> bool" where
  "names_within N d \<longleftrightarrow> (\<forall>a\<in>set (accounts d). \<forall>c\<in>set (customers d).
     cust_id c = acct_customer_id a \<longrightarrow> (acct_external_id a, cust_external_id c) \<in> N)"

definition keys_within :: "(string \<times> string) set \<Rightarrow> env \<Rightarrow> db \<Rightarrow> bool" where
  "keys_within K E d \<longleftrightarrow> (\<forall>e\<in>set (inbound_events d). (ev_source e, ev_external_id e) \<in> K
     \<and> ev_idempotency_key e = inbound_event_idempotency_key E (ev_source e) (ev_external_id e))"

definition tasks_within :: "string set \<Rightarrow> db \<Rightarrow> bool" where
  "tasks_within A d \<longleftrightarrow> (\<forall>t\<in>set (outreach_tasks d). \<forall>a\<in>set (accounts d).
     acct_id a = task_account_id t \<longrightarrow> acct_external_id a \<in> A)"

definition opted_out_name :: "string \<Rightarrow> db \<Rightarrow> bool" where
  "opted_out_name x d \<longleftrightarrow> (\<exists>c\<in>set (customers d). cust_external_id c = x \<and> cust_opted_out c)"

definition no_scheduled_task :: "string \<Rightarrow> db \<Rightarrow> bool" where
  "no_scheduled_task x d \<longleftrightarrow> (\<forall>t\<in>set (outreach_tasks d). \<forall>a\<in>set (accounts d).
     acct_id a = task_account_id t \<and> acct_external_id a = x \<longrightarrow> task_status t \<noteq> SCHEDULED)"

lemma keys_within_mono: "keys_within K E d \<Longrightarrow> K \<subseteq> L \<Longrightarrow> keys_within L E d"
  by (auto simp: keys_within_def)

section \<open>Identities under one ingestion\<close>

lemma plan_keeps_identities:
  assumes "plan_outreach_for_event E i corr now cap d = (Inr r, d')"
  shows "map (\<lambda>c. (cust_id c, cust_external_id c)) (customers d') = map (\<lambda>c. (cust_id c, cust_external_id c)) (customers d)"
    and "map (\<lambda>a. (acct_id a, acct_external_id a, acct_customer_id a)) (accounts d') =
      map (\<lambda>a. (acct_id a, acct_external_id a, acct_customer_id a)) (accounts d)"
  using assms
proof (atomize (full), cases rule: plan_outreach_cases)
  case (state ev c a n d1)
  then have "customers d1 = customers (event_write E ev c a corr d)" "accounts d1 = accounts (event_write E ev c a corr d)"
    by (auto simp: cancel_scheduled_tasks_def Let_def frame_simps)
  then show "map (\<lambda>c. (cust_id c, cust_external_id c)) (customers d') = map (\<lambda>c. (cust_id c, cust_external_id c)) (customers d)
    \<and> map (\<lambda>a. (acct_id a, acct_external_id a, acct_customer_id a)) (accounts d') =
      map (\<lambda>a. (acct_id a, acct_external_id a, acct_customer_id a)) (accounts d)"
    by (simp add: state(6) frame_simps set_opted_out_def set_paused_def map_update_where)
qed (auto simp: loop_effect_def)

lemma upsert_customer_identities:
  assumes "upsert_customer E cs d = (Inr c, d0)"
  shows "(\<lambda>c. (cust_id c, cust_external_id c)) ` set (customers d0) =
    insert (cust_id c, cs_external_id cs) ((\<lambda>c. (cust_id c, cust_external_id c)) ` set (customers d))"
  using assms
proof (cases rule: upsert_customer_cases)
  case (inserted x)
  then show ?thesis by (auto simp: add_customer_def)
next
  case (updated c0)
  have "map (\<lambda>c. (cust_id c, cust_external_id c)) (customers d0) = map (\<lambda>c. (cust_id c, cust_external_id c)) (customers d)"
    using updated by (simp add: map_update_where)
  from arg_cong [OF this, of set] show ?thesis using updated by force
qed simp

lemma upsert_account_identities:
  assumes "upsert_account E as c d = (Inr a, d1)"
  shows "(\<lambda>a. (acct_id a, acct_external_id a, acct_customer_id a)) ` set (accounts d1) =
    insert (acct_id a, as_external_id as, cust_id c) ((\<lambda>a. (acct_id a, acct_external_id a, acct_customer_id a)) ` set (accounts d))"
  using assms
proof (cases rule: upsert_account_cases)
  case (inserted x)
  then show ?thesis by (auto simp: add_account_def)
next
  case (updated a0)
  have "map (\<lambda>a. (acct_id a, acct_external_id a, acct_customer_id a)) (accounts d1) =
      map (\<lambda>a. (acct_id a, acct_external_id a, acct_customer_id a)) (accounts d)"
    using updated by (simp add: map_update_where)
  from arg_cong [OF this, of set] show ?thesis using updated by force
qed simp

text \<open>All identities a fresh run of ingestion leaves.\<close>

lemma fresh_run_identities:
  assumes "wf_db d" and "fair_scan E" and "find_existing_event d src ext = None"
    and "ingest_event_snapshot E (\<lambda>x. x) src ext ty cs as at md corr (open_session d) = (Inr r, s)"
  obtains i j where
    "(\<lambda>c. (cust_id c, cust_external_id c)) ` set (customers (store s)) =
       insert (i, cs_external_id cs) ((\<lambda>c. (cust_id c, cust_external_id c)) ` set (customers d))"
    "(\<lambda>a. (acct_id a, acct_external_id a, acct_customer_id a)) ` set (accounts (store s)) =
       insert (j, as_external_id as, i)
         ((\<lambda>a. (acct_id a, acct_external_id a, acct_customer_id a)) ` set (accounts d))"
    "(\<lambda>e. (ev_source e, ev_external_id e, ev_idempotency_key e)) ` set (inbound_events (store s)) =
       insert (src, ext, inbound_event_idempotency_key E src ext)
         ((\<lambda>e. (ev_source e, ev_external_id e, ev_idempotency_key e)) ` set (inbound_events d))"
proof -
  from fresh_run [OF assms] obtain customer d0 account d1 e pr d2 where
      up: "upsert_customer E cs d = (Inr customer, d0)" "upsert_account E as customer d0 = (Inr account, d1)"
      and e: "e = new_event E (next_uuid d1) src ext ty cs as at md customer account"
      and plan: "plan_outreach_for_event E (ev_id e) corr (Some at) 3
             (audit_accepted_event E e corr (add_event e d1)) = (Inr pr, d2)"
      and s: "s = open_session (mark_processed (ev_id e) d2)"
    by metis
  note kept = plan_keeps_identities [OF plan, THEN arg_cong [of _ _ set]]
  have "map (\<lambda>e. (ev_source e, ev_external_id e, ev_idempotency_key e)) (inbound_events (store s)) =
      map (\<lambda>e. (ev_source e, ev_external_id e, ev_idempotency_key e)) (inbound_events d @ [e])"
    using plan_outreach_events [OF plan] upsert_customer_tables(2) [OF up(1)] upsert_account_tables(2) [OF up(2)]
    by (simp add: s mark_processed_def map_update_where frame_simps add_event_def)
  from arg_cong [OF this, of set]
  have keys: "(\<lambda>e. (ev_source e, ev_external_id e, ev_idempotency_key e)) ` set (inbound_events (store s)) =
       insert (src, ext, inbound_event_idempotency_key E src ext)
         ((\<lambda>e. (ev_source e, ev_external_id e, ev_idempotency_key e)) ` set (inbound_events d))"
    by (simp add: e new_event_def)
  have cust: "(\<lambda>c. (cust_id c, cust_external_id c)) ` set (customers (store s)) =
       insert (cust_id customer, cs_external_id cs) ((\<lambda>c. (cust_id c, cust_external_id c)) ` set (customers d))"
    using upsert_customer_identities [OF up(1)] kept(1) upsert_account_tables(1) [OF up(2)]
    by (simp add: s mark_processed_def frame_simps add_event_def)
  have acct: "(\<lambda>a. (acct_id a, acct_external_id a, acct_customer_id a)) ` set (accounts (store s)) =
       insert (acct_id account, as_external_id as, cust_id customer)
         ((\<lambda>a. (acct_id a, acct_external_id a, acct_customer_id a)) ` set (accounts d))"
    using upsert_account_identities [OF up(2)] kept(2) upsert_customer_tables(1) [OF up(1)]
    by (simp add: s mark_processed_def frame_simps add_event_def)
  from cust acct keys show thesis by (rule that)
qed

section \<open>The view after an event\<close>

lemma task_account_exists:
  assumes "wf_db d" and "t \<in> set (outreach_tasks d)"
  shows "\<exists>a\<in>set (accounts d). acct_id a = task_account_id t \<and> acct_customer_id a = task_customer_id t"
proof -
  from assms obtain p where p: "p \<in> set (policy_decisions d)" "task_basis p t"
    by (auto simp: wf_db_def task_ok_def)
  then have "decision_ok d p" using assms(1) by (simp add: wf_db_def)
  then show ?thesis using p(2) by (auto simp: decision_ok_def owners_def task_basis_def)
qed

text \<open>The account of a task, found again after the ingestion.\<close>

lemma same_account:
  assumes "wf_db d" and "wf_db d'" and "lineage_kept d d'" and "t \<in> set (outreach_tasks d)"
    and "a' \<in> set (accounts d')" and "acct_id a' = task_account_id t"
  obtains a where "a \<in> set (accounts d)" and "acct_id a = task_account_id t" and "acct_external_id a = acct_external_id a'"
proof -
  from task_account_exists [OF assms(1,4)] obtain a where a: "a \<in> set (accounts d)" "acct_id a = task_account_id t"
    by blast
  then obtain x where "x \<in> set (accounts d')" "acct_id x = acct_id a" "acct_external_id x = acct_external_id a"
    using assms(3) by (auto simp: lineage_kept_def account_step_def)
  with key_row_unique [OF wf_distinct(2) [OF assms(2)] this(1) assms(5)] a assms(6) that show thesis by metis
qed

lemma task_steps_keep: "task_step\<^sup>*\<^sup>* t t' \<Longrightarrow> task_id t' = task_id t \<and> task_account_id t' = task_account_id t"
  by (induction rule: rtranclp_induct) (simp_all add: task_step_keeps)

lemma old_task_account:
  assumes "wf_db d'" and "tasks_evolved d d'" and "t' \<in> set (outreach_tasks d')"
    and "task_id t' \<in> task_id ` set (outreach_tasks d)"
  obtains t where "t \<in> set (outreach_tasks d)" and "task_account_id t' = task_account_id t"
proof -
  from assms(4) obtain t where t: "t \<in> set (outreach_tasks d)" "task_id t' = task_id t" by auto
  then obtain x where "x \<in> set (outreach_tasks d')" "task_step\<^sup>*\<^sup>* t x"
    using assms(2) by (auto simp: tasks_evolved_def)
  with key_row_unique [OF wf_distinct(5) [OF assms(1)] this(1) assms(3)] t task_steps_keep that show thesis by metis
qed

text \<open>What any answered event keeps of the view.\<close>

lemma ingest_names:
  assumes "wf_db d" and "wf_db (store s)" and "fair_scan E"
    and "ingest_event_snapshot E (\<lambda>x. x) src ext ty cs as at md corr (open_session d) = (Inr r, s)"
    and "names_within N d" and "(as_external_id as, cs_external_id cs) \<in> N"
  shows "names_within N (store s)"
proof (cases "find_existing_event d src ext")
  case (Some e)
  with assms(4,5) show ?thesis by (auto simp: ingest_event_snapshot_def)
next
  case None
  obtain i0 j0 where
    cs: "(\<lambda>c. (cust_id c, cust_external_id c)) ` set (customers (store s)) =
       insert (i0, cs_external_id cs) ((\<lambda>c. (cust_id c, cust_external_id c)) ` set (customers d))"
    and as: "(\<lambda>a. (acct_id a, acct_external_id a, acct_customer_id a)) ` set (accounts (store s)) =
       insert (j0, as_external_id as, i0)
         ((\<lambda>a. (acct_id a, acct_external_id a, acct_customer_id a)) ` set (accounts d))"
    by (rule fresh_run_identities [OF assms(1,3) None assms(4)]) (rule that)
  have uniq: "x = y" if "(i, x) \<in> (\<lambda>c. (cust_id c, cust_external_id c)) ` set (customers (store s))"
    "(i, y) \<in> (\<lambda>c. (cust_id c, cust_external_id c)) ` set (customers (store s))" for i x y
  proof -
    from that obtain b c where b: "b \<in> set (customers (store s))" "i = cust_id b" "x = cust_external_id b"
      and c: "c \<in> set (customers (store s))" "i = cust_id c" "y = cust_external_id c" by blast
    then show ?thesis using key_row_unique [OF wf_distinct(1) [OF assms(2)] b(1) c(1)] by simp
  qed
  show ?thesis
    unfolding names_within_def
  proof (intro ballI impI)
    fix a c assume a: "a \<in> set (accounts (store s))" and c: "c \<in> set (customers (store s))" "cust_id c = acct_customer_id a"
    have cc: "(cust_id c, cust_external_id c) \<in> (\<lambda>c. (cust_id c, cust_external_id c)) ` set (customers (store s))"
      using c(1) by (rule imageI)
    have "(acct_id a, acct_external_id a, acct_customer_id a) \<in>
        (\<lambda>a. (acct_id a, acct_external_id a, acct_customer_id a)) ` set (accounts (store s))"
      using a by (rule imageI)
    then consider "acct_external_id a = as_external_id as" "acct_customer_id a = i0"
      | x where "x \<in> set (accounts d)" "acct_external_id x = acct_external_id a" "acct_customer_id x = acct_customer_id a"
      unfolding as by auto
    then show "(acct_external_id a, cust_external_id c) \<in> N"
    proof cases
      case 1
      then have "cust_id c = i0" using c(2) by simp
      moreover have "(i0, cs_external_id cs) \<in> (\<lambda>c. (cust_id c, cust_external_id c)) ` set (customers (store s))"
        unfolding cs by (rule insertI1)
      ultimately have "cust_external_id c = cs_external_id cs" using uniq [OF cc] by simp
      with 1 assms(6) show ?thesis by simp
    next
      case 2
      have "set (map acct_customer_id (accounts d)) \<subseteq> set (map cust_id (customers d))"
        using assms(1) by (simp add: wf_db_def)
      then obtain y where y: "y \<in> set (customers d)" "cust_id y = acct_customer_id x" using 2(1) by force
      then have "(cust_id y, cust_external_id y) \<in> (\<lambda>c. (cust_id c, cust_external_id c)) ` set (customers (store s))"
        unfolding cs by blast
      then have "cust_external_id c = cust_external_id y"
        using uniq [OF cc] y(2) 2(3) c(2) by simp
      with assms(5) 2 y show ?thesis by (auto simp: names_within_def)
    qed
  qed
qed

lemma ingest_keys:
  assumes "wf_db d" and "fair_scan E"
    and "ingest_event_snapshot E (\<lambda>x. x) src ext ty cs as at md corr (open_session d) = (Inr r, s)"
    and "keys_within K E d"
  shows "keys_within (insert (src, ext) K) E (store s)"
proof (cases "find_existing_event d src ext")
  case (Some e)
  with assms(3,4) show ?thesis by (auto simp: ingest_event_snapshot_def keys_within_def)
next
  case None
  have "(\<lambda>e. (ev_source e, ev_external_id e, ev_idempotency_key e)) ` set (inbound_events (store s)) =
       insert (src, ext, inbound_event_idempotency_key E src ext)
         ((\<lambda>e. (ev_source e, ev_external_id e, ev_idempotency_key e)) ` set (inbound_events d))"
    by (rule fresh_run_identities [OF assms(1,2) None assms(3)])
  then have "(ev_source e, ev_external_id e, ev_idempotency_key e) \<in>
      insert (src, ext, inbound_event_idempotency_key E src ext)
         ((\<lambda>e. (ev_source e, ev_external_id e, ev_idempotency_key e)) ` set (inbound_events d))"
    if "e \<in> set (inbound_events (store s))" for e
    using that by blast
  then show ?thesis using assms(4) by (fastforce simp: keys_within_def)
qed

lemma ingest_history:
  assumes "wf_db d" and "fair_scan E"
    and "ingest_event_snapshot E (\<lambda>x. x) src ext ty cs as at md corr (open_session d) = (res, s)"
  shows "wf_db (store s)" and "history_kept d (store s)"
  using history.frame_ingest [OF assms(2) _ _ assms(3)] assms(1) by (simp_all add: keeps_def history.refl)

text \<open>New tasks are about the account of the event, and a state event makes none.\<close>

lemma ingest_tasks:
  assumes "wf_db d" and "fair_scan E"
    and "ingest_event_snapshot E (\<lambda>x. x) src ext ty cs as at md corr (open_session d) = (Inr r, s)"
    and "tasks_within A d"
    and "as_external_id as \<in> A \<or> task_id ` set (outreach_tasks (store s)) \<subseteq> task_id ` set (outreach_tasks d)"
  shows "tasks_within A (store s)"
  unfolding tasks_within_def
proof (intro ballI impI)
  note after = ingest_history [OF assms(1-3)]
  fix t a assume t: "t \<in> set (outreach_tasks (store s))" and a: "a \<in> set (accounts (store s))" "acct_id a = task_account_id t"
  show "acct_external_id a \<in> A"
  proof (cases "task_id t \<in> task_id ` set (outreach_tasks d)")
    case True
    have "tasks_evolved d (store s)" using after(2) by (simp add: history_kept_def)
    from after(1) this t True obtain t0 where t0: "t0 \<in> set (outreach_tasks d)" "task_account_id t = task_account_id t0"
      by (rule old_task_account)
    have lin: "lineage_kept d (store s)" using after(2) by (simp add: history_kept_def)
    have "acct_id a = task_account_id t0" using a(2) t0(2) by simp
    from assms(1) after(1) lin t0(1) a(1) this obtain x where
      x: "x \<in> set (accounts d)" "acct_id x = task_account_id t0" "acct_external_id x = acct_external_id a"
      by (rule same_account)
    have "acct_external_id x \<in> A" using assms(4) t0(1) x(1,2) unfolding tasks_within_def by blast
    with x(3) show ?thesis by simp
  next
    case False
    then have inA: "as_external_id as \<in> A" using assms(5) t by blast
    have none: "find_existing_event d src ext = None"
      using assms(3) t False by (auto simp: ingest_event_snapshot_def split: option.splits)
    from fresh_run [OF assms(1,2) none assms(3)] obtain customer d0 account d1 e pr d2 where
        up: "upsert_customer E cs d = (Inr customer, d0)" "upsert_account E as customer d0 = (Inr account, d1)"
        and wf: "wf_db d1" and e: "e = new_event E (next_uuid d1) src ext ty cs as at md customer account"
        and ins: "insert_event E e (d1\<lparr>next_uuid := Suc (next_uuid d1)\<rparr>) = Inr (add_event e d1)"
        and plan: "plan_outreach_for_event E (ev_id e) corr (Some at) 3
             (audit_accepted_event E e corr (add_event e d1)) = (Inr pr, d2)"
        and s: "s = open_session (mark_processed (ev_id e) d2)"
      by metis
    let ?d = "audit_accepted_event E e corr (add_event e d1)"
    have wf_e: "wf_db ?d" using wf_new_event [OF wf _ ins] e by (simp add: new_event_def)
    have tables: "outreach_tasks ?d = outreach_tasks d" "inbound_events ?d = inbound_events d1 @ [e]"
      using upsert_customer_tables(4) [OF up(1)] upsert_account_tables(4) [OF up(2)]
      by (simp_all add: frame_simps add_event_def)
    have new: "t \<in> set (outreach_tasks d2)" "task_id t \<notin> task_id ` set (outreach_tasks ?d)"
      using t False by (simp_all add: s mark_processed_def tables)
    obtain ev c x ds where o: "find (\<lambda>ev. ev_id ev = ev_id e) (inbound_events ?d) = Some ev"
        "planned_task E ev c x corr ds t" "x \<in> set (accounts ?d)" "accounts d2 = accounts ?d"
        "load_customer_and_account ?d ev = Inr (c, x)"
      using plan new assms(2) wf_distinct(5) [OF wf_e] by (rule new_task_origin)
    have "ev = e" using o(1) find_by_key [OF wf_distinct(3) [OF wf_e], of e] tables(2) by simp
    then have "acct_external_id x = acct_external_id account"
      using o(5) by (auto simp: load_customer_and_account_def e new_event_def dest: find_Some_in
          split: option.splits if_splits)
    moreover have "acct_external_id account = as_external_id as" using up(2) by (auto elim!: upsert_account_cases)
    moreover have "a = x"
      using key_row_unique [OF wf_distinct(2) [OF wf_e], of a x] a o(2,3,4)
      by (simp add: s mark_processed_def planned_task_def)
    ultimately show ?thesis using inA by simp
  qed
qed

text \<open>A new state event leaves nothing scheduled for its account, and an opt-out is recorded.\<close>

lemma ingest_state_event:
  assumes "wf_db d" and "fair_scan E" and "find_existing_event d src ext = None"
    and "ingest_event_snapshot E (\<lambda>x. x) src ext ty cs as at md corr (open_session d) = (Inr r, s)"
    and "ty \<in> state_event_types"
  shows "task_id ` set (outreach_tasks (store s)) = task_id ` set (outreach_tasks d)"
    and "no_scheduled_task (as_external_id as) (store s)"
    and "ty = ''opt_out_received'' \<Longrightarrow> opted_out_name (cs_external_id cs) (store s)"
proof -
  from fresh_run [OF assms(1-4)] obtain customer d0 account d1 e pr d2 where
      up: "upsert_customer E cs d = (Inr customer, d0)" "upsert_account E as customer d0 = (Inr account, d1)"
      and wf: "wf_db d1" and e: "e = new_event E (next_uuid d1) src ext ty cs as at md customer account"
      and ins: "insert_event E e (d1\<lparr>next_uuid := Suc (next_uuid d1)\<rparr>) = Inr (add_event e d1)"
      and plan: "plan_outreach_for_event E (ev_id e) corr (Some at) 3
             (audit_accepted_event E e corr (add_event e d1)) = (Inr pr, d2)"
      and s: "s = open_session (mark_processed (ev_id e) d2)"
    by metis
  let ?d = "audit_accepted_event E e corr (add_event e d1)"
  have wf_e: "wf_db ?d" using wf_new_event [OF wf _ ins] e by (simp add: new_event_def)
  have wf_s: "wf_db (store s)" using ingest_history(1) [OF assms(1,2,4)] .
  have tables: "outreach_tasks ?d = outreach_tasks d" "inbound_events ?d = inbound_events d1 @ [e]"
    using upsert_customer_tables(4) [OF up(1)] upsert_account_tables(4) [OF up(2)]
    by (simp_all add: frame_simps add_event_def)
  have found: "find (\<lambda>ev. ev_id ev = ev_id e) (inbound_events ?d) = Some e"
    using find_by_key [OF wf_distinct(3) [OF wf_e], of e] tables(2) by simp
  have ty: "ev_event_type e = ty" by (simp add: e new_event_def)
  have "ev_id e \<notin> ev_id ` set (inbound_events d1)"
    using next_uuid_unused [OF wf] by (simp add: e new_event_def)
  then have unmarked: "\<not> has_processed_marker ?d e"
    using wf_no_marker [OF wf, of e] by (simp add: accepted_no_marker)
  have state: "ty \<notin> policy_event_types" using assms(5) by (auto simp: policy_event_types_def state_event_types_def)
  from plan obtain c a n d3 where load: "load_customer_and_account ?d e = Inr (c, a)"
    and can: "cancel_scheduled_tasks E e c a corr (event_write E e c a corr ?d) = (n, d3)"
    and d2: "d2 = append_processed_marker E e corr d3"
  proof (cases rule: plan_outreach_cases)
    case (replay ev x y)
    then have "ev = e" using found by simp
    with replay(5) unmarked ty state show thesis by simp
  next
    case (policy ev x y)
    then have "ev = e" using found by simp
    with policy(3) ty state show thesis by simp
  next
    case (state ev x y k d4)
    then have "ev = e" using found by simp
    with state that show thesis by blast
  qed
  have "distinct (map task_id (outreach_tasks (event_write E e c a corr ?d)))"
    using wf_distinct(5) [OF wf_e] by (simp add: frame_simps)
  note eff = cancel_scheduled_tasks_effect [OF can assms(2) this]
  have rows: "outreach_tasks (store s) = update_where (cancellable c a) (\<lambda>t. t\<lparr>task_status := CANCELLED\<rparr>) (outreach_tasks d)"
    by (simp add: s mark_processed_def d2 append_processed_marker_frame eff(1) event_write_frame tables(1))
  have "map task_id (outreach_tasks (store s)) = map task_id (outreach_tasks d)"
    by (simp add: rows map_update_where)
  from arg_cong [OF this, of set] show "task_id ` set (outreach_tasks (store s)) = task_id ` set (outreach_tasks d)"
    by simp
  have ext: "cust_external_id customer = cs_external_id cs" "acct_external_id account = as_external_id as"
    using up by (auto elim!: upsert_customer_cases upsert_account_cases)
  have "cust_external_id c = ev_customer_external_id e" "acct_external_id a = ev_account_external_id e"
    using load by (auto simp: load_customer_and_account_def dest: find_Some_in split: option.splits if_splits)
  then have ca: "c \<in> set (customers ?d)" "a \<in> set (accounts ?d)" "acct_customer_id a = cust_id c"
      "cust_external_id c = cs_external_id cs" "acct_external_id a = as_external_id as"
    using load_in_db [OF load] ext by (simp_all add: e new_event_def)
  show "no_scheduled_task (as_external_id as) (store s)"
    unfolding no_scheduled_task_def
  proof (intro ballI impI)
    fix t x assume t: "t \<in> set (outreach_tasks (store s))" and x: "x \<in> set (accounts (store s))"
      "acct_id x = task_account_id t \<and> acct_external_id x = as_external_id as"
    let ?f = "\<lambda>a. (acct_id a, acct_external_id a, acct_customer_id a)"
    have "map ?f (accounts (store s)) = map ?f (accounts ?d)"
      using plan_keeps_identities(2) [OF plan] by (simp add: s mark_processed_def)
    from arg_cong [OF this, of set] have "?f ` set (accounts (store s)) = ?f ` set (accounts ?d)" by simp
    with imageI [OF x(1), of ?f] obtain y where y: "y \<in> set (accounts ?d)" "acct_id y = acct_id x"
        "acct_external_id y = acct_external_id x" "acct_customer_id y = acct_customer_id x" by auto
    then have "y = a" using key_row_unique [OF wf_unique(2) [OF wf_e] y(1) ca(2)] ca(5) x(2) by simp
    obtain z where z: "z \<in> set (accounts (store s))" "acct_id z = task_account_id t" "acct_customer_id z = task_customer_id t"
      using wf_s t task_account_exists by blast
    then have "z = x" using key_row_unique [OF wf_distinct(2) [OF wf_s] z(1) x(1)] x(2) by simp
    with z \<open>y = a\<close> y ca(3) x(2) have "task_account_id t = acct_id a" "task_customer_id t = cust_id c" by simp_all
    then show "task_status t \<noteq> SCHEDULED"
      using t unfolding rows by (auto simp: update_where_def cancellable_def SCHEDULED_STATUSES_def split: if_splits)
  qed
  assume "ty = ''opt_out_received''"
  then have "customers (store s) = customers (set_opted_out c ?d)"
    using eff(4) by (simp add: s mark_processed_def d2 frame_simps ty)
  then show "opted_out_name (cs_external_id cs) (store s)"
    using ca(1,4) unfolding opted_out_name_def
    by (intro bexI [of _ "c\<lparr>cust_opted_out := True\<rparr>"]) (auto simp: set_opted_out_def update_where_def)
qed

end
