(* ===== verification/Ingestion_Examples.thy ===== *)
theory Ingestion_Examples
  imports Ingestion_Properties
begin

text \<open>
  The properties of ingestion at concrete inputs: a payment failure of a new customer
  on an empty database, and databases where its customer, its account or its key is
  already stored.
\<close>

definition sample_cs :: customer_snapshot where
  "sample_cs = \<lparr>cs_external_id = ''c1'', cs_full_name = ''Ada'', cs_timezone = ''America/New_York'',
     cs_phone_number = None, cs_email = None, cs_sms_consent = True, cs_call_consent = True,
     cs_email_consent = True\<rparr>"

definition sample_as :: account_snapshot where
  "sample_as = \<lparr>as_external_id = ''a1'', as_status = DELINQUENT, as_balance_cents = 12500,
     as_days_past_due = 7\<rparr>"

abbreviation sample_ingest ::
  "(db \<Rightarrow> db) \<Rightarrow> string \<Rightarrow> string \<Rightarrow> db \<Rightarrow> (py_error + ingestion_result) \<times> session" where
  "sample_ingest others src ext d \<equiv> ingest_event_snapshot sample_env others src ext ''payment_failed''
     sample_cs sample_as (Aware (utc_datetime (start_now sample_env))) [] 0 (open_session d)"

definition first_run :: "(py_error + ingestion_result) \<times> session" where
  "first_run = sample_ingest (\<lambda>x. x) ''crm'' ''e1'' empty_db"

lemma first_run_values:
  "(case fst first_run of Inl e \<Rightarrow> False | Inr r \<Rightarrow> ir_created_tasks r = 2)
     \<and> map task_id (outreach_tasks (store (snd first_run))) = [7, 11]"
  unfolding first_run_def by code_simp

lemma first_run_Inr:
  obtains r where "sample_ingest (\<lambda>x. x) ''crm'' ''e1'' empty_db = (Inr r, snd first_run)"
    and "fst first_run = Inr r" and "ir_created_tasks r = 2"
proof -
  obtain r where "fst first_run = Inr r" "ir_created_tasks r = 2"
    using first_run_values by (auto split: sum.splits)
  moreover from this have "first_run = (Inr r, snd first_run)" by (metis prod.collapse)
  ultimately show thesis using that unfolding first_run_def by metis
qed

lemma wf_sample [simp]: "wf_db (sample_db evs [])" if "evs = []" for evs
  using that by (simp add: wf_db_def fresh_ids_def row_ids_def unique_keys_def sample_db_def
      sample_customer_def sample_account_def)

theorem ingest_replay_same_answer_witness:
  "\<exists>r. fst first_run = Inr r \<and> ir_created_tasks r = 2
    \<and> ingest_event_snapshot sample_env (\<lambda>x. x) ''crm'' ''e1'' ''opt_out_received'' sample_cs sample_as
        (Naive 0) [] 5 (snd first_run) = (Inr r, snd first_run)"
proof -
  obtain r where run: "sample_ingest (\<lambda>x. x) ''crm'' ''e1'' empty_db = (Inr r, snd first_run)"
    and r: "fst first_run = Inr r" "ir_created_tasks r = 2" by (rule first_run_Inr)
  then show ?thesis using ingest_replay_same_answer [OF wf_empty fair_scan_sample run] by blast
qed

theorem ingest_atomic_witness: "pending (snd first_run) = store (snd first_run)"
proof -
  obtain r where run: "sample_ingest (\<lambda>x. x) ''crm'' ''e1'' empty_db = (Inr r, snd first_run)"
    by (rule first_run_Inr)
  show ?thesis using ingest_atomic [OF run] by simp
qed

text \<open>Another session that stores the same event while this one waits.\<close>

definition rival_event :: inbound_event where
  "rival_event = (sample_event 3 ''payment_failed'')\<lparr>ev_external_id := ''e1''\<rparr>"

definition rival :: "db \<Rightarrow> db" where
  "rival d = d\<lparr>inbound_events := [rival_event]\<rparr>"

theorem ingest_race_single_event_witness:
  "\<exists>res s. sample_ingest rival ''crm'' ''e1'' empty_db = (res, s)
    \<and> ((\<exists>err. res = Inl err \<and> err \<noteq> IntegrityError \<and> store s \<in> {empty_db, rival empty_db})
       \<or> res = Inr (result_from_existing_event (rival empty_db) rival_event)
         \<and> s = open_session (rival empty_db))"
proof -
  obtain res s where run: "sample_ingest rival ''crm'' ''e1'' empty_db = (res, s)" by fastforce
  have "find_existing_event (rival d) ''crm'' ''e1'' = Some rival_event" for d
    by (simp add: find_existing_event_def rival_def rival_event_def sample_event_def)
  then show ?thesis
    using run ingest_race_single_event [OF run, of rival_event]
    by (auto simp: find_existing_event_def empty_db_def)
qed

theorem ingested_tasks_compliant_witness:
  "\<exists>t\<in>set (outreach_tasks (store (snd first_run))). \<exists>c\<in>set (customers (store (snd first_run))).
     \<exists>a\<in>set (accounts (store (snd first_run))).
     task_id t = 7 \<and> contact_permitted c a (task_channel t) \<and> compliant_time sample_env c t"
proof -
  obtain r where run: "sample_ingest (\<lambda>x. x) ''crm'' ''e1'' empty_db = (Inr r, snd first_run)"
    by (rule first_run_Inr)
  have "7 \<in> set (map task_id (outreach_tasks (store (snd first_run))))"
    using first_run_values by simp
  then obtain t where t: "t \<in> set (outreach_tasks (store (snd first_run)))" "task_id t = 7" by auto
  then show ?thesis
    using ingested_tasks_compliant [OF wf_empty fair_scan_sample run t(1)] by (auto simp: empty_db_def)
qed

theorem ingest_keeps_history_witness:
  "wf_db (store (snd first_run)) \<and> lineage_kept empty_db (store (snd first_run))"
proof -
  obtain r where run: "sample_ingest (\<lambda>x. x) ''crm'' ''e1'' empty_db = (Inr r, snd first_run)"
    by (rule first_run_Inr)
  show ?thesis using ingest_keeps_history [OF wf_empty fair_scan_sample history.keeps_refl run] by blast
qed

definition opted_out_db :: db where
  "opted_out_db = (sample_db [] [])\<lparr>customers := [sample_customer\<lparr>cust_opted_out := True\<rparr>]\<rparr>"

theorem opted_out_customer_gets_no_task_witness:
  "\<exists>r s. sample_ingest (\<lambda>x. x) ''crm'' ''e1'' opted_out_db = (Inr r, s) \<and> outreach_tasks (store s) = []"
proof -
  obtain res s where run: "sample_ingest (\<lambda>x. x) ''crm'' ''e1'' opted_out_db = (res, s)" by fastforce
  have "case fst (sample_ingest (\<lambda>x. x) ''crm'' ''e1'' opted_out_db) of Inl e \<Rightarrow> False | Inr r \<Rightarrow> True"
    by code_simp
  with run obtain r where r: "res = Inr r" by (auto split: sum.splits)
  have "wf_db opted_out_db"
    by (simp add: wf_db_def fresh_ids_def row_ids_def unique_keys_def sample_db_def opted_out_db_def
        sample_customer_def sample_account_def)
  then show ?thesis
    using opted_out_customer_gets_no_task [OF _ fair_scan_sample _ _ _ run [unfolded r]] run r
    by (auto simp: opted_out_db_def sample_db_def sample_customer_def sample_cs_def)
qed

theorem ingest_rejects_moved_account_witness:
  "\<exists>s. ingest_event_snapshot sample_env (\<lambda>x. x) ''crm'' ''e1'' ''payment_failed''
      (sample_cs\<lparr>cs_external_id := ''c2''\<rparr>) sample_as (Naive 0) [] 0 (open_session (sample_db [] [])) =
      (Inl (EventIngestionValidationError ''Account external_id already belongs to another customer''), s)
    \<and> store s = sample_db [] []"
proof -
  let ?cs = "sample_cs\<lparr>cs_external_id := ''c2''\<rparr>"
  obtain res d0 where up: "upsert_customer sample_env ?cs (sample_db [] []) = (res, d0)" by fastforce
  have "case fst (upsert_customer sample_env ?cs (sample_db [] [])) of Inl e \<Rightarrow> False | Inr c \<Rightarrow> True"
    by code_simp
  with up obtain c where "upsert_customer sample_env ?cs (sample_db [] []) = (Inr c, d0)"
    by (auto split: sum.splits)
  then show ?thesis
    by (intro ingest_rejects_moved_account [of _ _ _ sample_account _ sample_customer])
      (simp_all add: find_existing_event_def, simp_all add: sample_db_def sample_account_def
        sample_customer_def sample_as_def sample_cs_def)
qed

definition two_digests :: env where
  "two_digests = sample_env\<lparr>sha256_hexdigest :=
     (\<lambda>s. replicate 64 (if s = ''a'' @ [CHR 0x1F] @ ''b'' then CHR ''0'' else CHR ''1''))\<rparr>"

theorem idempotency_key_separates_witness:
  "inbound_event_idempotency_key two_digests ''a'' ''b'' \<noteq> inbound_event_idempotency_key two_digests ''c'' ''b''"
proof -
  have sha: "sha256_hexdigest two_digests s =
      replicate 64 (if s = ''a'' @ [CHR 0x1F] @ ''b'' then CHR ''0'' else CHR ''1'')" for s
    by (simp add: two_digests_def)
  have "x = y" if "sha256_hexdigest two_digests x = sha256_hexdigest two_digests y"
    "x \<in> {''a'' @ [CHR 0x1F] @ ''b'', ''c'' @ [CHR 0x1F] @ ''b''}"
    "y \<in> {''a'' @ [CHR 0x1F] @ ''b'', ''c'' @ [CHR 0x1F] @ ''b''}" for x y
    using that unfolding sha replicate_eq_replicate by (auto split: if_splits)
  moreover have "length (sha256_hexdigest two_digests s) = 64" for s
    unfolding sha by (rule length_replicate)
  ultimately show ?thesis
    using idempotency_key_separates [of "''a''" "''c''" two_digests "''b''" "''b''"] by simp
qed

definition joined_event :: inbound_event where
  "joined_event = (sample_event 3 ''payment_failed'')\<lparr>ev_source := ''a'',
     ev_external_id := ''b'' @ [CHR 0x1F] @ ''c'',
     ev_idempotency_key := inbound_event_idempotency_key sample_env ''a'' (''b'' @ [CHR 0x1F] @ ''c'')\<rparr>"

theorem ambiguous_identity_refused_witness:
  "sample_ingest (\<lambda>x. x) (''a'' @ [CHR 0x1F] @ ''b'') ''c'' (sample_db [joined_event] []) =
     (Inl IntegrityError, open_session (sample_db [joined_event] []))"
proof -
  have up: "upsert_customer sample_env sample_cs (sample_db [joined_event] []) =
      (Inr sample_customer, sample_db [joined_event] [])"
    "upsert_account sample_env sample_as sample_customer (sample_db [joined_event] []) =
      (Inr sample_account, sample_db [joined_event] [])"
    by code_simp+
  have fits: "event_fits (new_event sample_env (next_uuid (sample_db [joined_event] []))
      (''a'' @ [CHR 0x1F] @ ''b'') ''c'' ''payment_failed'' sample_cs sample_as
      (Aware (utc_datetime (start_now sample_env))) [] sample_customer sample_account)"
    by code_simp
  show ?thesis
    by (rule ambiguous_identity_refused [of _ _ _ joined_event, OF _ _ _ _ up])
      (use fits in \<open>auto simp: find_existing_event_def joined_event_def\<close>)
qed

end
