(* ===== verification/Ingestion_Race.thy ===== *)
theory Ingestion_Race
  imports Ingestion_Windows Event_Effects Ingestion_Examples
begin

text \<open>
  Two deliveries of one event at once, the second falling into the windows of the first.
\<close>

section \<open>The same new customer twice\<close>

lemma upserted_snapshot_fits:
  assumes "upsert_customer E cs d = (Inr c, d0)" and "strict_columns E" and "cust_external_id x = cs_external_id cs"
  shows "customer_fits (apply_customer_snapshot cs x)"
  using assms
  by (auto simp: upsert_customer_def Let_def uuid4_def customer_fits_def apply_customer_snapshot_def
      split: option.splits if_splits dest!: find_Some_in)

lemma success_committed:
  assumes "ingest_event_snapshot E others src ext ty cs as at md corr (open_session d) = (Inr r, s)"
  shows "s = open_session (store s)"
  using assms
proof (cases rule: ingest_split [of "open_session d" src ext E others ty cs as at md corr])
  case (flush customer d0 account d1)
  with assms show ?thesis
    by (auto simp: flush_new_event_def complete_ingestion_def open_session_def commit_def rollback_def Let_def
        split: sum.splits option.splits prod.splits if_splits)
next
  case (existing e)
  with assms have "s = open_session d" by auto
  then show ?thesis by simp
qed simp

text \<open>C30. Two deliveries at once of an event about a new customer are not both answered: when the
  other session commits between the select and the insert of the customer, this one
  fails with the database error, unlike the same race on the event row, which is
  answered; it stores nothing of its own, and sending the event again gets the answer
  of the first delivery.\<close>

theorem new_customer_race:
  assumes "wf_db d" and "fair_scan E'" and "strict_columns E = strict_columns E'"
    and "find_existing_event d src ext = None" and "cs_external_id cs \<notin> cust_external_id ` set (customers d)"
    and "ingest_event_snapshot E' (\<lambda>x. x) src ext ty cs as at md corr' (open_session d) = (Inr r, s)"
  shows "\<exists>s'. ingest_event_between E (\<lambda>_. store s) others2 others3 others4 src ext ty cs as at md corr (open_session d)
        = (Inl IntegrityError, s')
      \<and> store s' = store s \<and> pending s' = store s
      \<and> ingest_event_between E (\<lambda>x. x) (\<lambda>x. x) others3 (\<lambda>x. x) src ext ty cs as at md corr (open_session (store s))
        = (Inr r, open_session (store s))"
proof -
  from fresh_run [OF assms(1,2,4,6)] obtain customer d0 where up: "upsert_customer E' cs d = (Inr customer, d0)"
    by metis
  have fits: "customer_fits (apply_customer_snapshot cs x)" if "strict_columns E" "cust_external_id x = cs_external_id cs" for x
    using upserted_snapshot_fits [OF up _ that(2)] that(1) assms(3) by simp
  have "cs_external_id cs \<in> set (map cust_external_id (customers (store s)))"
  proof (rule fresh_run_identities [OF assms(1,2,4,6)])
    fix i j
    assume "(\<lambda>c. (cust_id c, cust_external_id c)) ` set (customers (store s)) =
        insert (i, cs_external_id cs) ((\<lambda>c. (cust_id c, cust_external_id c)) ` set (customers d))"
    then have "(i, cs_external_id cs) \<in> (\<lambda>c. (cust_id c, cust_external_id c)) ` set (customers (store s))" by simp
    then show ?thesis by auto
  qed
  then have flush: "flush_customer E cs None (store s) = (Inl IntegrityError, store s)"
    using fits by (auto simp: flush_customer_def uuid4_def Let_def)
  have select: "find (\<lambda>c. cust_external_id c = cs_external_id cs) (customers d) = None"
    using assms(5) by (force simp: find_None_ball)
  have "ingest_event_between E (\<lambda>_. store s) others2 others3 others4 src ext ty cs as at md corr (open_session d)
      = (Inl IntegrityError, open_session (store s))"
    using assms(4) select flush by (simp add: ingest_event_between_def commit_elsewhere_def open_session_def)
  moreover have "ingest_event_between E (\<lambda>x. x) (\<lambda>x. x) others3 (\<lambda>x. x) src ext ty cs as at md corr (open_session (store s))
      = (Inr r, open_session (store s))"
    using ingest_again [OF assms(1,2,6)] success_committed [OF assms(6)] by (simp add: ingest_between_quiet)
  ultimately show ?thesis by simp
qed

text \<open>Both deliveries at an empty database.\<close>

theorem new_customer_race_witness:
  "\<exists>r s'. ingest_event_between sample_env (\<lambda>_. store (snd first_run)) (\<lambda>x. x) (\<lambda>x. x) (\<lambda>x. x) ''crm'' ''e1''
      ''payment_failed'' sample_cs sample_as (Aware (utc_datetime (start_now sample_env))) [] 5 (open_session empty_db)
      = (Inl IntegrityError, s')
    \<and> ingest_event_between sample_env (\<lambda>x. x) (\<lambda>x. x) (\<lambda>x. x) (\<lambda>x. x) ''crm'' ''e1''
      ''payment_failed'' sample_cs sample_as (Aware (utc_datetime (start_now sample_env))) [] 5 (open_session (pending s'))
      = (Inr r, open_session (pending s')) \<and> ir_created_tasks r = 2"
proof -
  obtain r where run: "sample_ingest (\<lambda>x. x) ''crm'' ''e1'' empty_db = (Inr r, snd first_run)"
    and r: "ir_created_tasks r = 2" by (rule first_run_Inr)
  have new: "find_existing_event empty_db ''crm'' ''e1'' = None"
      "cs_external_id sample_cs \<notin> cust_external_id ` set (customers empty_db)"
    by (simp_all add: find_existing_event_def empty_db_def)
  from new_customer_race [OF wf_empty fair_scan_sample refl new run, of "\<lambda>x. x" "\<lambda>x. x" "\<lambda>x. x" 5] r
  show ?thesis by (metis (no_types, lifting))
qed

end
