(* ===== verification/Dispatch.thy ===== *)
theory Dispatch
  imports Planner_Frame
begin

text \<open>
  \<open>src/orchestrator/channels/\<close> and \<open>workers/dispatch.py\<close>: the worker pass that claims due
  tasks, sends them through the adapter of their channel and records the outcome.

  The worker commits after the claim and after the outcome and works with nothing
  pending in between, so its steps are functions on the committed database.  An
  adapter is an argument: a function from the task to the text of the exception it
  raises or to a delivery result.  The record \<open>interference\<close> holds what other sessions
  commit before the claim of a task and while its provider is called.  An exception
  that leaves the pass stops it; what was committed before stays.
\<close>

section \<open>Channel adapters\<close>

record delivery_result =
  dr_provider_message_id :: string
  dr_details :: payload

type_synonym channel_adapter = "outreach_task \<Rightarrow> string + delivery_result"

definition mock_call_send :: channel_adapter where
  "mock_call_send t = Inr \<lparr>dr_provider_message_id = ''mock_call:'' @ uuid_str (task_id t),
     dr_details = [(''channel'', JStr ''call''), (''mock'', JBool True)]\<rparr>"

definition mock_email_send :: channel_adapter where
  "mock_email_send t = Inr \<lparr>dr_provider_message_id = ''mock_email:'' @ uuid_str (task_id t),
     dr_details = [(''channel'', JStr ''email''), (''mock'', JBool True)]\<rparr>"

definition mock_sms_send :: channel_adapter where
  "mock_sms_send t = Inr \<lparr>dr_provider_message_id = ''mock_sms:'' @ uuid_str (task_id t),
     dr_details = [(''channel'', JStr ''sms''), (''mock'', JBool True)]\<rparr>"

definition default_adapters :: "outreach_channel \<Rightarrow> channel_adapter option" where
  "default_adapters = [SMS \<mapsto> mock_sms_send, EMAIL \<mapsto> mock_email_send, CALL \<mapsto> mock_call_send]"

text \<open>\<open>adapters.get(...)\<close> and \<open>adapter.send(...)\<close> under the worker's handler.\<close>

definition send_task ::
  "(outreach_channel \<Rightarrow> channel_adapter option) \<Rightarrow> outreach_task \<Rightarrow> string + delivery_result" where
  "send_task adapters t =
     (case adapters (task_channel t) of
        None \<Rightarrow> Inl (''no adapter configured for channel: '' @ channel_value (task_channel t))
      | Some send \<Rightarrow> send t)"

section \<open>Selecting and claiming\<close>

fun dispatch_now :: "env \<Rightarrow> py_datetime option \<Rightarrow> datetime" where
  "dispatch_now E None = utc_datetime (start_now E)"
| "dispatch_now E (Some (Naive w)) = utc_datetime w"
| "dispatch_now E (Some (Aware dt)) = dt"

definition due :: "usec \<Rightarrow> outreach_task \<Rightarrow> bool" where
  "due now t \<longleftrightarrow> task_status t = SCHEDULED \<and> task_scheduled_at t \<le> now"

definition due_task_ids :: "env \<Rightarrow> usec \<Rightarrow> nat \<Rightarrow> db \<Rightarrow> uuid list" where
  "due_task_ids E now limit d =
     take limit (map task_id (sort_key (\<lambda>t. (task_scheduled_at t, task_created_at t))
       (scan_order E (filter (due now) (outreach_tasks d)))))"

text \<open>The conditional update: \<open>None\<close> when it did not match exactly one row.\<close>

definition claim_task :: "usec \<Rightarrow> uuid \<Rightarrow> db \<Rightarrow> db option" where
  "claim_task now i d =
     (let claimable = (\<lambda>t. task_id t = i \<and> due now t) in
      if rowcount claimable (outreach_tasks d) \<noteq> 1 then None
      else Some (d\<lparr>outreach_tasks := update_where claimable
             (\<lambda>t. t\<lparr>task_status := DISPATCHING, task_attempt_count := task_attempt_count t + 1\<rparr>)
             (outreach_tasks d)\<rparr>))"

definition worker_audit :: "env \<Rightarrow> string \<Rightarrow> outreach_task \<Rightarrow> string \<Rightarrow> payload \<Rightarrow> db \<Rightarrow> db" where
  "worker_audit E worker_id t event_type payload d =
     snd (append_audit_event E d ''outreach_task'' (uuid_str (task_id t)) event_type WORKER
       (task_correlation_id t) (Some worker_id) (Some payload))"

definition audit_dispatch_started :: "env \<Rightarrow> string \<Rightarrow> outreach_task \<Rightarrow> db \<Rightarrow> db" where
  "audit_dispatch_started E worker_id t d =
     worker_audit E worker_id t ''dispatch_started''
       [(''channel'', JStr (channel_value (task_channel t))),
        (''attempt_count'', JInt (task_attempt_count t))] d"

section \<open>Recording the outcome\<close>

definition dispatching :: "outreach_task \<Rightarrow> outreach_task \<Rightarrow> bool" where
  "dispatching t r \<longleftrightarrow> task_id r = task_id t \<and> task_status r = DISPATCHING"

definition record_success ::
  "env \<Rightarrow> string \<Rightarrow> outreach_task \<Rightarrow> delivery_result \<Rightarrow> db \<Rightarrow> db" where
  "record_success E worker_id t result d =
     (if rowcount (dispatching t) (outreach_tasks d) \<noteq> 1 then d
      else worker_audit E worker_id t ''dispatch_succeeded''
        [(''provider_message_id'', JStr (dr_provider_message_id result)),
         (''details'', JObj (dr_details result))]
        (d\<lparr>outreach_tasks := update_where (dispatching t)
             (\<lambda>r. r\<lparr>task_status := SENT, task_last_error := None\<rparr>) (outreach_tasks d)\<rparr>))"

definition record_failure ::
  "env \<Rightarrow> string \<Rightarrow> datetime \<Rightarrow> usec \<Rightarrow> outreach_task \<Rightarrow> string \<Rightarrow> db \<Rightarrow> py_error + db" where
  "record_failure E worker_id now retry_delay t err d =
     (let will_retry = task_attempt_count t < task_max_attempts t in
      case (if will_retry then map_sum id Some (dt_add now retry_delay) else Inr None) of
        Inl e \<Rightarrow> Inl e
      | Inr retry_scheduled_at \<Rightarrow>
          (let final_status = (if will_retry then SCHEDULED else FAILED);
               at = (case retry_scheduled_at of None \<Rightarrow> task_scheduled_at t | Some dt \<Rightarrow> instant dt)
           in if strict_columns E \<and> \<not> last_error_fits (Some err) then Inl DataError
              else if rowcount (dispatching t) (outreach_tasks d) \<noteq> 1 then Inr d
              else Inr (worker_audit E worker_id t ''dispatch_failed''
                [(''error'', JStr err), (''will_retry'', JBool will_retry),
                 (''retry_scheduled_at'', case retry_scheduled_at of None \<Rightarrow> JNull
                    | Some dt \<Rightarrow> JStr (isoformat dt)),
                 (''final_status'', JStr (task_status_value final_status))]
                (d\<lparr>outreach_tasks := update_where (dispatching t)
                   (\<lambda>r. r\<lparr>task_status := final_status, task_scheduled_at := at,
                      task_last_error := Some err\<rparr>) (outreach_tasks d)\<rparr>))))"

section \<open>The pass\<close>

record interference =
  before_claim :: "uuid \<Rightarrow> db \<Rightarrow> db"
  during_send :: "uuid \<Rightarrow> db \<Rightarrow> db"

definition no_interference :: interference where
  "no_interference = \<lparr>before_claim = (\<lambda>i d. d), during_send = (\<lambda>i d. d)\<rparr>"

record worker =
  wk_adapters :: "outreach_channel \<Rightarrow> channel_adapter option"
  wk_retry_delay :: usec
  wk_id :: string

definition default_worker :: worker where
  "default_worker = \<lparr>wk_adapters = default_adapters, wk_retry_delay = minutes 5,
     wk_id = ''dispatch-worker''\<rparr>"

text \<open>One turn of the loop: whether it attempted a send, and the committed database.\<close>

definition dispatch_task ::
  "env \<Rightarrow> worker \<Rightarrow> interference \<Rightarrow> datetime \<Rightarrow> uuid \<Rightarrow> db \<Rightarrow> (py_error + bool) \<times> db" where
  "dispatch_task E w I now i d0 =
     (let d = before_claim I i d0 in
      if find (\<lambda>t. task_id t = i) (outreach_tasks d) = None then (Inr False, d)
      else case claim_task (instant now) i d of
        None \<Rightarrow> (Inr False, d)
      | Some d1 \<Rightarrow>
          (case find (\<lambda>t. task_id t = i) (outreach_tasks d1) of
             None \<Rightarrow> (Inr False, d)
           | Some t \<Rightarrow>
               (let d2 = during_send I i (audit_dispatch_started E (wk_id w) t d1) in
                case send_task (wk_adapters w) t of
                  Inr result \<Rightarrow> (Inr True, record_success E (wk_id w) t result d2)
                | Inl err \<Rightarrow>
                    (case record_failure E (wk_id w) now (wk_retry_delay w) t err d2 of
                       Inl e \<Rightarrow> (Inl e, d2)
                     | Inr d3 \<Rightarrow> (Inr True, d3)))))"

fun dispatch_tasks ::
  "env \<Rightarrow> worker \<Rightarrow> interference \<Rightarrow> datetime \<Rightarrow> uuid list \<Rightarrow> nat \<Rightarrow> db \<Rightarrow> (py_error + nat) \<times> db" where
  "dispatch_tasks E w I now [] attempted d = (Inr attempted, d)"
| "dispatch_tasks E w I now (i # ids) attempted d =
     (case dispatch_task E w I now i d of
        (Inl e, d1) \<Rightarrow> (Inl e, d1)
      | (Inr sent, d1) \<Rightarrow>
          dispatch_tasks E w I now ids (if sent then Suc attempted else attempted) d1)"

definition dispatch_due_tasks ::
  "env \<Rightarrow> worker \<Rightarrow> interference \<Rightarrow> py_datetime option \<Rightarrow> nat \<Rightarrow> db \<Rightarrow> (py_error + nat) \<times> db" where
  "dispatch_due_tasks E w I now limit d =
     (let now' = dispatch_now E now in
      dispatch_tasks E w I now' (due_task_ids E (instant now') limit d) 0 d)"

end
