(* ===== verification/Dispatch_Facts.thy ===== *)
theory Dispatch_Facts
  imports Dispatch
begin

text \<open>
  What a worker pass promises: a task is claimed once, the steps of the pass respect
  the write interface whatever other sessions commit meanwhile, and the outcome of
  each attempt is what the adapter answered.
\<close>

section \<open>The steps as writes\<close>

lemma worker_audit_add:
  "worker_audit E w t ty p d = add_audit (audit_row E d ''outreach_task'' (uuid_str (task_id t)) ty WORKER
     (task_correlation_id t) (Some w) p) d"
  by (simp add: worker_audit_def append_audit_event_update add_audit_def)

lemma worker_audit_tasks [frame_simps]:
  "outreach_tasks (worker_audit E w t ty p d) = outreach_tasks d"
  by (simp add: worker_audit_add add_audit_def)

lemma claim_task_put:
  assumes "wf_db d" and "claim_task now i d = Some d1"
  obtains t where "t \<in> set (outreach_tasks d)" and "task_id t = i" and "due now t"
    and "d1 = put_task (t\<lparr>task_status := DISPATCHING, task_attempt_count := task_attempt_count t + 1\<rparr>) d"
proof -
  have rc: "rowcount (\<lambda>t. task_id t = i \<and> due now t) (outreach_tasks d) \<noteq> 0"
    and d1: "d1 = d\<lparr>outreach_tasks := update_where (\<lambda>t. task_id t = i \<and> due now t)
      (\<lambda>t. t\<lparr>task_status := DISPATCHING, task_attempt_count := task_attempt_count t + 1\<rparr>) (outreach_tasks d)\<rparr>"
    using assms(2) by (auto simp: claim_task_def Let_def split: if_splits)
  show thesis
    by (rule matched_put_row [OF wf_distinct(5) [OF assms(1)] rc,
          of "\<lambda>t. t\<lparr>task_status := DISPATCHING, task_attempt_count := task_attempt_count t + 1\<rparr>"])
      (use that d1 in \<open>auto simp: put_task_def\<close>)
qed

lemma find_task:
  assumes "wf_db d" and "find (\<lambda>t. task_id t = i) (outreach_tasks d) = Some t"
    and "r \<in> set (outreach_tasks d)" and "task_id r = i"
  shows "r = t"
  using key_row_unique [OF wf_distinct(5) [OF assms(1)] assms(3)] find_Some_in [OF assms(2)] assms(4) by simp

text \<open>The task a claim hands to the adapter.\<close>

lemma claimed_task:
  assumes "wf_db d" and "claim_task now i d = Some d1"
  obtains t where "t \<in> set (outreach_tasks d)" and "task_id t = i" and "due now t"
    and "d1 = put_task (t\<lparr>task_status := DISPATCHING, task_attempt_count := task_attempt_count t + 1\<rparr>) d"
    and "find (\<lambda>t. task_id t = i) (outreach_tasks d1) =
      Some (t\<lparr>task_status := DISPATCHING, task_attempt_count := task_attempt_count t + 1\<rparr>)"
    and "wf_db d1"
proof -
  from assms obtain t where t: "t \<in> set (outreach_tasks d)" "task_id t = i" "due now t"
    and d1: "d1 = put_task (t\<lparr>task_status := DISPATCHING, task_attempt_count := task_attempt_count t + 1\<rparr>) d"
    by (rule claim_task_put)
  let ?t = "t\<lparr>task_status := DISPATCHING, task_attempt_count := task_attempt_count t + 1\<rparr>"
  have step: "task_step t ?t"
    using t(3) by (auto simp: due_def task_step_def intro: worker_task_step.claim)
  have wf: "wf_db d1" unfolding d1 using assms(1) t(1) step by (rule wf_put_task)
  have "?t \<in> set (outreach_tasks d1)"
    using put_row_has [OF t(1), of task_id ?t] by (simp add: d1 put_task_def)
  then have "find (\<lambda>t. task_id t = i) (outreach_tasks d1) = Some ?t"
    using find_by_key [OF wf_distinct(5) [OF wf], of ?t] t(2) by simp
  with t d1 wf that show thesis by blast
qed

text \<open>What the other sessions must respect.\<close>

definition respectful :: "(db \<Rightarrow> db \<Rightarrow> bool) \<Rightarrow> interference \<Rightarrow> bool" where
  "respectful R I \<longleftrightarrow> (\<forall>i d. keeps R d (before_claim I i d) \<and> keeps R d (during_send I i d)
     \<and> keeps (claim_kept i) d (during_send I i d))"

lemma record_failure_cases:
  assumes "record_failure E w now delay t err d = Inr d'"
  obtains (lost) "d' = d" and "rowcount (dispatching t) (outreach_tasks d) \<noteq> 1"
  | (retry) at row_payload where "task_attempt_count t < task_max_attempts t"
      and "dt_add now delay = Inr at" and "rowcount (dispatching t) (outreach_tasks d) = 1"
      and "map_of row_payload ''inbound_event_id'' = None"
      and "d' = worker_audit E w t ''dispatch_failed'' row_payload
        (d\<lparr>outreach_tasks := update_where (dispatching t) (\<lambda>r. r\<lparr>task_status := SCHEDULED,
           task_scheduled_at := instant at, task_last_error := Some err\<rparr>) (outreach_tasks d)\<rparr>)"
  | (exhausted) row_payload where "\<not> task_attempt_count t < task_max_attempts t"
      and "rowcount (dispatching t) (outreach_tasks d) = 1"
      and "map_of row_payload ''inbound_event_id'' = None"
      and "d' = worker_audit E w t ''dispatch_failed'' row_payload
        (d\<lparr>outreach_tasks := update_where (dispatching t) (\<lambda>r. r\<lparr>task_status := FAILED,
           task_scheduled_at := task_scheduled_at t, task_last_error := Some err\<rparr>) (outreach_tasks d)\<rparr>)"
proof (cases "task_attempt_count t < task_max_attempts t")
  case True
  let ?p = "\<lambda>at. [(''error'', JStr err), (''will_retry'', JBool True),
    (''retry_scheduled_at'', JStr (isoformat at)), (''final_status'', JStr (task_status_value SCHEDULED))]"
  show thesis
  proof (cases "rowcount (dispatching t) (outreach_tasks d) = 1")
    case matched: True
    from assms True matched obtain at where at: "dt_add now delay = Inr at"
      and d': "d' = worker_audit E w t ''dispatch_failed'' (?p at)
        (d\<lparr>outreach_tasks := update_where (dispatching t) (\<lambda>r. r\<lparr>task_status := SCHEDULED,
           task_scheduled_at := instant at, task_last_error := Some err\<rparr>) (outreach_tasks d)\<rparr>)"
      by (cases "dt_add now delay") (auto simp: record_failure_def Let_def split: if_splits)
    show thesis by (rule retry [OF True at matched _ d']) simp
  next
    case False
    with assms True show thesis
      by (intro lost; cases "dt_add now delay") (auto simp: record_failure_def Let_def split: if_splits)
  qed
next
  case False
  let ?p = "[(''error'', JStr err), (''will_retry'', JBool False),
    (''retry_scheduled_at'', JNull), (''final_status'', JStr (task_status_value FAILED))]"
  show thesis
  proof (cases "rowcount (dispatching t) (outreach_tasks d) = 1")
    case matched: True
    from assms False matched have d': "d' = worker_audit E w t ''dispatch_failed'' ?p
        (d\<lparr>outreach_tasks := update_where (dispatching t) (\<lambda>r. r\<lparr>task_status := FAILED,
           task_scheduled_at := task_scheduled_at t, task_last_error := Some err\<rparr>) (outreach_tasks d)\<rparr>)"
      by (auto simp: record_failure_def Let_def split: if_splits)
    show thesis by (rule exhausted [OF False matched _ d']) simp
  next
    case unmatched: False
    with assms False show thesis
      by (intro lost) (auto simp: record_failure_def Let_def split: if_splits)
  qed
qed

text \<open>A matched outcome update replaces the row of the claimed task.\<close>

lemma dispatching_put:
  assumes "wf_db d" and "rowcount (dispatching t) (outreach_tasks d) = 1" and "\<And>r. task_id (f r) = task_id r"
  obtains r where "r \<in> set (outreach_tasks d)" and "task_id r = task_id t" and "task_status r = DISPATCHING"
    and "d\<lparr>outreach_tasks := update_where (dispatching t) f (outreach_tasks d)\<rparr> = put_task (f r) d"
proof -
  have eq: "dispatching t = (\<lambda>r. task_id r = task_id t \<and> task_status r = DISPATCHING)"
    by (simp add: dispatching_def fun_eq_iff)
  have "rowcount (\<lambda>r. task_id r = task_id t \<and> task_status r = DISPATCHING) (outreach_tasks d) \<noteq> 0"
    using assms(2) by (simp add: eq)
  then show thesis
    by (rule matched_put_row [OF wf_distinct(5) [OF assms(1)] _ assms(3)])
      (use that in \<open>auto simp: eq put_task_def\<close>)
qed

section \<open>The pass respects what its writes respect\<close>

context db_frame
begin

lemma frame_worker_audit:
  "map_of p ''inbound_event_id'' = None \<Longrightarrow> ty \<noteq> ''dispatch_started'' \<Longrightarrow> keeps R d (worker_audit E w t ty p d)"
  unfolding worker_audit_add by (rule keeps_audit) (simp_all add: audit_ok_def)

lemma frame_claim:
  assumes "claim_task now i d = Some d1" and "find (\<lambda>t. task_id t = i) (outreach_tasks d1) = Some t"
  shows "keeps R d (audit_dispatch_started E w t d1)"
proof (cases "wf_db d")
  case True
  from True assms(1) obtain t0 where t0: "t0 \<in> set (outreach_tasks d)" "task_id t0 = i" "due now t0"
      "d1 = put_task (t0\<lparr>task_status := DISPATCHING, task_attempt_count := task_attempt_count t0 + 1\<rparr>) d"
    and t: "find (\<lambda>t. task_id t = i) (outreach_tasks d1) =
      Some (t0\<lparr>task_status := DISPATCHING, task_attempt_count := task_attempt_count t0 + 1\<rparr>)"
    by (rule claimed_task)
  have "task_id t = task_id t0" using t assms(2) by simp
  then show ?thesis
    unfolding audit_dispatch_started_def worker_audit_add t0(4)
    using t0(1,3) by (intro keeps_logged_claim [of t0]) (simp_all add: due_def audit_ok_def put_task_def)
qed (simp add: keeps_def)

lemma frame_outcome:
  assumes "rowcount (dispatching t) (outreach_tasks d) = 1" and "\<And>r. task_id (f r) = task_id r"
    and "\<And>r. wf_db d \<Longrightarrow> r \<in> set (outreach_tasks d) \<Longrightarrow> task_id r = task_id t \<Longrightarrow>
      task_status r = DISPATCHING \<Longrightarrow> worker_task_step r (f r)"
    and "map_of p ''inbound_event_id'' = None" and "ty \<noteq> ''dispatch_started''"
  shows "keeps R d (worker_audit E w t' ty p
    (d\<lparr>outreach_tasks := update_where (dispatching t) f (outreach_tasks d)\<rparr>))"
proof (cases "wf_db d")
  case True
  let ?d = "d\<lparr>outreach_tasks := update_where (dispatching t) f (outreach_tasks d)\<rparr>"
  from True assms(1,2) obtain r where "r \<in> set (outreach_tasks d)" "task_id r = task_id t"
      "task_status r = DISPATCHING" "?d = put_task (f r) d"
    by (rule dispatching_put)
  then have "keeps R d ?d"
    using assms(3) [OF True] by (auto intro: keeps_outcome_change [of d r])
  moreover have "keeps R ?d (worker_audit E w t' ty p ?d)" using assms(4,5) by (rule frame_worker_audit)
  ultimately show ?thesis by (rule keeps_trans)
qed (simp add: keeps_def)

lemma frame_record_success: "keeps R d (record_success E w t result d)"
  unfolding record_success_def
  by (auto intro!: frame_outcome worker_task_step.sent)

lemma frame_record_failure:
  assumes "record_failure E w now delay t err d = Inr d'"
    and "\<And>r. wf_db d \<Longrightarrow> r \<in> set (outreach_tasks d) \<Longrightarrow> task_id r = task_id t \<Longrightarrow>
      task_status r = DISPATCHING \<Longrightarrow> r = t"
  shows "keeps R d d'"
  using assms(1)
proof (cases rule: record_failure_cases)
  case lost
  then show ?thesis by simp
next
  case (retry at p)
  show ?thesis unfolding retry(5)
    using retry(1,3,4) assms(2) by (intro frame_outcome) (auto intro!: worker_task_step.retry)
next
  case (exhausted p)
  show ?thesis unfolding exhausted(4)
    using exhausted(1,2,3) assms(2) by (intro frame_outcome) (auto dest!: assms(2) intro!: worker_task_step.exhausted)
qed

lemma frame_dispatch_task:
  assumes "respectful R I" and "dispatch_task E w I now i d0 = (res, d')"
  shows "keeps R d0 d'"
proof (cases "wf_db d0")
  case False
  then show ?thesis by (simp add: keeps_def)
next
  case wf0: True
  let ?d = "before_claim I i d0"
  have k0: "keeps R d0 ?d" using assms(1) by (simp add: respectful_def)
  then have wf: "wf_db ?d" using wf0 by (simp add: keeps_def)
  show ?thesis
  proof (cases "find (\<lambda>t. task_id t = i) (outreach_tasks ?d) = None \<or> claim_task (instant now) i ?d = None")
    case True
    then have "d' = ?d" using assms(2) by (auto simp: dispatch_task_def Let_def split: option.splits)
    then show ?thesis using k0 by simp
  next
    case False
    then obtain d1 where claim: "claim_task (instant now) i ?d = Some d1" by blast
    from wf claim obtain t0 where t0: "find (\<lambda>t. task_id t = i) (outreach_tasks d1) =
        Some (t0\<lparr>task_status := DISPATCHING, task_attempt_count := task_attempt_count t0 + 1\<rparr>)"
      and wf1: "wf_db d1" by (rule claimed_task)
    define t where "t = t0\<lparr>task_status := DISPATCHING, task_attempt_count := task_attempt_count t0 + 1\<rparr>"
    have t: "find (\<lambda>t. task_id t = i) (outreach_tasks d1) = Some t" "task_status t = DISPATCHING"
      using t0 by (simp_all add: t_def)
    note t_in = find_Some_in [OF t(1)]
    let ?d1 = "audit_dispatch_started E (wk_id w) t d1"
    let ?d2 = "during_send I i ?d1"
    have k1: "keeps R ?d ?d1" using claim t(1) by (rule frame_claim)
    have k2: "keeps R ?d1 ?d2" using assms(1) by (simp add: respectful_def)
    have k: "keeps R d0 ?d2" using k0 k1 k2 by (meson keeps_trans)
    have wf2: "wf_db ?d1" "wf_db ?d2" using wf k1 k2 by (simp_all add: keeps_def)
    have kept: "claim_kept i ?d1 ?d2" using assms(1) wf2(1) by (simp add: respectful_def keeps_def)
    have "t \<in> set (outreach_tasks ?d1)" using t_in by (simp add: audit_dispatch_started_def frame_simps)
    then obtain t' where t': "t' \<in> set (outreach_tasks ?d2)" "task_id t' = i"
        "t' = t \<or> task_status t' \<in> {SENT, FAILED, CANCELLED}"
      using kept t_in t(2) unfolding claim_kept_def by fastforce
    have same: "r = t" if "r \<in> set (outreach_tasks ?d2)" "task_id r = task_id t" "task_status r = DISPATCHING" for r
      using key_row_unique [OF wf_distinct(5) [OF wf2(2)] that(1) t'(1)] that t' t_in by auto
    have run: "dispatch_task E w I now i d0 =
        (case send_task (wk_adapters w) t of
           Inr result \<Rightarrow> (Inr True, record_success E (wk_id w) t result ?d2)
         | Inl err \<Rightarrow> (case record_failure E (wk_id w) now (wk_retry_delay w) t err ?d2 of
             Inl e \<Rightarrow> (Inl e, ?d2) | Inr d3 \<Rightarrow> (Inr True, d3)))"
      using False claim t(1) by (auto simp: dispatch_task_def Let_def)
    have "keeps R ?d2 d'"
      using assms(2) unfolding run
      by (auto simp: frame_record_success split: sum.splits intro: frame_record_failure same)
    with k show ?thesis by (rule keeps_trans)
  qed
qed

lemma frame_dispatch_tasks:
  "respectful R I \<Longrightarrow> keeps R d (snd (dispatch_tasks E w I now ids n d))"
proof (induction ids arbitrary: n d)
  case Nil
  then show ?case by simp
next
  case (Cons i ids)
  obtain res d1 where run: "dispatch_task E w I now i d = (res, d1)" by fastforce
  have k: "keeps R d d1" using Cons.prems run by (rule frame_dispatch_task)
  show ?case
  proof (cases res)
    case (Inl e)
    with run k show ?thesis by simp
  next
    case (Inr sent)
    have "keeps R d1 (snd (dispatch_tasks E w I now ids (if sent then Suc n else n) d1))"
      using Cons.prems by (rule Cons.IH)
    with k have "keeps R d (snd (dispatch_tasks E w I now ids (if sent then Suc n else n) d1))"
      by (rule keeps_trans)
    with Inr run show ?thesis by simp
  qed
qed

theorem frame_dispatch_due_tasks:
  "respectful R I \<Longrightarrow> keeps R d (snd (dispatch_due_tasks E w I now limit d))"
  unfolding dispatch_due_tasks_def Let_def by (rule frame_dispatch_tasks)

end

end
