(* ===== verification/Dispatch_Properties.thy ===== *)
theory Dispatch_Properties
  imports Dispatch_Facts
begin

text \<open>
  The functional behaviour of the worker: what one attempt does to its task, as a
  specification the step is shown to implement; which tasks a pass picks and how many
  it attempts; and what an oversized provider error does to the pass.
\<close>

section \<open>One attempt\<close>

definition claimed :: "outreach_task \<Rightarrow> outreach_task" where
  "claimed t = t\<lparr>task_status := DISPATCHING, task_attempt_count := task_attempt_count t + 1\<rparr>"

text \<open>
  The specification of an attempt on a due task: the row it leaves, or the exception
  that computing the retry time raises.
\<close>

definition attempt :: "worker \<Rightarrow> datetime \<Rightarrow> outreach_task \<Rightarrow> py_error + outreach_task" where
  "attempt w now t =
     (case send_task (wk_adapters w) (claimed t) of
        Inr _ \<Rightarrow> Inr ((claimed t)\<lparr>task_status := SENT, task_last_error := None\<rparr>)
      | Inl err \<Rightarrow>
          if task_attempt_count t + 1 < task_max_attempts t
          then map_sum id (\<lambda>at. (claimed t)\<lparr>task_status := SCHEDULED, task_scheduled_at := instant at,
                 task_last_error := Some err\<rparr>) (dt_add now (wk_retry_delay w))
          else Inr ((claimed t)\<lparr>task_status := FAILED, task_last_error := Some err\<rparr>))"

definition error_fits :: "env \<Rightarrow> worker \<Rightarrow> outreach_task \<Rightarrow> bool" where
  "error_fits E w t \<longleftrightarrow> (\<forall>err. send_task (wk_adapters w) t = Inl err \<longrightarrow>
     \<not> strict_columns E \<or> last_error_fits (Some err))"

lemma put_row_twice:
  "key r2 = key r1 \<Longrightarrow> put_row key r2 (put_row key r1 rows) = put_row key r2 rows"
  by (induction rows) (auto simp: put_row_def)

lemma claimed_fields [simp]:
  "task_id (claimed t) = task_id t" "task_status (claimed t) = DISPATCHING"
  "task_attempt_count (claimed t) = task_attempt_count t + 1"
  "task_max_attempts (claimed t) = task_max_attempts t"
  "task_scheduled_at (claimed t) = task_scheduled_at t"
  by (simp_all add: claimed_def)

lemma claimed_same_time:
  "(claimed t)\<lparr>task_status := st, task_scheduled_at := task_scheduled_at t, task_last_error := e\<rparr> =
     (claimed t)\<lparr>task_status := st, task_last_error := e\<rparr>"
  by (cases t) (simp add: claimed_def)

lemma no_interference_id [simp]:
  "before_claim no_interference i d = d" "during_send no_interference i d = d"
  by (simp_all add: no_interference_def)

lemma claim_due:
  assumes "wf_db d" and "t \<in> set (outreach_tasks d)" and "due now t"
  shows "claim_task now (task_id t) d = Some (put_task (claimed t) d)"
proof -
  have "rowcount (\<lambda>r. task_id r = task_id t \<and> due now r) (outreach_tasks d) = 1"
    using wf_distinct(5) [OF assms(1)] assms(2,3) by (rule rowcount_by_key)
  then obtain d1 where d1: "claim_task now (task_id t) d = Some d1" by (simp add: claim_task_def)
  from assms(1) d1 obtain r where r: "r \<in> set (outreach_tasks d)" "task_id r = task_id t"
      "d1 = put_task (r\<lparr>task_status := DISPATCHING, task_attempt_count := task_attempt_count r + 1\<rparr>) d"
    by (rule claim_task_put)
  then have "r = t" using key_row_unique [OF wf_distinct(5) [OF assms(1)] r(1) assms(2)] by simp
  with r d1 show ?thesis by (simp add: claimed_def)
qed

lemma dispatch_due_task:
  assumes "wf_db d" and "t \<in> set (outreach_tasks d)" and "due (instant now) t"
  shows "dispatch_task E w no_interference now (task_id t) d =
    (let d2 = audit_dispatch_started E (wk_id w) (claimed t) (put_task (claimed t) d) in
     case send_task (wk_adapters w) (claimed t) of
       Inr result \<Rightarrow> (Inr True, record_success E (wk_id w) (claimed t) result d2)
     | Inl err \<Rightarrow> (case record_failure E (wk_id w) now (wk_retry_delay w) (claimed t) err d2 of
         Inl e \<Rightarrow> (Inl e, d2) | Inr d3 \<Rightarrow> (Inr True, d3)))"
proof -
  note claim = claim_due [OF assms]
  have found: "find (\<lambda>r. task_id r = task_id t) (outreach_tasks d) = Some t"
    using find_by_key [OF wf_distinct(5) [OF assms(1)] assms(2)] .
  from assms(1) claim obtain r where r: "r \<in> set (outreach_tasks d)" "task_id r = task_id t"
      "find (\<lambda>r. task_id r = task_id t) (outreach_tasks (put_task (claimed t) d)) =
         Some (r\<lparr>task_status := DISPATCHING, task_attempt_count := task_attempt_count r + 1\<rparr>)"
    by (rule claimed_task)
  have "r = t" using key_row_unique [OF wf_distinct(5) [OF assms(1)] r(1) assms(2)] r(2) by simp
  with r(3) have "find (\<lambda>r. task_id r = task_id t) (outreach_tasks (put_task (claimed t) d)) = Some (claimed t)"
    by (simp add: claimed_def)
  with claim found show ?thesis by (simp add: dispatch_task_def Let_def)
qed

text \<open>The outcome update on the table after the claim.\<close>

lemma outcome_after_claim:
  assumes "wf_db d" and "t \<in> set (outreach_tasks d)" and "due now t"
    and "\<And>r. task_id (f r) = task_id r"
  shows "rowcount (dispatching (claimed t)) (put_row task_id (claimed t) (outreach_tasks d)) = 1"
    and "update_where (dispatching (claimed t)) f (put_row task_id (claimed t) (outreach_tasks d)) =
      put_row task_id (f (claimed t)) (outreach_tasks d)"
proof -
  let ?rows = "put_row task_id (claimed t) (outreach_tasks d)"
  have eq: "dispatching (claimed t) = (\<lambda>r. task_id r = task_id (claimed t) \<and> task_status r = DISPATCHING)"
    by (simp add: dispatching_def fun_eq_iff)
  have "map task_id ?rows = map task_id (outreach_tasks d)"
    using wf_distinct(5) [OF assms(1)] assms(2) by (rule map_put_row) simp_all
  then have dist: "distinct (map task_id ?rows)" using wf_distinct(5) [OF assms(1)] by simp
  have mem: "claimed t \<in> set ?rows" using put_row_has [OF assms(2), of task_id "claimed t"] by simp
  show one: "rowcount (dispatching (claimed t)) ?rows = 1"
    unfolding eq using dist mem by (rule rowcount_by_key) simp
  have "update_where (dispatching (claimed t)) f ?rows = update_where (\<lambda>r. task_id r = task_id (claimed t)) f ?rows"
    using key_row_unique [OF dist _ mem] by (intro update_where_cong) (force simp: eq)
  also have "\<dots> = put_row task_id (f (claimed t)) ?rows"
    using dist mem assms(4) by (rule update_where_put_row)
  also have "\<dots> = put_row task_id (f (claimed t)) (outreach_tasks d)"
    using assms(4) by (intro put_row_twice) simp
  finally show "update_where (dispatching (claimed t)) f ?rows = put_row task_id (f (claimed t)) (outreach_tasks d)" .
qed

lemma dispatch_attempt:
  assumes "wf_db d" and "t \<in> set (outreach_tasks d)" and "due (instant now) t"
    and "error_fits E w (claimed t)" and "attempt w now t = Inr t'"
  shows "\<exists>d' r1 r2. dispatch_task E w no_interference now (task_id t) d = (Inr True, d')
    \<and> outreach_tasks d' = put_row task_id t' (outreach_tasks d)
    \<and> audit_events d' = audit_events d @ [r1, r2]
    \<and> ae_event_type r1 = ''dispatch_started''
    \<and> ae_event_type r2 = (if task_status t' = SENT then ''dispatch_succeeded'' else ''dispatch_failed'')
    \<and> ae_entity_id r1 = uuid_str (task_id t) \<and> ae_entity_id r2 = uuid_str (task_id t)
    \<and> customers d' = customers d \<and> accounts d' = accounts d \<and> policy_decisions d' = policy_decisions d"
proof (cases "send_task (wk_adapters w) (claimed t)")
  case (Inr result)
  then show ?thesis
    using assms(5) outcome_after_claim [OF assms(1-3), of "\<lambda>r. r\<lparr>task_status := SENT, task_last_error := None\<rparr>"]
    unfolding dispatch_due_task [OF assms(1-3)]
    by (auto simp: attempt_def Let_def record_success_def worker_audit_add audit_dispatch_started_def add_audit_def
        put_task_def)
next
  case (Inl err)
  have fits: "\<not> strict_columns E \<or> last_error_fits (Some err)" using assms(4) Inl by (simp add: error_fits_def)
  show ?thesis
  proof (cases "task_attempt_count t + 1 < task_max_attempts t")
    case True
    then obtain at where "dt_add now (wk_retry_delay w) = Inr at"
        "t' = (claimed t)\<lparr>task_status := SCHEDULED, task_scheduled_at := instant at, task_last_error := Some err\<rparr>"
      using assms(5) Inl by (cases "dt_add now (wk_retry_delay w)") (auto simp: attempt_def)
    then show ?thesis
      using Inl True fits outcome_after_claim [OF assms(1-3), of "\<lambda>r. r\<lparr>task_status := SCHEDULED,
        task_scheduled_at := instant at, task_last_error := Some err\<rparr>"]
      unfolding dispatch_due_task [OF assms(1-3)]
      by (auto simp: Let_def record_failure_def worker_audit_add audit_dispatch_started_def add_audit_def put_task_def)
  next
    case False
    then have "t' = (claimed t)\<lparr>task_status := FAILED, task_last_error := Some err\<rparr>"
      using assms(5) Inl by (simp add: attempt_def)
    then show ?thesis
      using Inl False fits outcome_after_claim [OF assms(1-3), of "\<lambda>r. r\<lparr>task_status := FAILED,
        task_scheduled_at := task_scheduled_at t, task_last_error := Some err\<rparr>"]
      unfolding dispatch_due_task [OF assms(1-3)]
      by (auto simp: Let_def record_failure_def worker_audit_add audit_dispatch_started_def add_audit_def put_task_def
          claimed_same_time)
  qed
qed

text \<open>C19. One attempt does what its specification says: a due task that the worker alone
  works on is sent, scheduled again after the retry delay, or failed for good when its
  attempts are used up, exactly as the adapter answers; only its row changes, and the
  start and the outcome have one audit row each.\<close>

theorem dispatch_implements_attempt:
  assumes "wf_db d" and "t \<in> set (outreach_tasks d)" and "due (instant now) t"
    and "error_fits E w (claimed t)" and "attempt w now t = Inr t'"
  shows "\<exists>d' r1 r2. dispatch_task E w no_interference now (task_id t) d = (Inr True, d')
    \<and> outreach_tasks d' = put_row task_id t' (outreach_tasks d)
    \<and> audit_events d' = audit_events d @ [r1, r2]
    \<and> ae_event_type r1 = ''dispatch_started''
    \<and> ae_event_type r2 = (if task_status t' = SENT then ''dispatch_succeeded'' else ''dispatch_failed'')
    \<and> ae_entity_id r1 = uuid_str (task_id t) \<and> ae_entity_id r2 = uuid_str (task_id t)
    \<and> customers d' = customers d \<and> accounts d' = accounts d \<and> policy_decisions d' = policy_decisions d"
  using dispatch_attempt [OF assms] .

text \<open>C21. A task that is not scheduled and due at the moment of the claim is not sent: the
  worker moves on, whatever its adapters are, and leaves what the others committed.\<close>

theorem not_due_not_sent:
  assumes "\<forall>t\<in>set (outreach_tasks (before_claim I i d)). task_id t = i \<longrightarrow>
      task_status t \<noteq> SCHEDULED \<or> instant now < task_scheduled_at t"
  shows "dispatch_task E w I now i d = (Inr False, before_claim I i d)"
proof -
  have "rowcount (\<lambda>t. task_id t = i \<and> due (instant now) t) (outreach_tasks (before_claim I i d)) = 0"
    using assms by (force simp: rowcount_zero_iff due_def)
  then show ?thesis by (simp add: dispatch_task_def claim_task_def Let_def)
qed

section \<open>Which tasks a pass picks\<close>

lemma sorted_take_drop:
  assumes "sorted (map f xs)" and "x \<in> set (take n xs)" and "y \<in> set (drop n xs)"
  shows "f x \<le> f y"
  using assms append_take_drop_id [of n xs] sorted_append [of "map f (take n xs)" "map f (drop n xs)"]
  by (metis (mono_tags, lifting) image_eqI list.set_map map_append)

lemma due_task_ids_due:
  assumes "wf_db d" and "fair_scan E"
  shows "distinct (due_task_ids E now limit d)"
    and "\<forall>i\<in>set (due_task_ids E now limit d). \<exists>t\<in>set (outreach_tasks d). task_id t = i \<and> due now t"
    and "length (due_task_ids E now limit d) = min limit (rowcount (due now) (outreach_tasks d))"
proof -
  let ?ts = "sort_key (\<lambda>t. (task_scheduled_at t, task_created_at t))
    (scan_order E (filter (due now) (outreach_tasks d)))"
  have m: "mset ?ts = mset (filter (due now) (outreach_tasks d))"
    using assms(2) by (simp add: fair_scan_def)
  then have set: "set ?ts = {t \<in> set (outreach_tasks d). due now t}" by (metis mset_eq_setD set_filter)
  have "mset (map task_id ?ts) = mset (map task_id (filter (due now) (outreach_tasks d)))"
    using m by (metis mset_map)
  then have "distinct (map task_id ?ts)"
    using wf_distinct(5) [OF assms(1)] mset_eq_imp_distinct_iff distinct_map_filter by blast
  then show "distinct (due_task_ids E now limit d)" unfolding due_task_ids_def by (rule distinct_take)
  show "\<forall>i\<in>set (due_task_ids E now limit d). \<exists>t\<in>set (outreach_tasks d). task_id t = i \<and> due now t"
    using set by (auto simp: due_task_ids_def take_map dest!: in_set_takeD)
  have "length ?ts = rowcount (due now) (outreach_tasks d)"
    using arg_cong [OF m, of size] unfolding size_mset by (simp only: rowcount_def)
  then show "length (due_task_ids E now limit d) = min limit (rowcount (due now) (outreach_tasks d))"
    by (simp add: due_task_ids_def)
qed

text \<open>A pass picks due tasks only, none twice, as many as the limit allows, and the
  earliest: no due task it leaves out was scheduled before one it picks.\<close>

lemma due_selection:
  assumes "wf_db d" and "fair_scan E"
  shows "distinct (due_task_ids E now limit d)
    \<and> length (due_task_ids E now limit d) = min limit (rowcount (due now) (outreach_tasks d))
    \<and> (\<forall>i\<in>set (due_task_ids E now limit d). \<exists>t\<in>set (outreach_tasks d). task_id t = i \<and> due now t
        \<and> (\<forall>u\<in>set (outreach_tasks d). due now u \<and> task_id u \<notin> set (due_task_ids E now limit d)
             \<longrightarrow> task_scheduled_at t \<le> task_scheduled_at u))"
proof -
  let ?key = "\<lambda>t. (task_scheduled_at t, task_created_at t)"
  let ?ts = "sort_key ?key (scan_order E (filter (due now) (outreach_tasks d)))"
  have ids: "due_task_ids E now limit d = take limit (map task_id ?ts)" by (simp add: due_task_ids_def)
  have m: "mset ?ts = mset (filter (due now) (outreach_tasks d))"
    using assms(2) by (simp add: fair_scan_def)
  then have set: "set ?ts = {t \<in> set (outreach_tasks d). due now t}" by (metis mset_eq_setD set_filter)
  have "\<exists>t\<in>set (outreach_tasks d). task_id t = i \<and> due now t
        \<and> (\<forall>u\<in>set (outreach_tasks d). due now u \<and> task_id u \<notin> set (due_task_ids E now limit d)
             \<longrightarrow> task_scheduled_at t \<le> task_scheduled_at u)"
    if i: "i \<in> set (due_task_ids E now limit d)" for i
  proof -
    obtain t where t: "t \<in> set (take limit ?ts)" "task_id t = i"
      using i unfolding ids by (auto simp: take_map)
    have "task_scheduled_at t \<le> task_scheduled_at u"
      if u: "u \<in> set (outreach_tasks d)" "due now u" "task_id u \<notin> set (due_task_ids E now limit d)" for u
    proof -
      have "u \<in> set ?ts" using u set by blast
      moreover have "u \<notin> set (take limit ?ts)" using u(3) unfolding ids by (auto simp: take_map)
      ultimately have "u \<in> set (drop limit ?ts)" by (metis Un_iff append_take_drop_id set_append)
      then have "?key t \<le> ?key u" using sorted_take_drop [of ?key ?ts t limit u] t(1) by simp
      then show ?thesis by (auto simp: less_eq_prod_def)
    qed
    moreover have "t \<in> set (outreach_tasks d)" "due now t"
      using set in_set_takeD [OF t(1)] by blast+
    ultimately show ?thesis using t(2) by blast
  qed
  with due_task_ids_due(1,3) [OF assms] show ?thesis by simp
qed

section \<open>The whole pass\<close>

lemma dispatch_task_rows:
  assumes "wf_db d" and "t \<in> set (outreach_tasks d)" and "due (instant now) t"
    and "dispatch_task E w no_interference now (task_id t) d = (Inr b, d')"
  shows "b" and "\<exists>t'. task_id t' = task_id t \<and> outreach_tasks d' = put_row task_id t' (outreach_tasks d)"
proof -
  let ?d2 = "audit_dispatch_started E (wk_id w) (claimed t) (put_task (claimed t) d)"
  have tasks: "outreach_tasks ?d2 = put_row task_id (claimed t) (outreach_tasks d)"
    by (simp add: audit_dispatch_started_def frame_simps put_task_def)
  note out = outcome_after_claim [OF assms(1-3)]
  have one: "rowcount (dispatching (claimed t)) (outreach_tasks ?d2) = 1"
    unfolding tasks by (rule out(1) [of "\<lambda>r. r"]) simp
  have "b \<and> (\<exists>t'. task_id t' = task_id t \<and> outreach_tasks d' = put_row task_id t' (outreach_tasks d))"
  proof (cases "send_task (wk_adapters w) (claimed t)")
    case (Inr result)
    then have "b" and d': "d' = record_success E (wk_id w) (claimed t) result ?d2"
      using assms(4) unfolding dispatch_due_task [OF assms(1-3)] by (auto simp: Let_def)
    moreover have "outreach_tasks d' =
        put_row task_id ((claimed t)\<lparr>task_status := SENT, task_last_error := None\<rparr>) (outreach_tasks d)"
      using one out(2) [of "\<lambda>r. r\<lparr>task_status := SENT, task_last_error := None\<rparr>"]
      by (simp add: d' record_success_def frame_simps tasks)
    ultimately show ?thesis by (intro conjI exI) simp_all
  next
    case (Inl err)
    then have "b" and fail: "record_failure E (wk_id w) now (wk_retry_delay w) (claimed t) err ?d2 = Inr d'"
      using assms(4) unfolding dispatch_due_task [OF assms(1-3)] by (auto simp: Let_def split: sum.splits)
    from fail have "\<exists>t'. task_id t' = task_id t \<and> outreach_tasks d' = put_row task_id t' (outreach_tasks d)"
    proof (cases rule: record_failure_cases)
      case lost
      with one show ?thesis by simp
    next
      case (retry at p)
      have "outreach_tasks d' = put_row task_id ((claimed t)\<lparr>task_status := SCHEDULED,
          task_scheduled_at := instant at, task_last_error := Some err\<rparr>) (outreach_tasks d)"
        using out(2) [of "\<lambda>r. r\<lparr>task_status := SCHEDULED, task_scheduled_at := instant at,
          task_last_error := Some err\<rparr>"] by (simp add: retry(5) frame_simps tasks)
      then show ?thesis by (intro exI conjI) simp_all
    next
      case (exhausted p)
      have "outreach_tasks d' = put_row task_id ((claimed t)\<lparr>task_status := FAILED,
          task_scheduled_at := task_scheduled_at (claimed t), task_last_error := Some err\<rparr>) (outreach_tasks d)"
        using out(2) [of "\<lambda>r. r\<lparr>task_status := FAILED, task_scheduled_at := task_scheduled_at (claimed t),
          task_last_error := Some err\<rparr>"] by (simp add: exhausted(4) frame_simps tasks)
      then show ?thesis by (intro exI conjI) simp_all
    qed
    with \<open>b\<close> show ?thesis by simp
  qed
  then show "b" "\<exists>t'. task_id t' = task_id t \<and> outreach_tasks d' = put_row task_id t' (outreach_tasks d)"
    by auto
qed

lemma respectful_no_interference: "respectful history_kept no_interference"
  by (simp add: respectful_def history.keeps_refl claims.keeps_refl)

lemma dispatch_tasks_count:
  assumes "wf_db d" and "distinct ids"
    and "\<forall>i\<in>set ids. \<exists>t\<in>set (outreach_tasks d). task_id t = i \<and> due (instant now) t"
    and "dispatch_tasks E w no_interference now ids n d = (Inr m, d')"
  shows "m = n + length ids \<and> (\<forall>t\<in>set (outreach_tasks d). task_id t \<notin> set ids \<longrightarrow> t \<in> set (outreach_tasks d'))"
  using assms
proof (induction ids arbitrary: n d)
  case Nil
  then show ?case by simp
next
  case (Cons i ids)
  then obtain t where t: "t \<in> set (outreach_tasks d)" "task_id t = i" "due (instant now) t" by auto
  obtain res d1 where run: "dispatch_task E w no_interference now i d = (res, d1)" by fastforce
  with Cons.prems(4) obtain b where b: "res = Inr b" by (cases res) auto
  have rows: "b" "\<exists>t'. task_id t' = i \<and> outreach_tasks d1 = put_row task_id t' (outreach_tasks d)"
    using dispatch_task_rows [OF Cons.prems(1) t(1,3)] run b t(2) by auto
  have wf: "wf_db d1"
    using history.frame_dispatch_task [OF respectful_no_interference run] Cons.prems(1) by (simp add: keeps_def)
  have keep: "x \<in> set (outreach_tasks d1)" if "x \<in> set (outreach_tasks d)" "task_id x \<noteq> i" for x
    using rows(2) put_row_keeps [of x "outreach_tasks d" task_id] that by auto
  have rest: "dispatch_tasks E w no_interference now ids (Suc n) d1 = (Inr m, d')"
    using Cons.prems(4) run b rows(1) by simp
  have "\<forall>j\<in>set ids. \<exists>t\<in>set (outreach_tasks d1). task_id t = j \<and> due (instant now) t"
    using Cons.prems(2,3) keep by (metis distinct.simps(2) list.set_intros(2))
  then have "m = Suc n + length ids \<and> (\<forall>t\<in>set (outreach_tasks d1). task_id t \<notin> set ids \<longrightarrow> t \<in> set (outreach_tasks d'))"
    using Cons.IH [OF wf _ _ rest] Cons.prems(2) by simp
  with keep show ?case by auto
qed


text \<open>C29. A provider error longer than its column stops the pass: the database refuses the
  outcome, the exception leaves the worker, and the task stays claimed for ever, with
  neither an outcome nor a retry recorded.\<close>

theorem oversized_error_strands_task:
  assumes "wf_db d" and "t \<in> set (outreach_tasks d)" and "due (instant now) t"
    and "send_task (wk_adapters w) (claimed t) = Inl err" and "1000 < length err" and "strict_columns E"
    and "dt_add now (wk_retry_delay w) = Inr at"
  shows "\<exists>d'. dispatch_tasks E w no_interference now (task_id t # ids) n d = (Inl DataError, d')
    \<and> claimed t \<in> set (outreach_tasks d') \<and> task_status (claimed t) = DISPATCHING
    \<and> claim_task now' (task_id t) d' = None"
proof -
  let ?d2 = "audit_dispatch_started E (wk_id w) (claimed t) (put_task (claimed t) d)"
  have "record_failure E (wk_id w) now (wk_retry_delay w) (claimed t) err ?d2 = Inl DataError"
    using assms(5-7) by (auto simp: record_failure_def Let_def last_error_fits_def nullable_varchar_def varchar_def)
  then have run: "dispatch_task E w no_interference now (task_id t) d = (Inl DataError, ?d2)"
    using assms(4) by (simp add: dispatch_due_task [OF assms(1-3)])
  have tasks: "outreach_tasks ?d2 = put_row task_id (claimed t) (outreach_tasks d)"
    by (simp add: audit_dispatch_started_def frame_simps put_task_def)
  have mem: "claimed t \<in> set (outreach_tasks ?d2)"
    unfolding tasks using put_row_has [OF assms(2), of task_id "claimed t"] by simp
  have "\<not> due now' x" if "x \<in> set (outreach_tasks ?d2)" "task_id x = task_id t" for x
    using in_put_row [of x task_id "claimed t" "outreach_tasks d"] that by (auto simp: tasks due_def)
  then have "rowcount (\<lambda>x. task_id x = task_id t \<and> due now' x) (outreach_tasks ?d2) = 0"
    by (auto simp: rowcount_zero_iff)
  then have "claim_task now' (task_id t) ?d2 = None" by (simp add: claim_task_def Let_def)
  with run mem show ?thesis by simp
qed

end
