(* ===== verification/Dispatch_Liveness.thy ===== *)
theory Dispatch_Liveness
  imports Dispatch_Properties
begin

text \<open>
  Progress of the worker: every turn on a due task uses up one of its attempts, so a
  task that gets its turns ends sent or failed.
\<close>

section \<open>Turns\<close>

text \<open>One worker that comes back to a task at given times.\<close>

fun turns :: "env \<Rightarrow> worker \<Rightarrow> uuid \<Rightarrow> datetime list \<Rightarrow> db \<Rightarrow> db" where
  "turns E w i [] d = d"
| "turns E w i (now # nows) d = turns E w i nows (snd (dispatch_task E w no_interference now i d))"

text \<open>Times that are due: the first not before \<open>from\<close>, each later one not before the retry time.\<close>

fun spaced :: "usec \<Rightarrow> usec \<Rightarrow> datetime list \<Rightarrow> bool" where
  "spaced delay from [] \<longleftrightarrow> True"
| "spaced delay from (now # nows) \<longleftrightarrow> from \<le> instant now
     \<and> (case dt_add now delay of Inl e \<Rightarrow> False | Inr at \<Rightarrow> spaced delay (instant at) nows)"

definition attempts_left :: "outreach_task \<Rightarrow> nat" where
  "attempts_left t = nat (task_max_attempts t - task_attempt_count t)"

text \<open>An attempt that is not the end of a task leaves it fewer attempts, and due after the delay.\<close>

lemma attempt_progress:
  assumes "attempt w now t = Inr t'" and "attempts_ok t" and "task_status t = SCHEDULED"
  obtains (over) "task_status t' = SENT \<or> task_status t' = FAILED \<and> task_attempt_count t' = task_max_attempts t'"
  | (retry) at where "dt_add now (wk_retry_delay w) = Inr at" and "task_status t' = SCHEDULED"
      and "task_scheduled_at t' = instant at" and "attempts_left t = Suc (attempts_left t')"
proof (cases "task_status t' = SCHEDULED")
  case True
  then obtain at where "dt_add now (wk_retry_delay w) = Inr at"
    using assms(1) by (cases "dt_add now (wk_retry_delay w)")
      (auto simp: attempt_def claimed_def split: sum.splits if_splits)
  with True show thesis
    using assms(1) by (intro retry [of at])
      (auto simp: attempt_def attempts_left_def claimed_def split: sum.splits if_splits)
next
  case False
  then show thesis
    using assms by (intro over; cases "dt_add now (wk_retry_delay w)")
      (auto simp: attempt_def attempts_ok_def claimed_def split: sum.splits if_splits)
qed

lemma attempt_total:
  "dt_add now (wk_retry_delay w) = Inr at \<Longrightarrow> \<exists>t'. attempt w now t = Inr t'"
  by (auto simp: attempt_def split: sum.splits)

lemma attempt_id: "attempt w now t = Inr t' \<Longrightarrow> task_id t' = task_id t \<and> task_max_attempts t' = task_max_attempts t"
  by (cases "dt_add now (wk_retry_delay w)") (auto simp: attempt_def claimed_def split: sum.splits if_splits)

lemma turn_wf:
  assumes "wf_db d" and "dispatch_task E w no_interference now i d = (res, d')"
  shows "wf_db d'"
  using history.frame_dispatch_task [OF respectful_no_interference assms(2)] assms(1) by (simp add: keeps_def)

text \<open>A task that is over is left alone.\<close>

lemma turns_over:
  assumes "wf_db d" and "t \<in> set (outreach_tasks d)" and "task_status t \<noteq> SCHEDULED"
  shows "turns E w (task_id t) nows d = d"
proof (induction nows)
  case (Cons now nows)
  have "rowcount (\<lambda>r. task_id r = task_id t \<and> due (instant now) r) (outreach_tasks d) = 0"
    using key_row_unique [OF wf_distinct(5) [OF assms(1)] _ assms(2)] assms(3)
    by (force simp: rowcount_zero_iff due_def)
  then have "dispatch_task E w no_interference now (task_id t) d = (Inr False, d)"
    by (auto simp: dispatch_task_def claim_task_def Let_def)
  with Cons show ?case by simp
qed simp

text \<open>C37. Every task comes to an end: a scheduled task that the worker gets to as many times as
  it has attempts left, each time when it is due, is sent, or it is failed and then all of
  its attempts are used up; the worker neither tries for ever nor gives up early.\<close>

theorem attempts_run_out:
  assumes "wf_db d" and "t \<in> set (outreach_tasks d)" and "task_status t = SCHEDULED"
    and "spaced (wk_retry_delay w) (task_scheduled_at t) nows" and "attempts_left t \<le> length nows"
    and "\<And>t. error_fits E w t"
  shows "\<exists>t'\<in>set (outreach_tasks (turns E w (task_id t) nows d)). task_id t' = task_id t
    \<and> (task_status t' = SENT \<or> task_status t' = FAILED \<and> task_attempt_count t' = task_max_attempts t')"
  using assms(1-5)
proof (induction nows arbitrary: d t)
  case Nil
  have "attempts_ok t" using Nil(1,2) by (auto simp: wf_db_def task_ok_def)
  with Nil show ?case by (simp add: attempts_left_def attempts_ok_def)
next
  case (Cons now nows)
  have ok: "attempts_ok t" using Cons.prems(1,2) by (auto simp: wf_db_def task_ok_def)
  have due: "due (instant now) t" using Cons.prems(3,4) by (simp add: due_def)
  obtain at where at: "dt_add now (wk_retry_delay w) = Inr at" "spaced (wk_retry_delay w) (instant at) nows"
    using Cons.prems(4) by (auto split: sum.splits)
  then obtain t' where t': "attempt w now t = Inr t'" using attempt_total by blast
  from dispatch_attempt [OF Cons.prems(1,2) due assms(6) t'] obtain d' where
    run: "dispatch_task E w no_interference now (task_id t) d = (Inr True, d')"
    and rows: "outreach_tasks d' = put_row task_id t' (outreach_tasks d)" by blast
  have wf: "wf_db d'" using Cons.prems(1) run by (rule turn_wf)
  have id: "task_id t' = task_id t" using attempt_id [OF t'] by simp
  have mem: "t' \<in> set (outreach_tasks d')"
    unfolding rows using put_row_has [OF Cons.prems(2), of task_id t'] id by simp
  from t' ok Cons.prems(3) show ?case
  proof (cases rule: attempt_progress)
    case over
    then have "turns E w (task_id t') nows d' = d'" by (intro turns_over [OF wf mem]) auto
    with over mem run id show ?thesis by auto
  next
    case (retry at')
    then have "spaced (wk_retry_delay w) (task_scheduled_at t') nows" "attempts_left t' \<le> length nows"
      using at Cons.prems(5) by simp_all
    from Cons.IH [OF wf mem retry(2) this] show ?thesis using run id by simp
  qed
qed

end
