(* ===== verification/Worker_Loop.thy ===== *)
theory Worker_Loop
  imports Dispatch_Liveness
begin

text \<open>
  \<open>_run_loop\<close> and \<open>main\<close> of \<open>workers/dispatch.py\<close>: one pass after the other, with a pause
  in between, until an exception leaves a pass or, with \<open>--once\<close>, after the first.

  The loop may run for ever, so it is a \<open>partial_function (option)\<close>: \<open>None\<close> is a loop
  that does not return.  What happens around it is a record: the environment of every
  pass, with the clock it reads, what other sessions commit during the pass and
  what they commit before it, while the worker sleeps.
\<close>

section \<open>The loop\<close>

record surroundings =
  pass_env :: "nat \<Rightarrow> env"
  pass_interference :: "nat \<Rightarrow> interference"
  before_pass :: "nat \<Rightarrow> db \<Rightarrow> db"

text \<open>Pass \<open>k\<close> of the loop, with the default arguments \<open>now=None\<close> and \<open>limit=10\<close>.\<close>

definition loop_pass :: "surroundings \<Rightarrow> worker \<Rightarrow> nat \<Rightarrow> db \<Rightarrow> (py_error + nat) \<times> db" where
  "loop_pass S w k d =
     dispatch_due_tasks (pass_env S k) w (pass_interference S k) None 10 (before_pass S k d)"

partial_function (option) run_loop ::
  "surroundings \<Rightarrow> worker \<Rightarrow> bool \<Rightarrow> nat \<Rightarrow> db \<Rightarrow> ((py_error + unit) \<times> db) option" where
  "run_loop S w once k d =
     (case loop_pass S w k d of
        (Inl e, d1) \<Rightarrow> Some (Inl e, d1)
      | (Inr attempted, d1) \<Rightarrow>
          if once then Some (Inr (), d1) else run_loop S w once (Suc k) d1)"

text \<open>The options of the command line, with their defaults, and \<open>main\<close>.\<close>

record worker_args =
  arg_once :: bool
  arg_poll_interval :: usec

definition default_args :: worker_args where
  "default_args = \<lparr>arg_once = False, arg_poll_interval = seconds 5\<rparr>"

definition worker_main :: "surroundings \<Rightarrow> worker_args \<Rightarrow> db \<Rightarrow> ((py_error + unit) \<times> db) option" where
  "worker_main S args d = run_loop S default_worker (arg_once args) 0 d"

text \<open>\<open>asyncio.sleep(poll_interval)\<close>: the clocks of the first \<open>n\<close> passes are that far apart.\<close>

definition paced :: "usec \<Rightarrow> nat \<Rightarrow> surroundings \<Rightarrow> bool" where
  "paced interval n S \<longleftrightarrow> (\<forall>k. Suc k < n \<longrightarrow>
     start_now (pass_env S k) + interval \<le> start_now (pass_env S (Suc k)))"

section \<open>When the loop returns\<close>

text \<open>The database after some passes, whatever their result.\<close>

fun after_passes :: "surroundings \<Rightarrow> worker \<Rightarrow> nat \<Rightarrow> db \<Rightarrow> db" where
  "after_passes S w 0 d = d"
| "after_passes S w (Suc k) d = snd (loop_pass S w k (after_passes S w k d))"

definition pass_raises :: "surroundings \<Rightarrow> worker \<Rightarrow> db \<Rightarrow> nat \<Rightarrow> bool" where
  "pass_raises S w d k \<longleftrightarrow> isl (fst (loop_pass S w k (after_passes S w k d)))"

lemma run_loop_once:
  "run_loop S w True k d = Some (map_sum id (\<lambda>_. ()) (fst (loop_pass S w k d)), snd (loop_pass S w k d))"
  by (subst run_loop.simps) (auto split: prod.split sum.split)

text \<open>From pass \<open>k\<close> on, a loop that goes on is where the passes before it have left it.\<close>

lemma run_loop_step:
  assumes "\<not> pass_raises S w d k"
  shows "run_loop S w False k (after_passes S w k d) = run_loop S w False (Suc k) (after_passes S w (Suc k) d)"
  using assms
  by (subst run_loop.simps) (auto simp: pass_raises_def split: prod.split sum.split)

lemma run_loop_skip:
  "\<forall>k<n. \<not> pass_raises S w d k \<Longrightarrow> run_loop S w False 0 d = run_loop S w False n (after_passes S w n d)"
proof (induction n)
  case (Suc n)
  then show ?case using run_loop_step [of S w d n] by simp
qed simp

lemma run_loop_raises:
  assumes "pass_raises S w d k" and "\<forall>j<k. \<not> pass_raises S w d j"
  shows "\<exists>e. run_loop S w False 0 d = Some (Inl e, after_passes S w (Suc k) d)"
  unfolding run_loop_skip [OF assms(2)]
  using assms(1) by (subst run_loop.simps) (auto simp: pass_raises_def isl_def split: prod.split sum.split)

text \<open>A loop that returns has run a pass that raised: induction over the computation.\<close>

lemma run_loop_returned:
  assumes "run_loop S w False n (after_passes S w n d) = Some r"
  shows "\<exists>k\<ge>n. pass_raises S w d k"
proof -
  let ?P = "\<lambda>S w once k x r. \<not> once \<longrightarrow> x = after_passes S w k d \<longrightarrow> (\<exists>j\<ge>k. pass_raises S w d j)"
  have "?P S w False n (after_passes S w n d) r"
  proof (rule run_loop.raw_induct [of ?P, OF _ assms], intro impI)
    fix rec :: "surroundings \<Rightarrow> worker \<Rightarrow> bool \<Rightarrow> nat \<Rightarrow> db \<Rightarrow> ((py_error + unit) \<times> db) option"
      and S w once k x and r :: "(py_error + unit) \<times> db"
    assume IH: "\<And>S w once k x r. rec S w once k x = Some r \<Longrightarrow> ?P S w once k x r"
      and body: "(case loop_pass S w k x of (Inl e, d1) \<Rightarrow> Some (Inl e, d1)
        | (Inr attempted, d1) \<Rightarrow> if once then Some (Inr (), d1) else rec S w once (Suc k) d1) = Some r"
      and goes_on: "\<not> once" and x: "x = after_passes S w k d"
    show "\<exists>j\<ge>k. pass_raises S w d j"
    proof (cases "pass_raises S w d k")
      case False
      then obtain c d1 where pass: "loop_pass S w k x = (Inr c, d1)"
        using x by (cases "loop_pass S w k x"; cases "fst (loop_pass S w k x)") (auto simp: pass_raises_def)
      then have "rec S w once (Suc k) d1 = Some r" using body goes_on by simp
      moreover have "d1 = after_passes S w (Suc k) d" using pass x by simp
      ultimately have "\<exists>j\<ge>Suc k. pass_raises S w d j" using IH goes_on by blast
      then show ?thesis by (auto dest: Suc_leD)
    qed auto
  qed
  then show ?thesis by blast
qed

lemma run_loop_returns:
  "(\<exists>r. run_loop S w once 0 d = Some r) \<longleftrightarrow> once \<or> (\<exists>k. pass_raises S w d k)"
proof (cases once)
  case True
  then show ?thesis by (simp add: run_loop_once)
next
  case False
  have "\<exists>r. run_loop S w False 0 d = Some r" if "pass_raises S w d k" for k
    using run_loop_raises [of S w d "LEAST k. pass_raises S w d k"] not_less_Least
      LeastI [of "pass_raises S w d" k, OF that] by blast
  moreover have "\<exists>k. pass_raises S w d k" if "run_loop S w False 0 d = Some r" for r
    using run_loop_returned [of S w 0 d r] that by auto
  ultimately show ?thesis using False by auto
qed

section \<open>The worker as it is shipped\<close>

text \<open>The mock adapters answer every task, so no pass raises.\<close>

lemma default_send: "\<exists>result. send_task default_adapters t = Inr result"
  by (cases "task_channel t")
    (simp_all add: send_task_def default_adapters_def mock_sms_send_def mock_email_send_def mock_call_send_def)

lemma default_dispatch_task:
  assumes "wk_adapters w = default_adapters"
  shows "\<exists>b. fst (dispatch_task E w I now i d) = Inr b"
proof -
  have "\<exists>b. fst (case send_task default_adapters t of Inr result \<Rightarrow> (Inr True, f result) | Inl err \<Rightarrow> g err)
      = (Inr b :: py_error + bool)" for t f g
    using default_send [of t] by auto
  then show ?thesis by (auto simp: dispatch_task_def assms Let_def split: option.split)
qed

lemma default_dispatch_tasks:
  assumes "wk_adapters w = default_adapters"
  shows "\<exists>n'. fst (dispatch_tasks E w I now ids n d) = Inr n'"
proof (induction ids arbitrary: n d)
  case (Cons i ids)
  obtain b d1 where "dispatch_task E w I now i d = (Inr b, d1)"
    using default_dispatch_task [OF assms, of E I now i d] by (metis prod.collapse)
  then show ?case using Cons.IH by simp
qed simp

lemma default_never_raises: "\<not> pass_raises S default_worker d k"
proof -
  have "wk_adapters default_worker = default_adapters" by (simp add: default_worker_def)
  note default_dispatch_tasks [OF this]
  then have "\<exists>n. fst (dispatch_due_tasks E default_worker I now limit x) = Inr n" for E I now limit x
    by (simp add: dispatch_due_tasks_def Let_def)
  then show ?thesis unfolding pass_raises_def loop_pass_def by (metis sum.disc(2))
qed


section \<open>A pass makes progress\<close>

text \<open>The attempts that the scheduled tasks have left.\<close>

definition scheduled_tasks :: "db \<Rightarrow> outreach_task set" where
  "scheduled_tasks d = {t \<in> set (outreach_tasks d). task_status t = SCHEDULED}"

definition backlog :: "db \<Rightarrow> nat" where
  "backlog d = (\<Sum>t\<in>scheduled_tasks d. attempts_left t)"

lemma finite_scheduled [simp]: "finite (scheduled_tasks d)"
  by (simp add: scheduled_tasks_def)

lemma backlog_mono: "scheduled_tasks d' \<subseteq> scheduled_tasks d \<Longrightarrow> backlog d' \<le> backlog d"
  unfolding backlog_def by (rule sum_mono2) simp_all

lemma scheduled_has_attempts: "wf_db d \<Longrightarrow> t \<in> scheduled_tasks d \<Longrightarrow> attempts_ok t \<and> 0 < attempts_left t"
  by (auto simp: scheduled_tasks_def wf_db_def task_ok_def attempts_ok_def attempts_left_def)

lemma no_backlog: "wf_db d \<Longrightarrow> backlog d = 0 \<Longrightarrow> scheduled_tasks d = {}"
  using scheduled_has_attempts [of d] by (force simp: backlog_def)

text \<open>One turn on a due task: the others stay, and the backlog falls.\<close>

lemma turn_progress:
  assumes "wf_db d" and "t \<in> set (outreach_tasks d)" and "due (instant now) t"
    and "error_fits E w (claimed t)" and "dt_add now (wk_retry_delay w) = Inr at"
  obtains d' where "dispatch_task E w no_interference now (task_id t) d = (Inr True, d')"
    and "wf_db d'" and "backlog d' < backlog d"
    and "\<forall>u\<in>scheduled_tasks d'. u \<in> scheduled_tasks d \<or> task_scheduled_at u = instant at"
    and "\<forall>u\<in>set (outreach_tasks d). task_id u \<noteq> task_id t \<longrightarrow> u \<in> set (outreach_tasks d')"
proof -
  obtain t' where t': "attempt w now t = Inr t'" using attempt_total [OF assms(5)] by blast
  from dispatch_attempt [OF assms(1-4) t'] obtain d' where
    run: "dispatch_task E w no_interference now (task_id t) d = (Inr True, d')"
    and rows: "outreach_tasks d' = put_row task_id t' (outreach_tasks d)" by blast
  have sched: "t \<in> scheduled_tasks d" using assms(2,3) by (simp add: scheduled_tasks_def due_def)
  have id: "task_id t' = task_id t" using attempt_id [OF t'] by simp
  note left = scheduled_has_attempts [OF assms(1) sched]
  have sub: "scheduled_tasks d' \<subseteq> (scheduled_tasks d - {t}) \<union> (if task_status t' = SCHEDULED then {t'} else {})"
    using id by (auto simp: scheduled_tasks_def rows dest!: in_put_row)
  from t' left sched have t'_left: "task_status t' = SCHEDULED \<Longrightarrow>
      attempts_left t' < attempts_left t \<and> task_scheduled_at t' = instant at"
    using assms(5) by (elim attempt_progress) (auto simp: scheduled_tasks_def)
  have "backlog d' \<le> (\<Sum>t\<in>(scheduled_tasks d - {t}) \<union> (if task_status t' = SCHEDULED then {t'} else {}). attempts_left t)"
    unfolding backlog_def by (rule sum_mono2 [OF _ sub]) simp_all
  also have "\<dots> \<le> (\<Sum>t\<in>scheduled_tasks d - {t}. attempts_left t) + (if task_status t' = SCHEDULED then attempts_left t' else 0)"
    by (simp add: sum.insert_if)
  also have "\<dots> < (\<Sum>t\<in>scheduled_tasks d - {t}. attempts_left t) + attempts_left t"
    using t'_left left by simp
  also have "\<dots> = backlog d"
    unfolding backlog_def using sum.remove [OF finite_scheduled sched, of attempts_left] by simp
  finally have less: "backlog d' < backlog d" .
  show thesis
    using run turn_wf [OF assms(1) run] less
    by (rule that) (use sub t'_left id in \<open>auto simp: rows put_row_keeps split: if_splits\<close>)
qed

lemma turns_progress:
  assumes "wf_db d" and "distinct ids"
    and "\<forall>i\<in>set ids. \<exists>t\<in>set (outreach_tasks d). task_id t = i \<and> due (instant now) t"
    and "\<And>t. error_fits E w t" and "dt_add now (wk_retry_delay w) = Inr at"
  shows "\<exists>d'. dispatch_tasks E w no_interference now ids n d = (Inr (n + length ids), d')
    \<and> wf_db d' \<and> backlog d' + length ids \<le> backlog d
    \<and> (\<forall>u\<in>scheduled_tasks d'. u \<in> scheduled_tasks d \<or> task_scheduled_at u = instant at)"
  using assms(1-3)
proof (induction ids arbitrary: n d)
  case (Cons i ids)
  then obtain t where t: "t \<in> set (outreach_tasks d)" "task_id t = i" "due (instant now) t" by auto
  from Cons.prems(1) t(1,3) assms(4,5) obtain d1 where
    run: "dispatch_task E w no_interference now (task_id t) d = (Inr True, d1)"
    and wf: "wf_db d1" and less: "backlog d1 < backlog d"
    and old: "\<forall>u\<in>scheduled_tasks d1. u \<in> scheduled_tasks d \<or> task_scheduled_at u = instant at"
    and keep: "\<forall>u\<in>set (outreach_tasks d). task_id u \<noteq> task_id t \<longrightarrow> u \<in> set (outreach_tasks d1)"
    by (rule turn_progress)
  have "\<forall>j\<in>set ids. \<exists>t\<in>set (outreach_tasks d1). task_id t = j \<and> due (instant now) t"
    using Cons.prems(2,3) keep t(2) by (metis distinct.simps(2) list.set_intros(2))
  with Cons.IH [OF wf, of "Suc n"] Cons.prems(2) obtain d' where
    "dispatch_tasks E w no_interference now ids (Suc n) d1 = (Inr (Suc n + length ids), d')" "wf_db d'"
    "backlog d' + length ids \<le> backlog d1"
    "\<forall>u\<in>scheduled_tasks d'. u \<in> scheduled_tasks d1 \<or> task_scheduled_at u = instant at"
    by auto
  with run t(2) less old show ?case by auto
qed simp


lemma pass_progress:
  assumes "wf_db d" and "fair_scan E" and "\<And>t. error_fits E w t"
    and "dt_add (utc_datetime (start_now E)) (wk_retry_delay w) = Inr at" and "0 < limit"
  shows "\<exists>n d'. dispatch_due_tasks E w no_interference None limit d = (Inr n, d')
    \<and> wf_db d' \<and> backlog d' \<le> backlog d
    \<and> (\<forall>u\<in>scheduled_tasks d'. u \<in> scheduled_tasks d \<or> task_scheduled_at u = instant at)
    \<and> (if \<exists>t\<in>scheduled_tasks d. task_scheduled_at t \<le> start_now E then backlog d' < backlog d else d' = d)"
proof -
  let ?now = "utc_datetime (start_now E)"
  let ?ids = "due_task_ids E (instant ?now) limit d"
  note ids = due_task_ids_due [OF assms(1,2), of "instant ?now" limit]
  from turns_progress [OF assms(1) ids(1,2) assms(3,4), of 0] obtain d' where
    run: "dispatch_tasks E w no_interference ?now ?ids 0 d = (Inr (length ?ids), d')"
    and d': "wf_db d'" "backlog d' + length ?ids \<le> backlog d"
      "\<forall>u\<in>scheduled_tasks d'. u \<in> scheduled_tasks d \<or> task_scheduled_at u = instant at" by auto
  have pass: "dispatch_due_tasks E w no_interference None limit d = (Inr (length ?ids), d')"
    using run by (simp add: dispatch_due_tasks_def Let_def)
  have some: "(\<exists>t\<in>scheduled_tasks d. task_scheduled_at t \<le> start_now E) \<longleftrightarrow> ?ids \<noteq> []"
    using ids(3) assms(5) rowcount_zero_iff [of "due (start_now E)" "outreach_tasks d"]
    by (auto simp: scheduled_tasks_def due_def min_def simp flip: length_greater_0_conv split: if_splits)
  show ?thesis
  proof (cases "?ids = []")
    case True
    then have "d' = d" using run by simp
    with pass d' some True show ?thesis by (intro exI conjI) auto
  next
    case False
    then have "0 < length ?ids" by (cases ?ids) simp_all
    then have "backlog d' < backlog d" using d'(2) by linarith
    with pass d' some False show ?thesis by (intro exI conjI) auto
  qed
qed

section \<open>The queue is drained\<close>

text \<open>The worker is alone during its passes, and nobody schedules anything while it sleeps.\<close>

definition undisturbed :: "surroundings \<Rightarrow> bool" where
  "undisturbed S \<longleftrightarrow> (\<forall>k. pass_interference S k = no_interference
     \<and> (\<forall>x. wf_db x \<longrightarrow> wf_db (before_pass S k x) \<and> scheduled_tasks (before_pass S k x) \<subseteq> scheduled_tasks x))"

text \<open>The first \<open>n\<close> passes can record what happens in them.\<close>

definition passes_fit :: "worker \<Rightarrow> nat \<Rightarrow> surroundings \<Rightarrow> bool" where
  "passes_fit w n S \<longleftrightarrow> (\<forall>k<n. fair_scan (pass_env S k) \<and> (\<forall>t. error_fits (pass_env S k) w t)
     \<and> wall_ok (start_now (pass_env S k) + wk_retry_delay w))"

definition pass_clock :: "surroundings \<Rightarrow> nat \<Rightarrow> usec" where
  "pass_clock S k = start_now (pass_env S k)"

definition due_at_pass :: "surroundings \<Rightarrow> worker \<Rightarrow> db \<Rightarrow> nat \<Rightarrow> bool" where
  "due_at_pass S w d k \<longleftrightarrow> (\<exists>t\<in>scheduled_tasks (before_pass S k (after_passes S w k d)).
     task_scheduled_at t \<le> pass_clock S k)"

lemma undisturbed_pass:
  assumes "undisturbed S" and "passes_fit w n S" and "k < n" and "wf_db (after_passes S w k d)"
  shows "\<not> pass_raises S w d k"
    and "wf_db (after_passes S w (Suc k) d)"
    and "backlog (after_passes S w (Suc k) d) \<le> backlog (after_passes S w k d)"
    and "u \<in> scheduled_tasks (after_passes S w (Suc k) d) \<Longrightarrow>
      u \<in> scheduled_tasks (after_passes S w k d) \<or> task_scheduled_at u = pass_clock S k + wk_retry_delay w"
    and "due_at_pass S w d k \<Longrightarrow> backlog (after_passes S w (Suc k) d) < backlog (after_passes S w k d)"
    and "\<not> due_at_pass S w d k \<Longrightarrow>
      scheduled_tasks (after_passes S w (Suc k) d) = scheduled_tasks (before_pass S k (after_passes S w k d))"
    and "scheduled_tasks (before_pass S k (after_passes S w k d)) \<subseteq> scheduled_tasks (after_passes S w k d)"
proof -
  let ?d = "after_passes S w k d" and ?seen = "before_pass S k (after_passes S w k d)" and ?E = "pass_env S k"
  obtain at where at: "dt_add (utc_datetime (start_now ?E)) (wk_retry_delay w) = Inr at"
      "instant at = pass_clock S k + wk_retry_delay w"
    using assms(2,3) by (auto simp: passes_fit_def dt_add_def utc_datetime_def instant_def utc_def pass_clock_def)
  have wf: "wf_db ?seen" and sub: "scheduled_tasks ?seen \<subseteq> scheduled_tasks ?d"
    and alone: "pass_interference S k = no_interference"
    using assms(1,4) by (simp_all add: undisturbed_def)
  have fair: "fair_scan ?E" and fits: "\<And>t. error_fits ?E w t" using assms(2,3) by (simp_all add: passes_fit_def)
  have "(0 :: nat) < 10" by simp
  from pass_progress [OF wf fair fits at(1) this] obtain c d' where
    run: "dispatch_due_tasks ?E w no_interference None 10 ?seen = (Inr c, d')"
    and d': "wf_db d'" "backlog d' \<le> backlog ?seen"
      "\<forall>u\<in>scheduled_tasks d'. u \<in> scheduled_tasks ?seen \<or> task_scheduled_at u = instant at"
      "if \<exists>t\<in>scheduled_tasks ?seen. task_scheduled_at t \<le> start_now ?E then backlog d' < backlog ?seen else d' = ?seen"
    by blast
  have pass: "loop_pass S w k ?d = (Inr c, d')" using run alone by (simp add: loop_pass_def)
  note less = backlog_mono [OF sub]
  show "\<not> pass_raises S w d k" "wf_db (after_passes S w (Suc k) d)"
    "backlog (after_passes S w (Suc k) d) \<le> backlog (after_passes S w k d)"
    using pass d' less by (simp_all add: pass_raises_def)
  show "due_at_pass S w d k \<Longrightarrow> backlog (after_passes S w (Suc k) d) < backlog (after_passes S w k d)"
    using pass d'(4) less by (simp add: due_at_pass_def pass_clock_def split: if_splits)
  show "\<not> due_at_pass S w d k \<Longrightarrow> scheduled_tasks (after_passes S w (Suc k) d) = scheduled_tasks ?seen"
    using pass d'(4) by (simp add: due_at_pass_def pass_clock_def split: if_splits)
  show "u \<in> scheduled_tasks (after_passes S w (Suc k) d) \<Longrightarrow>
      u \<in> scheduled_tasks (after_passes S w k d) \<or> task_scheduled_at u = pass_clock S k + wk_retry_delay w"
    using pass d'(3) sub at(2) by auto
  show "scheduled_tasks ?seen \<subseteq> scheduled_tasks ?d" by (rule sub)
qed


lemma undisturbed_passes:
  assumes "undisturbed S" and "passes_fit w n S" and "wf_db d"
  shows "k \<le> n \<Longrightarrow> wf_db (after_passes S w k d)"
proof (induction k)
  case (Suc k)
  then show ?case using undisturbed_pass(2) [OF assms(1,2), of k d] by simp
qed (simp add: assms(3))

lemma backlog_falls:
  assumes "undisturbed S" and "passes_fit w n S" and "wf_db d" and "j \<le> k" and "k \<le> n"
  shows "backlog (after_passes S w k d) \<le> backlog (after_passes S w j d)"
  using assms(4,5)
proof (induction k rule: dec_induct)
  case (step k)
  then show ?case
    using undisturbed_pass(3) [OF assms(1,2), of k d] undisturbed_passes [OF assms(1-3), of k] by simp
qed simp

text \<open>Whatever is scheduled after some passes waits at most for the retry delay, or was there before.\<close>

lemma waiting_bound:
  assumes "undisturbed S" and "passes_fit w n S" and "wf_db d"
    and "k \<le> n" and "u \<in> scheduled_tasks (after_passes S w k d)"
  shows "u \<in> scheduled_tasks d \<or> (\<exists>j<k. task_scheduled_at u = pass_clock S j + wk_retry_delay w)"
  using assms(4,5)
proof (induction k)
  case (Suc k)
  then show ?case
    using undisturbed_pass(4) [OF assms(1,2), of k d u] undisturbed_passes [OF assms(1-3), of k]
    by (auto simp: less_Suc_eq)
qed simp

text \<open>The clocks of two passes.\<close>

lemma paced_clock:
  assumes "paced p n S" and "j \<le> k" and "k < n"
  shows "pass_clock S j + int (k - j) * p \<le> pass_clock S k"
  using assms(2,3)
proof (induction k rule: dec_induct)
  case (step k)
  then have "pass_clock S k + p \<le> pass_clock S (Suc k)" using assms(1) by (simp add: paced_def pass_clock_def)
  moreover have "int (Suc k - j) * p = int (k - j) * p + p" using step by (simp add: Suc_diff_le algebra_simps)
  ultimately show ?case using step by simp
qed simp

text \<open>Without anything due, the scheduled tasks only get fewer.\<close>

lemma idle_passes:
  assumes "undisturbed S" and "passes_fit w n S" and "wf_db d" and "j \<le> k" and "k \<le> n"
    and "\<forall>i. j \<le> i \<and> i < k \<longrightarrow> \<not> due_at_pass S w d i"
  shows "scheduled_tasks (after_passes S w k d) \<subseteq> scheduled_tasks (after_passes S w j d)"
  using assms(4-6)
proof (induction k rule: dec_induct)
  case (step k)
  have "wf_db (after_passes S w k d)" using undisturbed_passes [OF assms(1-3)] step by simp
  then have "scheduled_tasks (after_passes S w (Suc k) d) \<subseteq> scheduled_tasks (after_passes S w k d)"
    using undisturbed_pass(6,7) [OF assms(1,2), of k d] step by simp
  also have "\<dots> \<subseteq> scheduled_tasks (after_passes S w j d)" using step by simp
  finally show ?case .
qed simp

text \<open>In a round of passes that is as long as the retry delay, an attempt is made, or there is nothing to do.\<close>

lemma round_progress:
  assumes "undisturbed S" and "passes_fit w n S" and "wf_db d" and "paced p n S" and "0 \<le> p"
    and "\<forall>t\<in>scheduled_tasks d. task_scheduled_at t \<le> pass_clock S k"
    and "0 \<le> wk_retry_delay w" and "wk_retry_delay w \<le> int r * p" and "k + Suc r \<le> n"
  shows "scheduled_tasks (after_passes S w (k + Suc r) d) = {}
    \<or> backlog (after_passes S w (k + Suc r) d) < backlog (after_passes S w k d)"
proof (cases "\<exists>i. k \<le> i \<and> i < k + Suc r \<and> due_at_pass S w d i")
  case True
  then obtain i where i: "k \<le> i" "i < k + Suc r" "due_at_pass S w d i" by blast
  note wf = undisturbed_passes [OF assms(1-3), of i]
  have "backlog (after_passes S w (k + Suc r) d) \<le> backlog (after_passes S w (Suc i) d)"
    using backlog_falls [OF assms(1-3), of "Suc i" "k + Suc r"] i assms(9) by simp
  also have "\<dots> < backlog (after_passes S w i d)"
    using undisturbed_pass(5) [OF assms(1,2) _ wf] i assms(9) by simp
  also have "\<dots> \<le> backlog (after_passes S w k d)"
    using backlog_falls [OF assms(1-3), of k i] i assms(9) by simp
  finally show ?thesis by simp
next
  case False
  let ?last = "k + r"
  have wf: "wf_db (after_passes S w ?last d)" using undisturbed_passes [OF assms(1-3)] assms(9) by simp
  have still: "scheduled_tasks (after_passes S w ?last d) \<subseteq> scheduled_tasks (after_passes S w k d)"
    using idle_passes [OF assms(1-3), of k ?last] False assms(9) by auto
  have late: "pass_clock S j \<le> pass_clock S i" if "j \<le> i" "i < n" for i j
    using paced_clock [OF assms(4) that] assms(5) by (smt (verit) mult_nonneg_nonneg of_nat_0_le_iff)
  have last: "pass_clock S k + wk_retry_delay w \<le> pass_clock S ?last"
    using paced_clock [OF assms(4), of k ?last] assms(8,9) by simp
  have "task_scheduled_at u \<le> pass_clock S ?last" if "u \<in> scheduled_tasks (after_passes S w ?last d)" for u
  proof -
    have "u \<in> scheduled_tasks d \<or> (\<exists>j<k. task_scheduled_at u = pass_clock S j + wk_retry_delay w)"
      using waiting_bound [OF assms(1-3), of k u] still that assms(9) by auto
    then show ?thesis
    proof
      assume "u \<in> scheduled_tasks d"
      then have "task_scheduled_at u \<le> pass_clock S k" using assms(6) by blast
      then show ?thesis using last assms(7) by linarith
    next
      assume "\<exists>j<k. task_scheduled_at u = pass_clock S j + wk_retry_delay w"
      then obtain j where "j < k" "task_scheduled_at u = pass_clock S j + wk_retry_delay w" by blast
      then show ?thesis using late [of j k] last assms(9) by simp
    qed
  qed
  moreover have "\<not> due_at_pass S w d ?last" using False by simp
  ultimately have "scheduled_tasks (before_pass S ?last (after_passes S w ?last d)) = {}"
    using undisturbed_pass(7) [OF assms(1,2) _ wf] assms(9) by (fastforce simp: due_at_pass_def)
  then show ?thesis
    using undisturbed_pass(6) [OF assms(1,2) _ wf] \<open>\<not> due_at_pass S w d ?last\<close> assms(9) by simp
qed


lemma rounds_progress:
  assumes "undisturbed S" and "passes_fit w n S" and "wf_db d" and "paced p n S" and "0 \<le> p"
    and "\<forall>t\<in>scheduled_tasks d. task_scheduled_at t \<le> pass_clock S k"
    and "0 \<le> wk_retry_delay w" and "wk_retry_delay w \<le> int r * p" and "k + Suc r * m \<le> n"
  shows "scheduled_tasks (after_passes S w (k + Suc r * m) d) = {}
    \<or> backlog (after_passes S w (k + Suc r * m) d) + m \<le> backlog d"
  using assms(9)
proof (induction m)
  case 0
  then show ?case using backlog_falls [OF assms(1-3), of 0 k] by simp
next
  case (Suc m)
  let ?k = "k + Suc r * m"
  have k: "?k + Suc r = k + Suc r * Suc m" by simp
  then have n: "?k + Suc r \<le> n" using Suc.prems by simp
  then have clocks: "pass_clock S k \<le> pass_clock S ?k"
    using paced_clock [OF assms(4), of k ?k] assms(5)
    by (smt (verit) add_gr_0 le_add1 less_le_trans mult_nonneg_nonneg of_nat_0_le_iff order_less_le_trans zero_less_Suc
        less_add_same_cancel1)
  then have "\<forall>t\<in>scheduled_tasks d. task_scheduled_at t \<le> pass_clock S ?k" using assms(6) by (meson order_trans)
  from round_progress [OF assms(1-5) this assms(7,8) n]
  have step: "scheduled_tasks (after_passes S w (k + Suc r * Suc m) d) = {}
      \<or> backlog (after_passes S w (k + Suc r * Suc m) d) < backlog (after_passes S w ?k d)"
    unfolding k .
  have wf: "wf_db (after_passes S w (k + Suc r * Suc m) d)" using undisturbed_passes [OF assms(1-3) Suc.prems] .
  show ?case
  proof (cases "scheduled_tasks (after_passes S w ?k d) = {}")
    case True
    then have "backlog (after_passes S w ?k d) = 0" by (simp add: backlog_def)
    then have "backlog (after_passes S w (k + Suc r * Suc m) d) = 0"
      using backlog_falls [OF assms(1-3), of ?k "?k + Suc r"] n unfolding k by simp
    then show ?thesis using no_backlog [OF wf] by simp
  next
    case False
    then have "backlog (after_passes S w ?k d) + m \<le> backlog d" using Suc n by simp
    with step show ?thesis by linarith
  qed
qed

text \<open>C11. The worker drains its queue: when it works alone and nothing new is scheduled, then
  after the latest scheduled time has come and as many rounds as the scheduled tasks have
  attempts left, each round as long as the retry delay, no pass has raised and no task is
  scheduled any more; a loop without \<open>--once\<close> is then still running, and finds nothing.\<close>

theorem worker_drains_queue:
  assumes "wf_db d" and "undisturbed S" and "passes_fit w n S" and "paced p n S" and "0 \<le> p"
    and "\<forall>t\<in>set (outreach_tasks d). task_status t = SCHEDULED \<longrightarrow> task_scheduled_at t \<le> start_now (pass_env S k)"
    and "0 \<le> wk_retry_delay w" and "wk_retry_delay w \<le> int r * p" and "k + Suc r * backlog d \<le> n"
  shows "(\<forall>t\<in>set (outreach_tasks (after_passes S w n d)). task_status t \<noteq> SCHEDULED)
    \<and> run_loop S w False 0 d = run_loop S w False n (after_passes S w n d)"
proof -
  have due: "\<forall>t\<in>scheduled_tasks d. task_scheduled_at t \<le> pass_clock S k"
    using assms(6) by (simp add: scheduled_tasks_def pass_clock_def)
  let ?m = "k + Suc r * backlog d"
  have wf: "wf_db (after_passes S w ?m d)" "wf_db (after_passes S w n d)"
    using undisturbed_passes [OF assms(2,3,1)] assms(9) by simp_all
  have "backlog (after_passes S w ?m d) = 0"
    using rounds_progress [OF assms(2,3,1,4,5) due assms(7,8,9)] by (auto simp: backlog_def)
  then have "backlog (after_passes S w n d) = 0"
    using backlog_falls [OF assms(2,3,1) assms(9)] by simp
  then have "scheduled_tasks (after_passes S w n d) = {}" using wf(2) by (rule no_backlog [rotated])
  moreover have "\<forall>k<n. \<not> pass_raises S w d k"
    using undisturbed_pass(1) [OF assms(2,3)] undisturbed_passes [OF assms(2,3,1)] by simp
  ultimately show ?thesis using run_loop_skip [of n S w d] by (auto simp: scheduled_tasks_def)
qed

end
