(* ===== verification/Operational.thy ===== *)
theory Operational
  imports Planner_Frame
begin

text \<open>
  \<open>src/orchestrator/domain/operational_outreach.py\<close> and the routes of \<open>api/tasks.py\<close> and
  \<open>api/accounts.py\<close> over it: recording a delivery result by hand, cancelling the
  scheduled outreach of an account, and listing tasks.  As in the worker, the steps
  are functions on the committed database; \<open>others\<close> is what other sessions commit
  between the read and the conditional update.
\<close>

section \<open>Reading tasks\<close>

definition get_outreach_task :: "db \<Rightarrow> uuid \<Rightarrow> outreach_task option" where
  "get_outreach_task d i = find (\<lambda>t. task_id t = i) (outreach_tasks d)"

definition find_account_by_external_id :: "db \<Rightarrow> string \<Rightarrow> account option" where
  "find_account_by_external_id d external_id =
     find (\<lambda>a. acct_external_id a = external_id) (accounts d)"

definition apply_task_filters ::
  "db \<Rightarrow> outreach_task_status option \<Rightarrow> string option \<Rightarrow> string option \<Rightarrow> outreach_channel option
     \<Rightarrow> outreach_task \<Rightarrow> bool" where
  "apply_task_filters d status customer_external_id account_external_id channel t \<longleftrightarrow>
     (case status of None \<Rightarrow> True | Some s \<Rightarrow> task_status t = s)
     \<and> (case channel of None \<Rightarrow> True | Some ch \<Rightarrow> task_channel t = ch)
     \<and> (case customer_external_id of None \<Rightarrow> True
        | Some x \<Rightarrow> find (\<lambda>c. cust_id c = task_customer_id t \<and> cust_external_id c = x) (customers d) \<noteq> None)
     \<and> (case account_external_id of None \<Rightarrow> True
        | Some x \<Rightarrow> find (\<lambda>a. acct_id a = task_account_id t \<and> acct_external_id a = x) (accounts d) \<noteq> None)"

definition list_tasks ::
  "db \<Rightarrow> outreach_task_status option \<Rightarrow> string option \<Rightarrow> string option \<Rightarrow> outreach_channel option
     \<Rightarrow> nat \<Rightarrow> outreach_task list" where
  "list_tasks d status customer_external_id account_external_id channel limit =
     take limit (sort_key (\<lambda>t. (task_created_at t, task_id t))
       (filter (apply_task_filters d status customer_external_id account_external_id channel)
         (outreach_tasks d)))"

section \<open>Recording a delivery result by hand\<close>

datatype delivery_status = Sent | Failed

fun delivery_task_status :: "delivery_status \<Rightarrow> outreach_task_status" where
  "delivery_task_status Sent = SENT"
| "delivery_task_status Failed = FAILED"

definition ALLOWED_MANUAL_DELIVERY_SOURCE_STATUSES :: "outreach_task_status set" where
  "ALLOWED_MANUAL_DELIVERY_SOURCE_STATUSES = {SCHEDULED, DISPATCHING, FAILED}"

definition manual_last_error :: "delivery_status \<Rightarrow> payload \<Rightarrow> string option" where
  "manual_last_error st details =
     (case st of Sent \<Rightarrow> None
      | Failed \<Rightarrow> Some (case map_of details ''error'' of Some (JStr e) \<Rightarrow> e
          | _ \<Rightarrow> ''manual delivery result failed''))"

definition operational_audit ::
  "env \<Rightarrow> outreach_task \<Rightarrow> string \<Rightarrow> uuid \<Rightarrow> payload \<Rightarrow> db \<Rightarrow> db" where
  "operational_audit E t event_type correlation_id payload d =
     snd (append_audit_event E d ''outreach_task'' (uuid_str (task_id t)) event_type API_CLIENT
       correlation_id (Some ''operational-api'') (Some payload))"

definition still_in :: "outreach_task_status \<Rightarrow> outreach_task \<Rightarrow> outreach_task \<Rightarrow> bool" where
  "still_in st task t \<longleftrightarrow> task_id t = task_id task \<and> task_status t = st"

text \<open>The update of the matched row and its audit row.\<close>

definition write_delivery_result ::
  "env \<Rightarrow> outreach_task \<Rightarrow> delivery_status \<Rightarrow> string option \<Rightarrow> payload \<Rightarrow> db \<Rightarrow> db" where
  "write_delivery_result E task status provider_message_id details d =
     operational_audit E task ''delivery_result_recorded'' (task_correlation_id task)
       [(''provider_message_id'', case provider_message_id of None \<Rightarrow> JNull | Some m \<Rightarrow> JStr m),
        (''details'', JObj details),
        (''previous_status'', JStr (task_status_value (task_status task))),
        (''new_status'', JStr (task_status_value (delivery_task_status status)))]
       (d\<lparr>outreach_tasks := update_where (still_in (task_status task) task)
          (\<lambda>t. t\<lparr>task_status := delivery_task_status status,
             task_last_error := manual_last_error status details\<rparr>) (outreach_tasks d)\<rparr>)"

definition record_manual_delivery_result ::
  "env \<Rightarrow> (db \<Rightarrow> db) \<Rightarrow> outreach_task \<Rightarrow> delivery_status \<Rightarrow> string option \<Rightarrow> payload \<Rightarrow> db
     \<Rightarrow> (py_error + outreach_task) \<times> db" where
  "record_manual_delivery_result E others task status provider_message_id details d0 =
     (let d = others d0 in
      if task_status task \<notin> ALLOWED_MANUAL_DELIVERY_SOURCE_STATUSES
      then (Inl (TaskStateConflictError ''Task status does not allow manual delivery result''), d)
      else if strict_columns E \<and> \<not> last_error_fits (manual_last_error status details)
      then (Inl DataError, d)
      else if rowcount (still_in (task_status task) task) (outreach_tasks d) \<noteq> 1
      then (Inl (TaskStateConflictError ''Task status changed before delivery result update''), d)
      else
      (let d1 = write_delivery_result E task status provider_message_id details d
       in case get_outreach_task d1 (task_id task) of
            None \<Rightarrow> (Inl (RuntimeError ''task disappeared after manual delivery result''), d1)
          | Some t \<Rightarrow> (Inr t, d1)))"

text \<open>The route: 404 and 409 answers.\<close>

definition record_delivery_result ::
  "env \<Rightarrow> (db \<Rightarrow> db) \<Rightarrow> uuid \<Rightarrow> delivery_status \<Rightarrow> string option \<Rightarrow> payload \<Rightarrow> db
     \<Rightarrow> (py_error + outreach_task) \<times> db" where
  "record_delivery_result E others i status provider_message_id details d =
     (case get_outreach_task d i of
        None \<Rightarrow> (Inl (HTTPException 404 ''Task not found''), d)
      | Some task \<Rightarrow>
          if task_status task = CANCELLED
          then (Inl (HTTPException 409 ''Cancelled tasks cannot be manually marked delivered''), d)
          else if task_status task \<notin> ALLOWED_MANUAL_DELIVERY_SOURCE_STATUSES
          then (Inl (HTTPException 409 ''Task status does not allow manual delivery result''), d)
          else case record_manual_delivery_result E others task status provider_message_id details d of
            (Inl (TaskStateConflictError m), d1) \<Rightarrow>
              (Inl (HTTPException 409 ''Task status changed before manual delivery result was recorded''), d1)
          | (Inl e, d1) \<Rightarrow> (Inl e, d1)
          | (Inr t, d1) \<Rightarrow> (Inr t, d1))"

section \<open>Cancelling the outreach of an account\<close>

text \<open>Each task is cancelled only if it is still scheduled when its turn comes.\<close>

fun cancel_still_scheduled ::
  "env \<Rightarrow> account \<Rightarrow> string \<Rightarrow> uuid \<Rightarrow> outreach_task list \<Rightarrow> nat \<Rightarrow> db \<Rightarrow> nat \<times> db" where
  "cancel_still_scheduled E account reason correlation_id [] cancelled d = (cancelled, d)"
| "cancel_still_scheduled E account reason correlation_id (task # tasks) cancelled d =
     (if rowcount (still_in SCHEDULED task) (outreach_tasks d) \<noteq> 1
      then cancel_still_scheduled E account reason correlation_id tasks cancelled d
      else cancel_still_scheduled E account reason correlation_id tasks (Suc cancelled)
        (operational_audit E task ''outreach_cancelled'' correlation_id
           [(''reason'', JStr reason), (''account_external_id'', JStr (acct_external_id account)),
            (''channel'', JStr (channel_value (task_channel task))),
            (''cancelled_by'', JStr ''operational_api'')]
           (d\<lparr>outreach_tasks := update_where (still_in SCHEDULED task)
              (\<lambda>t. t\<lparr>task_status := CANCELLED\<rparr>) (outreach_tasks d)\<rparr>)))"

definition scheduled_account_tasks :: "account \<Rightarrow> db \<Rightarrow> outreach_task list" where
  "scheduled_account_tasks account d =
     sort_key (\<lambda>t. (task_created_at t, task_id t))
       (filter (\<lambda>t. task_account_id t = acct_id account \<and> task_status t = SCHEDULED) (outreach_tasks d))"

definition cancel_scheduled_account_outreach ::
  "env \<Rightarrow> (db \<Rightarrow> db) \<Rightarrow> account \<Rightarrow> string \<Rightarrow> uuid \<Rightarrow> db \<Rightarrow> nat \<times> db" where
  "cancel_scheduled_account_outreach E others account reason correlation_id d =
     cancel_still_scheduled E account reason correlation_id (scheduled_account_tasks account d) 0 (others d)"

text \<open>The route and its validated reason: stripped, and not blank.\<close>

definition is_space :: "char \<Rightarrow> bool" where
  "is_space c \<longleftrightarrow> c \<in> {CHR 0x09, CHR 0x0A, CHR 0x0B, CHR 0x0C, CHR 0x0D, CHR 0x1C, CHR 0x1D, CHR 0x1E,
     CHR 0x1F, CHR '' '', CHR 0x85, CHR 0xA0}"

definition strip :: "string \<Rightarrow> string" where
  "strip s = rev (dropWhile is_space (rev (dropWhile is_space s)))"

definition reason_must_not_be_blank :: "string \<Rightarrow> py_error + string" where
  "reason_must_not_be_blank value =
     (let stripped = strip value in
      if stripped = [] then Inl (ValueError ''reason must not be blank'') else Inr stripped)"

definition cancel_outreach_request :: "string \<Rightarrow> py_error + string" where
  "cancel_outreach_request reason =
     (if \<not> 1 \<le> length reason \<or> \<not> length reason \<le> 500
      then Inl (ValidationError ''reason'')
      else map_sum (\<lambda>_. ValidationError ''reason'') id (reason_must_not_be_blank reason))"

definition cancel_account_outreach ::
  "env \<Rightarrow> (db \<Rightarrow> db) \<Rightarrow> string \<Rightarrow> string \<Rightarrow> uuid \<Rightarrow> db \<Rightarrow> (py_error + string \<times> nat) \<times> db" where
  "cancel_account_outreach E others account_external_id reason correlation_id d =
     (case find_account_by_external_id d account_external_id of
        None \<Rightarrow> (Inl (HTTPException 404 ''Account not found''), d)
      | Some account \<Rightarrow>
          (let (n, d1) = cancel_scheduled_account_outreach E others account reason correlation_id d
           in (Inr (acct_external_id account, n), d1)))"

end
