(* ===== verification/Operational_Facts.thy ===== *)
theory Operational_Facts
  imports Operational
begin

text \<open>
  The operational API respects the write interface; a manual result and a manual
  cancellation change exactly the rows they may change, and conflicts change nothing.
\<close>

section \<open>The steps as writes\<close>

lemma operational_audit_add:
  "operational_audit E t ty c p d = add_audit (audit_row E d ''outreach_task'' (uuid_str (task_id t)) ty
     API_CLIENT c (Some ''operational-api'') p) d"
  by (simp add: operational_audit_def append_audit_event_update add_audit_def)

lemma operational_audit_tables [frame_simps]:
  "outreach_tasks (operational_audit E t ty c p d) = outreach_tasks d"
  "customers (operational_audit E t ty c p d) = customers d"
  "accounts (operational_audit E t ty c p d) = accounts d"
  by (simp_all add: operational_audit_add add_audit_def)

lemma still_in_eq: "still_in st task = (\<lambda>t. task_id t = task_id task \<and> task_status t = st)"
  by (simp add: still_in_def fun_eq_iff)

lemma still_in_put:
  assumes "wf_db d" and "rowcount (still_in st task) (outreach_tasks d) = 1"
    and "\<And>t. task_id (f t) = task_id t"
  obtains t where "t \<in> set (outreach_tasks d)" and "task_id t = task_id task" and "task_status t = st"
    and "d\<lparr>outreach_tasks := update_where (still_in st task) f (outreach_tasks d)\<rparr> = put_task (f t) d"
proof -
  have "rowcount (\<lambda>t. task_id t = task_id task \<and> task_status t = st) (outreach_tasks d) \<noteq> 0"
    using assms(2) by (simp add: still_in_eq)
  then show thesis
    by (rule matched_put_row [OF wf_distinct(5) [OF assms(1)] _ assms(3)])
      (use that in \<open>auto simp: put_task_def still_in_eq\<close>)
qed

lemma still_in_one:
  assumes "wf_db d" and "t \<in> set (outreach_tasks d)"
  shows "rowcount (still_in (task_status t) t) (outreach_tasks d) = 1"
  unfolding still_in_eq using assms by (intro rowcount_by_key [OF wf_distinct(5)]) simp_all

context api_frame
begin

lemma frame_operational_audit:
  "map_of p ''inbound_event_id'' = None \<Longrightarrow> ty \<noteq> ''dispatch_started'' \<Longrightarrow> keeps R d (operational_audit E t ty c p d)"
  unfolding operational_audit_add by (rule keeps_audit) (simp_all add: audit_ok_def)

lemma frame_conditional:
  assumes "rowcount (still_in st task) (outreach_tasks d) = 1"
    and "\<And>t. task_id (f t) = task_id t"
    and "\<And>t. task_status t = st \<Longrightarrow> api_task_step t (f t)" and "map_of p ''inbound_event_id'' = None"
    and "ty \<noteq> ''dispatch_started''"
  shows "keeps R d (operational_audit E t' ty c p
    (d\<lparr>outreach_tasks := update_where (still_in st task) f (outreach_tasks d)\<rparr>))"
proof (cases "wf_db d")
  case True
  let ?d = "d\<lparr>outreach_tasks := update_where (still_in st task) f (outreach_tasks d)\<rparr>"
  from True assms(1,2) obtain t where "t \<in> set (outreach_tasks d)" "task_status t = st" "?d = put_task (f t) d"
    by (rule still_in_put)
  then have "keeps R d ?d" using assms(3) by (auto intro: keeps_api_task_change [of d t])
  moreover have "keeps R ?d (operational_audit E t' ty c p ?d)" using assms(4,5) by (rule frame_operational_audit)
  ultimately show ?thesis by (rule keeps_trans)
qed (simp add: keeps_def)

lemma frame_write_delivery_result:
  assumes "rowcount (still_in (task_status task) task) (outreach_tasks d) = 1"
    and "task_status task \<in> ALLOWED_MANUAL_DELIVERY_SOURCE_STATUSES"
  shows "keeps R d (write_delivery_result E task st m details d)"
proof -
  have "delivery_task_status st \<in> {SENT, FAILED}" by (cases st) auto
  then show ?thesis
    unfolding write_delivery_result_def
    using assms by (intro frame_conditional api_task_step.manual)
      (auto simp: ALLOWED_MANUAL_DELIVERY_SOURCE_STATUSES_def)
qed

lemma frame_record_manual_delivery_result:
  assumes "keeps R d (others d)"
  shows "keeps R d (snd (record_manual_delivery_result E others task st m details d))"
proof -
  have "keeps R d (write_delivery_result E task st m details (others d))"
    if "rowcount (still_in (task_status task) task) (outreach_tasks (others d)) = 1"
      "task_status task \<in> ALLOWED_MANUAL_DELIVERY_SOURCE_STATUSES"
    using assms frame_write_delivery_result [OF that] by (rule keeps_trans)
  with assms show ?thesis
    by (simp add: record_manual_delivery_result_def Let_def split: option.split)
qed

lemma frame_record_delivery_result:
  assumes "keeps R d (others d)"
  shows "keeps R d (snd (record_delivery_result E others i st m details d))"
proof -
  have "snd (record_delivery_result E others i st m details d) = d \<or>
      (\<exists>task. snd (record_delivery_result E others i st m details d) =
         snd (record_manual_delivery_result E others task st m details d))"
  proof (cases "get_outreach_task d i")
    case None
    then show ?thesis by (simp add: record_delivery_result_def)
  next
    case (Some task)
    have "snd (case x of (Inl (TaskStateConflictError m), d1) \<Rightarrow> (Inl (f m), d1)
        | (Inl e, d1) \<Rightarrow> (Inl e, d1) | (Inr t, d1) \<Rightarrow> (Inr t, d1)) = snd x"
      for x :: "(py_error + outreach_task) \<times> db" and f :: "string \<Rightarrow> py_error"
      by (simp split: prod.split sum.split py_error.split)
    with Some show ?thesis by (auto simp: record_delivery_result_def)
  qed
  then show ?thesis
    using frame_record_manual_delivery_result [of d others] assms by (metis keeps_refl)
qed

lemma frame_cancel_still_scheduled:
  "keeps R d (snd (cancel_still_scheduled E a reason c ts n d))"
proof (induction ts arbitrary: n d)
  case Nil
  then show ?case by simp
next
  case (Cons t ts)
  let ?P = "still_in SCHEDULED t"
  let ?d = "operational_audit E t ''outreach_cancelled'' c
    [(''reason'', JStr reason), (''account_external_id'', JStr (acct_external_id a)),
     (''channel'', JStr (channel_value (task_channel t))), (''cancelled_by'', JStr ''operational_api'')]
    (d\<lparr>outreach_tasks := update_where ?P (\<lambda>t. t\<lparr>task_status := CANCELLED\<rparr>) (outreach_tasks d)\<rparr>)"
  show ?case
  proof (cases "rowcount ?P (outreach_tasks d) = 1")
    case True
    have "keeps R d ?d"
      using True by (intro frame_conditional api_task_step.cancel) simp_all
    then have "keeps R d (snd (cancel_still_scheduled E a reason c ts (Suc n) ?d))"
      using Cons.IH by (rule keeps_trans)
    with True show ?thesis by simp
  next
    case False
    then show ?thesis using Cons.IH by simp
  qed
qed

lemma frame_cancel_account_outreach:
  assumes "keeps R d (others d)"
  shows "keeps R d (snd (cancel_account_outreach E others x reason c d))"
proof -
  have "keeps R d (snd (cancel_scheduled_account_outreach E others a reason c d))" for a
    unfolding cancel_scheduled_account_outreach_def
    using assms frame_cancel_still_scheduled by (rule keeps_trans)
  then show ?thesis
    by (auto simp: cancel_account_outreach_def Let_def split: option.splits prod.splits) (metis snd_conv)
qed

end

end
