(* ===== verification/System.thy ===== *)
theory System
  imports Ingestion_Windows Ingestion_Properties Dispatch_Facts Operational_Facts
begin

text \<open>
  The whole program as a step relation on the committed database: an ingestion, a
  worker pass, a manual delivery result or a manual cancellation, each with whatever
  the other sessions commit in the windows the components leave open.  What the others
  commit is again a sequence of steps of the system, so any number of API processes
  and workers run side by side.
\<close>

section \<open>Steps\<close>

inductive system_step :: "db \<Rightarrow> db \<Rightarrow> bool" where
  ingest: "fair_scan E \<Longrightarrow> (\<And>x. system_step\<^sup>*\<^sup>* x (others1 x)) \<Longrightarrow>
    (\<And>x. system_step\<^sup>*\<^sup>* x (others2 x)) \<Longrightarrow> (\<And>x. system_step\<^sup>*\<^sup>* x (others3 x)) \<Longrightarrow>
    (\<And>x. system_step\<^sup>*\<^sup>* x (others4 x)) \<Longrightarrow> ingest_event_between E others1 others2 others3 others4 src ext ty cs as at md corr (open_session d) = (res, s) \<Longrightarrow>
    system_step d (store s)"
| dispatch: "(\<And>i x. system_step\<^sup>*\<^sup>* x (before_claim I i x)) \<Longrightarrow> (\<And>i x. system_step\<^sup>*\<^sup>* x (during_send I i x)) \<Longrightarrow>
    system_step d (snd (dispatch_due_tasks E w I now limit d))"
| deliver: "(\<And>x. system_step\<^sup>*\<^sup>* x (others x)) \<Longrightarrow>
    system_step d (snd (record_delivery_result E others i st m details d))"
| stop: "(\<And>x. system_step\<^sup>*\<^sup>* x (others x)) \<Longrightarrow>
    system_step d (snd (cancel_account_outreach E others x reason corr d))"

section \<open>A worker leaves the claims of the others alone\<close>

text \<open>Replacing the row of another task.\<close>

lemma put_task_keeps_claim:
  assumes "task_id t \<noteq> i"
  shows "claim_kept i d (put_task t d)"
  using put_row_keeps [of _ "outreach_tasks d" task_id t] assms
  by (auto simp: claim_kept_def put_task_def)

lemma worker_audit_keeps_claim: "claim_kept i d (worker_audit E w t ty p d)"
  by (auto simp: claim_kept_def frame_simps)

lemma outcome_keeps_claim:
  assumes "task_id t \<noteq> i"
  shows "claim_kept i d (d\<lparr>outreach_tasks := update_where (dispatching t) f (outreach_tasks d)\<rparr>)"
proof -
  have "x \<in> set (update_where (dispatching t) f (outreach_tasks d))"
    if "x \<in> set (outreach_tasks d)" "task_id x = i" for x
    using that assms by (force simp: in_update_where dispatching_def)
  then show ?thesis by (auto simp: claim_kept_def)
qed

lemma record_outcome_keeps_claim:
  assumes "task_id t \<noteq> i"
  shows "claim_kept i d (record_success E w t result d)"
    and "record_failure E w now delay t err d = Inr d' \<Longrightarrow> claim_kept i d d'"
proof -
  have both: "claim_kept i d (worker_audit E w t ty p
      (d\<lparr>outreach_tasks := update_where (dispatching t) f (outreach_tasks d)\<rparr>))" for ty p f
    using outcome_keeps_claim [OF assms, of d f] worker_audit_keeps_claim by (rule claims.trans)
  then show "claim_kept i d (record_success E w t result d)"
    by (simp add: record_success_def claims.refl)
  show "record_failure E w now delay t err d = Inr d' \<Longrightarrow> claim_kept i d d'"
    by (erule record_failure_cases) (simp_all add: both claims.refl)
qed

lemma claim_kept_by_dispatch_task:
  assumes "\<And>j x. keeps (claim_kept i) x (before_claim I j x)"
    and "\<And>j x. keeps (claim_kept i) x (during_send I j x)"
    and "wf_db d0" and "dispatch_task E w I now j d0 = (res, d')"
  shows "claim_kept i d0 d'"
proof -
  let ?d = "before_claim I j d0"
  have wf: "wf_db ?d" and k0: "claim_kept i d0 ?d" using assms(1,3) by (simp_all add: keeps_def)
  show ?thesis
  proof (cases "find (\<lambda>t. task_id t = j) (outreach_tasks ?d) = None \<or> claim_task (instant now) j ?d = None")
    case True
    then have "d' = ?d" using assms(4) by (auto simp: dispatch_task_def Let_def split: option.splits)
    with k0 show ?thesis by simp
  next
    case False
    then obtain d1 where claim: "claim_task (instant now) j ?d = Some d1" by blast
    from wf claim obtain t0 where t0: "t0 \<in> set (outreach_tasks ?d)" "task_id t0 = j" "due (instant now) t0"
      and d1: "d1 = put_task (t0\<lparr>task_status := DISPATCHING, task_attempt_count := task_attempt_count t0 + 1\<rparr>) ?d"
      and found: "find (\<lambda>t. task_id t = j) (outreach_tasks d1) =
        Some (t0\<lparr>task_status := DISPATCHING, task_attempt_count := task_attempt_count t0 + 1\<rparr>)"
      and wf1: "wf_db d1"
      by (rule claimed_task)
    let ?t = "t0\<lparr>task_status := DISPATCHING, task_attempt_count := task_attempt_count t0 + 1\<rparr>"
    show ?thesis
    proof (cases "j = i")
      case True
      have "task_status x \<in> {SCHEDULED, BLOCKED}" if x: "x \<in> set (outreach_tasks d0)" "task_id x = i" for x
      proof (rule ccontr)
        assume "task_status x \<notin> {SCHEDULED, BLOCKED}"
        with x k0 obtain x' where "x' \<in> set (outreach_tasks ?d)" "task_id x' = i" "task_status x' \<noteq> SCHEDULED"
          unfolding claim_kept_def by fastforce
        then show False
          using key_row_unique [OF wf_distinct(5) [OF wf] _ t0(1)] t0(2,3) True by (force simp: due_def)
      qed
      then show ?thesis by (auto simp: claim_kept_def)
    next
      case False
      let ?d1 = "audit_dispatch_started E (wk_id w) ?t d1"
      let ?d2 = "during_send I j ?d1"
      have id: "task_id ?t \<noteq> i" using t0(2) False by simp
      have "wf_db ?d1"
        using audit_log.frame_claim [OF claim found] wf by (simp add: keeps_def)
      then have k2: "claim_kept i ?d1 ?d2" using assms(2) by (simp add: keeps_def)
      have k1: "claim_kept i ?d d1" unfolding d1 using id by (rule put_task_keeps_claim)
      have k1a: "claim_kept i d1 ?d1" unfolding audit_dispatch_started_def by (rule worker_audit_keeps_claim)
      have k: "claim_kept i d0 ?d2" using k0 k1 k1a k2 by (meson claims.trans)
      have "claim_kept i ?d2 d'"
        using assms(4) \<open>\<not> (find (\<lambda>t. task_id t = j) (outreach_tasks ?d) = None
            \<or> claim_task (instant now) j ?d = None)\<close> claim found record_outcome_keeps_claim [OF id]
        by (auto simp: dispatch_task_def Let_def claims.refl split: sum.splits)
      with k show ?thesis by (rule claims.trans)
    qed
  qed
qed

lemma claim_kept_by_dispatch:
  assumes "\<And>j x. keeps (claim_kept i) x (before_claim I j x)"
    and "\<And>j x. keeps (claim_kept i) x (during_send I j x)"
    and "respectful history_kept I"
  shows "keeps (claim_kept i) d (snd (dispatch_due_tasks E w I now limit d))"
proof -
  have "keeps (claim_kept i) d (snd (dispatch_tasks E w I now' ids n d))" for now' ids n
  proof (induction ids arbitrary: n d)
    case Nil
    then show ?case by (simp add: claims.keeps_refl)
  next
    case (Cons j ids)
    obtain res d1 where run: "dispatch_task E w I now' j d = (res, d1)" by fastforce
    have "keeps (claim_kept i) d d1"
      using claim_kept_by_dispatch_task [OF assms(1,2) _ run] history.frame_dispatch_task [OF assms(3) run]
      by (simp add: keeps_def)
    then show ?case
      using run Cons.IH by (cases res) (auto intro: claims.keeps_trans)
  qed
  then show ?thesis by (simp add: dispatch_due_tasks_def Let_def)
qed

section \<open>What every run of the system keeps\<close>

definition safe_change :: "db \<Rightarrow> db \<Rightarrow> bool" where
  "safe_change d d' \<longleftrightarrow> keeps history_kept d d' \<and> (\<forall>i. keeps (claim_kept i) d d')
     \<and> keeps (\<lambda>d d'. attempts_logged d \<longrightarrow> attempts_logged d') d d'"

lemma safe_changeI:
  "keeps history_kept d d' \<Longrightarrow> (\<And>i. keeps (claim_kept i) d d') \<Longrightarrow>
     keeps (\<lambda>d d'. attempts_logged d \<longrightarrow> attempts_logged d') d d' \<Longrightarrow> safe_change d d'"
  by (simp add: safe_change_def)

lemma safe_changeD:
  assumes "safe_change d d'"
  shows "keeps history_kept d d'" "keeps (claim_kept i) d d'"
    "keeps (\<lambda>d d'. attempts_logged d \<longrightarrow> attempts_logged d') d d'"
  using assms by (simp_all add: safe_change_def)

lemma safe_change_refl: "safe_change d d"
  by (simp add: safe_change_def history.keeps_refl claims.keeps_refl attempt_log.keeps_refl)

lemma safe_change_trans:
  assumes "safe_change d d'" and "safe_change d' d''"
  shows "safe_change d d''"
proof -
  note a = safe_changeD [OF assms(1)] and b = safe_changeD [OF assms(2)]
  show ?thesis
    by (rule safe_changeI [OF history.keeps_trans [OF a(1) b(1)] claims.keeps_trans [OF a(2) b(2)]
          attempt_log.keeps_trans [OF a(3) b(3)]])
qed

lemma safe_run: "(\<lambda>d d'. system_step d d' \<and> safe_change d d')\<^sup>*\<^sup>* d d' \<Longrightarrow> safe_change d d'"
  by (induction rule: rtranclp_induct) (auto intro: safe_change_refl safe_change_trans)

lemma system_step_safe: "system_step d d' \<Longrightarrow> safe_change d d'"
proof (induction rule: system_step.induct)
  case (ingest E others1 others2 others3 others4 src ext ty cs as at md corr d res s)
  have o: "safe_change x (others1 x)" "safe_change x (others2 x)" "safe_change x (others3 x)"
    "safe_change x (others4 x)" for x
    using ingest by (auto intro: safe_run)
  have fair: "fair_scan E"
    and run: "ingest_event_between E others1 others2 others3 others4 src ext ty cs as at md corr (open_session d) = (res, s)"
    using ingest by auto
  have opt: "keeps opt_out_kept x (others1 x)" "keeps opt_out_kept x (others2 x)"
    "keeps basis_kept x (others4 x)" for x
    using safe_changeD(1) [OF o(1)] safe_changeD(1) [OF o(2)] safe_changeD(1) [OF o(4)]
    by (simp_all add: keeps_def history_kept_def basis_kept_def)
  note o1 = safe_changeD [OF o(1)] and o2 = safe_changeD [OF o(2)] and o3 = safe_changeD [OF o(3)]
    and o4 = safe_changeD [OF o(4)]
  have start: "store (open_session d) = pending (open_session d)" "store (open_session d) = d"
    by (simp_all add: open_session_def)
  show ?case
    using history.frame_ingest_between [OF fair o1(1) o2(1) o3(1) o4(1) opt start(1) run]
      claims.frame_ingest_between [OF fair o1(2) o2(2) o3(2) o4(2) opt start(1) run]
      attempt_log.frame_ingest_between [OF fair o1(3) o2(3) o3(3) o4(3) opt start(1) run]
    unfolding start(2) by (rule safe_changeI)
next
  case (dispatch I d E w now limit)
  have b: "safe_change x (before_claim I i x)" and s: "safe_change x (during_send I i x)" for i x
    using dispatch by (auto intro: safe_run)
  have resp: "respectful history_kept I" using b s by (simp add: respectful_def safe_change_def)
  then have "keeps history_kept d (snd (dispatch_due_tasks E w I now limit d))"
    by (rule history.frame_dispatch_due_tasks)
  moreover have "respectful (\<lambda>d d'. attempts_logged d \<longrightarrow> attempts_logged d') I"
    using b s by (simp add: respectful_def safe_change_def)
  then have "keeps (\<lambda>d d'. attempts_logged d \<longrightarrow> attempts_logged d') d (snd (dispatch_due_tasks E w I now limit d))"
    by (rule attempt_log.frame_dispatch_due_tasks)
  moreover have "keeps (claim_kept i) d (snd (dispatch_due_tasks E w I now limit d))" for i
    using b s resp by (intro claim_kept_by_dispatch) (simp_all add: safe_change_def)
  ultimately show ?case by (intro safe_changeI)
next
  case (deliver others d E i st m details)
  have "safe_change d (others d)" using deliver by (auto intro: safe_run)
  note o = safe_changeD [OF this]
  show ?case
    by (intro safe_changeI history.frame_record_delivery_result claims.frame_record_delivery_result
        attempt_log.frame_record_delivery_result o)
next
  case (stop others d E x reason corr)
  have "safe_change d (others d)" using stop by (auto intro: safe_run)
  note o = safe_changeD [OF this]
  show ?case
    by (intro safe_changeI history.frame_cancel_account_outreach claims.frame_cancel_account_outreach
        attempt_log.frame_cancel_account_outreach o)
qed

lemma system_run_safe: "system_step\<^sup>*\<^sup>* d d' \<Longrightarrow> safe_change d d'"
  by (induction rule: rtranclp_induct) (auto intro: safe_change_refl safe_change_trans system_step_safe)

definition reachable :: "db \<Rightarrow> bool" where
  "reachable d \<longleftrightarrow> system_step\<^sup>*\<^sup>* empty_db d"

lemma reachable_wf: "reachable d \<Longrightarrow> wf_db d"
  using system_run_safe [of empty_db d] wf_empty by (simp add: reachable_def safe_change_def keeps_def)

section \<open>Safety of the whole program\<close>

text \<open>C1. In every database the program can reach, whatever runs side by side: each task
  rests on a recorded decision for its own account, customer and channel that is not a
  block; the account belongs to that customer; no task has been attempted more often
  than its maximum; and no two events share an identity and no two tasks a key.\<close>

theorem reachable_tasks_justified:
  assumes "reachable d" and "t \<in> set (outreach_tasks d)"
  shows "(\<exists>p\<in>set (policy_decisions d). task_policy_decision_id t = Some (pd_id p) \<and> pd_decision p \<noteq> BLOCK
      \<and> pd_account_id p = task_account_id t \<and> pd_customer_id p = task_customer_id t
      \<and> pd_channel p = Some (task_channel t)
      \<and> (\<exists>a\<in>set (accounts d). acct_id a = task_account_id t \<and> acct_customer_id a = task_customer_id t))
    \<and> 0 \<le> task_attempt_count t \<and> task_attempt_count t \<le> task_max_attempts t
    \<and> distinct (map (\<lambda>e. (ev_source e, ev_external_id e)) (inbound_events d))
    \<and> distinct (map task_idempotency_key (outreach_tasks d))"
proof -
  have wf: "wf_db d" using assms(1) by (rule reachable_wf)
  then obtain p where p: "p \<in> set (policy_decisions d)" "task_basis p t" and att: "attempts_ok t"
    using assms(2) by (auto simp: wf_db_def task_ok_def)
  have "decision_ok d p" using wf p(1) by (simp add: wf_db_def)
  then obtain a where "a \<in> set (accounts d)" "acct_id a = pd_account_id p" "acct_customer_id a = pd_customer_id p"
    by (auto simp: decision_ok_def owners_def)
  with p have "\<exists>p\<in>set (policy_decisions d). task_policy_decision_id t = Some (pd_id p) \<and> pd_decision p \<noteq> BLOCK
      \<and> pd_account_id p = task_account_id t \<and> pd_customer_id p = task_customer_id t
      \<and> pd_channel p = Some (task_channel t)
      \<and> (\<exists>a\<in>set (accounts d). acct_id a = task_account_id t \<and> acct_customer_id a = task_customer_id t)"
    by (intro bexI [of _ p]) (auto simp: task_basis_def)
  with att wf_unique(3,5) [OF wf] show ?thesis by (simp add: attempts_ok_def)
qed

text \<open>C3. No run of the program rewrites history: from any reachable database on, audit
  rows and decisions are only appended, no opt-out is taken back, no account leaves its
  customer, no event is lost, and every task moves along its life cycle.\<close>

theorem system_keeps_history:
  assumes "reachable d" and "system_step\<^sup>*\<^sup>* d d'"
  shows "audit_appended d d' \<and> decisions_appended d d' \<and> opt_out_kept d d' \<and> lineage_kept d d'
    \<and> tasks_evolved d d' \<and> events_kept d d'"
  using system_run_safe [OF assms(2)] reachable_wf [OF assms(1)]
  by (simp add: safe_change_def keeps_def history_kept_def)

text \<open>C2. A claimed task is claimed by one worker only: once a worker's conditional update
  has matched, no other session can claim that task again, however many steps of other
  workers, ingestions and API calls come in between.\<close>

theorem claim_is_exclusive:
  assumes "reachable d" and "claim_task now i d = Some d1" and "system_step\<^sup>*\<^sup>* d1 d2"
  shows "claim_task now' i d2 = None"
proof -
  have wf: "wf_db d" using assms(1) by (rule reachable_wf)
  from wf assms(2) obtain t where "find (\<lambda>t. task_id t = i) (outreach_tasks d1) =
      Some (t\<lparr>task_status := DISPATCHING, task_attempt_count := task_attempt_count t + 1\<rparr>)"
    and wf1: "wf_db d1" by (rule claimed_task)
  then obtain x where x: "x \<in> set (outreach_tasks d1)" "task_id x = i" "task_status x = DISPATCHING"
    by (fastforce dest: find_Some_in)
  have wf2: "wf_db d2" and "claim_kept i d1 d2"
    using system_run_safe [OF assms(3)] wf1 by (auto simp: safe_change_def keeps_def)
  then obtain x' where x': "x' \<in> set (outreach_tasks d2)" "task_id x' = i" "task_status x' \<noteq> SCHEDULED"
    using x unfolding claim_kept_def by fastforce
  have "rowcount (\<lambda>t. task_id t = i \<and> due now' t) (outreach_tasks d2) = 0"
    using key_row_unique [OF wf_distinct(5) [OF wf2] _ x'(1)] x'(2,3)
    by (force simp: rowcount_zero_iff due_def)
  then show ?thesis by (simp add: claim_task_def)
qed

text \<open>C4. The audit log is a faithful record of the attempts: in every database the program can
  reach, the number of attempts a task counts is the number of audit rows of started
  dispatches that name it, and every such row names a task.\<close>

theorem attempts_are_audited:
  assumes "reachable d"
  shows "(\<forall>t\<in>set (outreach_tasks d). task_attempt_count t =
        int (rowcount (\<lambda>r. ae_event_type r = ''dispatch_started'' \<and> ae_entity_id r = uuid_str (task_id t)) (audit_events d)))
    \<and> (\<forall>r\<in>set (audit_events d). ae_event_type r = ''dispatch_started'' \<longrightarrow>
        (\<exists>t\<in>set (outreach_tasks d). ae_entity_id r = uuid_str (task_id t)))"
proof -
  have "attempts_logged empty_db" by (simp add: attempts_logged_def empty_db_def)
  then have "attempts_logged d"
    using system_run_safe [of empty_db d] assms wf_empty by (simp add: reachable_def safe_change_def keeps_def)
  then show ?thesis by (simp add: attempts_logged_def started_row_def [abs_def])
qed

end
