(* ===== verification/Operational_Properties.thy ===== *)
theory Operational_Properties
  imports Operational_Facts
begin

text \<open>
  The functional behaviour of the operational API: a manual result on every branch,
  a manual cancellation with its count, and the filtered listing.
\<close>

section \<open>Manual delivery results\<close>

lemma get_outreach_task_in:
  assumes "wf_db d"
  shows "get_outreach_task d i = Some t \<longleftrightarrow> t \<in> set (outreach_tasks d) \<and> task_id t = i"
  using find_by_key [OF wf_distinct(5) [OF assms], of t] find_Some_in [of "\<lambda>t. task_id t = i" "outreach_tasks d" t]
  by (auto simp: get_outreach_task_def)

definition delivered :: "delivery_status \<Rightarrow> payload \<Rightarrow> outreach_task \<Rightarrow> outreach_task" where
  "delivered st details t = t\<lparr>task_status := delivery_task_status st, task_last_error := manual_last_error st details\<rparr>"

text \<open>C22. A manual result on a task that is scheduled, dispatching or failed stores exactly
  the reported status and its error, answers with the updated task, leaves every other
  row alone and appends one audit row with the correlation id of the task.\<close>

theorem delivery_result_recorded:
  assumes "wf_db d" and "t \<in> set (outreach_tasks d)"
    and "task_status t \<in> ALLOWED_MANUAL_DELIVERY_SOURCE_STATUSES"
    and "\<not> strict_columns E \<or> last_error_fits (manual_last_error st details)"
  shows "\<exists>d' r. record_delivery_result E (\<lambda>x. x) (task_id t) st m details d = (Inr (delivered st details t), d')
    \<and> outreach_tasks d' = put_row task_id (delivered st details t) (outreach_tasks d)
    \<and> audit_events d' = audit_events d @ [r] \<and> ae_event_type r = ''delivery_result_recorded''
    \<and> ae_correlation_id r = task_correlation_id t"
proof -
  let ?t = "delivered st details t"
  let ?f = "\<lambda>r. r\<lparr>task_status := delivery_task_status st, task_last_error := manual_last_error st details\<rparr>"
  have get: "get_outreach_task d (task_id t) = Some t" using assms(1,2) by (simp add: get_outreach_task_in)
  have one: "rowcount (still_in (task_status t) t) (outreach_tasks d) = 1" using assms(1,2) by (rule still_in_one)
  from assms(1) one obtain r where r: "r \<in> set (outreach_tasks d)" "task_id r = task_id t"
      and put: "d\<lparr>outreach_tasks := update_where (still_in (task_status t) t) ?f (outreach_tasks d)\<rparr> = put_task (?f r) d"
    by (rule still_in_put [where f = ?f]) simp_all
  have "r = t" using key_row_unique [OF wf_distinct(5) [OF assms(1)] r(1) assms(2) r(2)] .
  then have rows: "outreach_tasks (write_delivery_result E t st m details d) = put_row task_id ?t (outreach_tasks d)"
    using put by (simp add: write_delivery_result_def frame_simps delivered_def put_task_def)
  have "?t \<in> set (put_row task_id ?t (outreach_tasks d))"
    using put_row_has [OF assms(2), of task_id ?t] by (simp add: delivered_def)
  moreover have "wf_db (write_delivery_result E t st m details d)"
    using audit_log.frame_write_delivery_result [OF one assms(3)] assms(1) by (simp add: keeps_def)
  ultimately have found: "get_outreach_task (write_delivery_result E t st m details d) (task_id t) = Some ?t"
    by (simp add: get_outreach_task_in rows) (simp add: delivered_def)
  have "record_manual_delivery_result E (\<lambda>x. x) t st m details d =
      (Inr ?t, write_delivery_result E t st m details d)"
    using assms(3,4) one found by (auto simp: record_manual_delivery_result_def Let_def)
  moreover have "task_status t \<noteq> CANCELLED"
    using assms(3) by (auto simp: ALLOWED_MANUAL_DELIVERY_SOURCE_STATUSES_def)
  ultimately have run: "record_delivery_result E (\<lambda>x. x) (task_id t) st m details d =
      (Inr ?t, write_delivery_result E t st m details d)"
    using get assms(3) by (simp add: record_delivery_result_def)
  have audit: "\<exists>r. audit_events (write_delivery_result E t st m details d) = audit_events d @ [r]
      \<and> ae_event_type r = ''delivery_result_recorded'' \<and> ae_correlation_id r = task_correlation_id t"
    by (simp add: write_delivery_result_def operational_audit_add add_audit_def)
  show ?thesis unfolding run using rows audit by blast
qed

text \<open>C23. Sent and cancelled tasks are final for the API, a missing task is a 404, and a task
  whose status another session changed after it was read is a conflict: in all three
  cases the request writes nothing.\<close>

theorem delivery_result_conflicts:
  assumes "wf_db d" and "wf_db (others d)"
  shows "(get_outreach_task d i = None \<longrightarrow>
      record_delivery_result E others i st m details d = (Inl (HTTPException 404 ''Task not found''), d))
    \<and> (\<forall>t\<in>set (outreach_tasks d). task_id t = i \<and> task_status t \<in> {SENT, CANCELLED, BLOCKED} \<longrightarrow>
      (\<exists>msg. record_delivery_result E others i st m details d = (Inl (HTTPException 409 msg), d)))
    \<and> (\<forall>t\<in>set (outreach_tasks d). \<forall>u\<in>set (outreach_tasks (others d)). task_id t = i \<and> task_id u = i
        \<and> task_status t \<in> ALLOWED_MANUAL_DELIVERY_SOURCE_STATUSES \<and> task_status u \<noteq> task_status t
        \<and> last_error_fits (manual_last_error st details) \<longrightarrow>
      (\<exists>msg. record_delivery_result E others i st m details d = (Inl (HTTPException 409 msg), others d)))"
proof (intro conjI ballI impI)
  show "get_outreach_task d i = None \<Longrightarrow>
      record_delivery_result E others i st m details d = (Inl (HTTPException 404 ''Task not found''), d)"
    by (simp add: record_delivery_result_def)
next
  fix t assume t: "t \<in> set (outreach_tasks d)"
    and st: "task_id t = i \<and> task_status t \<in> {SENT, CANCELLED, BLOCKED}"
  then have "get_outreach_task d i = Some t" using assms(1) by (simp add: get_outreach_task_in)
  with st show "\<exists>msg. record_delivery_result E others i st m details d = (Inl (HTTPException 409 msg), d)"
    by (auto simp: record_delivery_result_def ALLOWED_MANUAL_DELIVERY_SOURCE_STATUSES_def)
next
  fix t u assume t: "t \<in> set (outreach_tasks d)" and u: "u \<in> set (outreach_tasks (others d))"
    and c: "task_id t = i \<and> task_id u = i \<and> task_status t \<in> ALLOWED_MANUAL_DELIVERY_SOURCE_STATUSES
      \<and> task_status u \<noteq> task_status t \<and> last_error_fits (manual_last_error st details)"
  have get: "get_outreach_task d i = Some t" using t c assms(1) by (simp add: get_outreach_task_in)
  have "rowcount (still_in (task_status t) t) (outreach_tasks (others d)) = 0"
    using key_row_unique [OF wf_distinct(5) [OF assms(2)] _ u] c
    by (auto simp: rowcount_zero_iff still_in_eq)
  then have "record_manual_delivery_result E others t st m details d =
      (Inl (TaskStateConflictError ''Task status changed before delivery result update''), others d)"
    using c by (simp add: record_manual_delivery_result_def Let_def)
  moreover have "task_status t \<noteq> CANCELLED"
    using c by (auto simp: ALLOWED_MANUAL_DELIVERY_SOURCE_STATUSES_def)
  ultimately show "\<exists>msg. record_delivery_result E others i st m details d = (Inl (HTTPException 409 msg), others d)"
    using get c by (simp add: record_delivery_result_def)
qed

section \<open>Manual cancellation\<close>

lemma rowcount_disjoint:
  "(\<And>r. \<not> (P r \<and> Q r)) \<Longrightarrow> rowcount (\<lambda>r. P r \<or> Q r) rows = rowcount P rows + rowcount Q rows"
  by (induction rows) auto

lemma update_where_both:
  "(\<And>r. f (f r) = f r) \<Longrightarrow> update_where Q f (update_where P f rows) = update_where (\<lambda>r. P r \<or> Q r) f rows"
  by (induction rows) auto

lemma rowcount_update_apart:
  "(\<And>r. P r \<Longrightarrow> \<not> Q r \<and> \<not> Q (f r)) \<Longrightarrow> rowcount Q (update_where P f rows) = rowcount Q rows"
  by (induction rows) auto

lemma cancel_still_scheduled_rows:
  assumes "wf_db d" and "distinct (map task_id ts)"
  shows "outreach_tasks (snd (cancel_still_scheduled E a reason c ts n d)) =
      update_where (\<lambda>t. task_status t = SCHEDULED \<and> task_id t \<in> task_id ` set ts)
        (\<lambda>t. t\<lparr>task_status := CANCELLED\<rparr>) (outreach_tasks d)
    \<and> fst (cancel_still_scheduled E a reason c ts n d) =
      n + rowcount (\<lambda>t. task_status t = SCHEDULED \<and> task_id t \<in> task_id ` set ts) (outreach_tasks d)"
  using assms
proof (induction ts arbitrary: n d)
  case Nil
  then show ?case by (simp add: update_where_none rowcount_zero_iff)
next
  case (Cons t ts)
  let ?P = "still_in SCHEDULED t"
  let ?Q = "\<lambda>ts r. task_status r = SCHEDULED \<and> task_id r \<in> task_id ` set ts"
  let ?rows = "update_where ?P (\<lambda>t. t\<lparr>task_status := CANCELLED\<rparr>) (outreach_tasks d)"
  let ?d = "operational_audit E t ''outreach_cancelled'' c
    [(''reason'', JStr reason), (''account_external_id'', JStr (acct_external_id a)),
     (''channel'', JStr (channel_value (task_channel t))), (''cancelled_by'', JStr ''operational_api'')]
    (d\<lparr>outreach_tasks := ?rows\<rparr>)"
  have split: "?Q (t # ts) = (\<lambda>r. ?P r \<or> ?Q ts r)" by (auto simp: still_in_eq fun_eq_iff)
  have apart: "\<not> (?P r \<and> ?Q ts r)" for r using Cons.prems(2) by (auto simp: still_in_eq)
  have count: "rowcount (?Q (t # ts)) rows = rowcount ?P rows + rowcount (?Q ts) rows" for rows
    unfolding split using apart by (rule rowcount_disjoint)
  show ?case
  proof (cases "rowcount ?P (outreach_tasks d) = 1")
    case True
    have "keeps audit_appended d ?d"
      using True by (intro audit_log.frame_conditional api_task_step.cancel) simp_all
    then have wf: "wf_db ?d" using Cons.prems(1) by (simp add: keeps_def)
    have "update_where (?Q ts) (\<lambda>t. t\<lparr>task_status := CANCELLED\<rparr>) ?rows
        = update_where (?Q (t # ts)) (\<lambda>t. t\<lparr>task_status := CANCELLED\<rparr>) (outreach_tasks d)"
      unfolding split by (rule update_where_both) simp
    moreover have "rowcount (?Q ts) ?rows = rowcount (?Q ts) (outreach_tasks d)"
      using apart by (intro rowcount_update_apart) auto
    ultimately show ?thesis
      using Cons.IH [OF wf, of "Suc n"] Cons.prems(2) True count by (simp add: frame_simps)
  next
    case False
    have "rowcount ?P (outreach_tasks d) \<le> 1"
    proof (cases "\<exists>r\<in>set (outreach_tasks d). ?P r")
      case True
      then obtain r where r: "r \<in> set (outreach_tasks d)" "task_id r = task_id t" "task_status r = SCHEDULED"
        by (auto simp: still_in_eq)
      then show ?thesis
        using rowcount_by_key [OF wf_distinct(5) [OF Cons.prems(1)] r(1), of "\<lambda>r. task_status r = SCHEDULED"]
        by (simp add: still_in_eq)
    next
      case False
      then have "rowcount ?P (outreach_tasks d) = 0" by (auto simp: rowcount_zero_iff)
      then show ?thesis by simp
    qed
    with False have zero: "rowcount ?P (outreach_tasks d) = 0" by simp
    then have "update_where (?Q (t # ts)) (\<lambda>t. t\<lparr>task_status := CANCELLED\<rparr>) (outreach_tasks d) =
        update_where (?Q ts) (\<lambda>t. t\<lparr>task_status := CANCELLED\<rparr>) (outreach_tasks d)"
      unfolding split by (intro update_where_cong) (auto simp: rowcount_zero_iff)
    then show ?thesis
      using Cons.IH [OF Cons.prems(1), of n] Cons.prems(2) False zero count by simp
  qed
qed

lemma scheduled_account_tasks_ids:
  assumes "wf_db d"
  shows "distinct (map task_id (scheduled_account_tasks a d))"
    and "set (scheduled_account_tasks a d) =
      {t \<in> set (outreach_tasks d). task_account_id t = acct_id a \<and> task_status t = SCHEDULED}"
proof -
  let ?P = "\<lambda>t. task_account_id t = acct_id a \<and> task_status t = SCHEDULED"
  have "mset (map task_id (scheduled_account_tasks a d)) = mset (map task_id (filter ?P (outreach_tasks d)))"
    by (simp add: scheduled_account_tasks_def)
  then show "distinct (map task_id (scheduled_account_tasks a d))"
    using wf_distinct(5) [OF assms] mset_eq_imp_distinct_iff distinct_map_filter by blast
  show "set (scheduled_account_tasks a d) = {t \<in> set (outreach_tasks d). ?P t}"
    by (simp add: scheduled_account_tasks_def)
qed

text \<open>C24. Stopping the outreach of an account cancels every task of it that is scheduled,
  those of all its channels and nothing else, reports their number, and leaves none
  scheduled; asking again cancels nothing more.\<close>

theorem cancel_account_outreach_exact:
  assumes "wf_db d" and "a \<in> set (accounts d)"
  shows "\<exists>d' n. cancel_account_outreach E (\<lambda>x. x) (acct_external_id a) reason corr d =
      (Inr (acct_external_id a, n), d')
    \<and> n = rowcount (\<lambda>t. task_account_id t = acct_id a \<and> task_status t = SCHEDULED) (outreach_tasks d)
    \<and> outreach_tasks d' = update_where (\<lambda>t. task_account_id t = acct_id a \<and> task_status t = SCHEDULED)
        (\<lambda>t. t\<lparr>task_status := CANCELLED\<rparr>) (outreach_tasks d)
    \<and> (\<forall>t\<in>set (outreach_tasks d'). task_account_id t = acct_id a \<longrightarrow> task_status t \<noteq> SCHEDULED)
    \<and> cancel_account_outreach E (\<lambda>x. x) (acct_external_id a) reason corr d' =
        (Inr (acct_external_id a, 0), d')"
proof -
  let ?P = "\<lambda>t. task_account_id t = acct_id a \<and> task_status t = SCHEDULED"
  let ?run = "cancel_still_scheduled E a reason corr (scheduled_account_tasks a d) 0 d"
  obtain n d' where run: "?run = (n, d')" by fastforce
  have found: "find_account_by_external_id d (acct_external_id a) = Some a"
    using find_by_key [OF wf_unique(2) [OF assms(1)] assms(2)] by (simp add: find_account_by_external_id_def)
  have sel: "task_status t = SCHEDULED \<and> task_id t \<in> task_id ` set (scheduled_account_tasks a d) \<longleftrightarrow> ?P t"
    if "t \<in> set (outreach_tasks d)" for t
    using that key_row_unique [OF wf_distinct(5) [OF assms(1)]]
    by (auto simp: scheduled_account_tasks_ids(2) [OF assms(1)])
  have rows: "outreach_tasks d' = update_where ?P (\<lambda>t. t\<lparr>task_status := CANCELLED\<rparr>) (outreach_tasks d)"
    and n: "n = rowcount ?P (outreach_tasks d)"
    using cancel_still_scheduled_rows [OF assms(1) scheduled_account_tasks_ids(1) [OF assms(1)], of E a reason corr a 0]
      sel run by (simp_all cong: update_where_cong add: rowcount_def cong: filter_cong)
  have none: "\<forall>t\<in>set (outreach_tasks d'). task_account_id t = acct_id a \<longrightarrow> task_status t \<noteq> SCHEDULED"
  proof (intro ballI impI)
    fix t assume t: "t \<in> set (outreach_tasks d')" and acct: "task_account_id t = acct_id a"
    from t obtain r where "r \<in> set (outreach_tasks d)" "t = (if ?P r then r\<lparr>task_status := CANCELLED\<rparr> else r)"
      unfolding rows by (rule in_update_whereE)
    with acct show "task_status t \<noteq> SCHEDULED" by (cases "?P r") auto
  qed
  then have empty: "scheduled_account_tasks a d' = []"
    by (auto simp: scheduled_account_tasks_def filter_empty_conv) 
  have "accounts (snd (cancel_still_scheduled E a reason corr ts k x)) = accounts x" for ts k x
    by (induction ts arbitrary: k x) (simp_all add: frame_simps)
  from this [of "scheduled_account_tasks a d" 0 d] have "accounts d' = accounts d" using run by simp
  then have found': "find_account_by_external_id d' (acct_external_id a) = Some a"
    using found by (simp add: find_account_by_external_id_def)
  show ?thesis
    using found found' run rows n none empty
    by (auto simp: cancel_account_outreach_def cancel_scheduled_account_outreach_def)
qed

section \<open>Listing\<close>

text \<open>The listing returns only rows that match every filter given, oldest first, never
  more than the limit, and when it returns fewer than the limit it has left none out.\<close>

lemma list_tasks_complete:
  shows "set (list_tasks d st c a ch limit) \<subseteq> {t \<in> set (outreach_tasks d). apply_task_filters d st c a ch t}
    \<and> sorted (map (\<lambda>t. (task_created_at t, task_id t)) (list_tasks d st c a ch limit))
    \<and> length (list_tasks d st c a ch limit) = min limit (rowcount (apply_task_filters d st c a ch) (outreach_tasks d))
    \<and> (length (list_tasks d st c a ch limit) < limit \<longrightarrow>
        set (list_tasks d st c a ch limit) = {t \<in> set (outreach_tasks d). apply_task_filters d st c a ch t})"
proof -
  let ?ts = "sort_key (\<lambda>t. (task_created_at t, task_id t)) (filter (apply_task_filters d st c a ch) (outreach_tasks d))"
  have l: "list_tasks d st c a ch limit = take limit ?ts" by (simp add: list_tasks_def)
  have "set (take limit ?ts) \<subseteq> set ?ts" by (rule set_take_subset)
  moreover have "sorted (map (\<lambda>t. (task_created_at t, task_id t)) (take limit ?ts))"
    unfolding take_map [symmetric] by (intro sorted_wrt_take sorted_sort_key)
  moreover have "length (take limit ?ts) < limit \<Longrightarrow> take limit ?ts = ?ts" by simp
  ultimately show ?thesis unfolding l by (auto simp: rowcount_def)
qed

end
