(* ===== verification/Tasks_Api.thy ===== *)
theory Tasks_Api
  imports Operational_Properties
begin

text \<open>
  The answers of \<open>src/orchestrator/api/tasks.py\<close>: what a client sees of a task, which joins the
  row with its account, its customer and its policy decision, the routes that list and
  fetch tasks, and the request of a manual delivery result.  \<open>updated_at\<close> is left out, as in
  the rows.
\<close>

section \<open>Responses\<close>

record policy_decision_context_response =
  pc_id :: uuid
  pc_decision :: string
  pc_channel :: "string option"
  pc_reasons :: "string list"

record outreach_task_response =
  tr_id :: uuid
  tr_account_external_id :: string
  tr_customer_external_id :: string
  tr_channel :: outreach_channel
  tr_status :: outreach_task_status
  tr_correlation_id :: uuid
  tr_scheduled_at :: usec
  tr_attempt_count :: int
  tr_max_attempts :: int
  tr_last_error :: "string option"
  tr_created_at :: usec
  tr_policy_decision :: "policy_decision_context_response option"

text \<open>The relationships of a task: the row its foreign key names, or \<open>None\<close>.\<close>

definition task_account :: "db \<Rightarrow> outreach_task \<Rightarrow> account option" where
  "task_account d t = find (\<lambda>a. acct_id a = task_account_id t) (accounts d)"

definition task_customer :: "db \<Rightarrow> outreach_task \<Rightarrow> customer option" where
  "task_customer d t = find (\<lambda>c. cust_id c = task_customer_id t) (customers d)"

definition task_policy_decision :: "db \<Rightarrow> outreach_task \<Rightarrow> policy_decision option" where
  "task_policy_decision d t =
     (case task_policy_decision_id t of None \<Rightarrow> None
      | Some i \<Rightarrow> find (\<lambda>p. pd_id p = i) (policy_decisions d))"

definition policy_decision_context :: "policy_decision \<Rightarrow> policy_decision_context_response" where
  "policy_decision_context p = \<lparr>pc_id = pd_id p, pc_decision = outcome_value (pd_decision p),
     pc_channel = map_option channel_value (pd_channel p), pc_reasons = pd_reasons p\<rparr>"

text \<open>An attribute of a missing row is an attribute of \<open>None\<close>.\<close>

definition task_response :: "db \<Rightarrow> outreach_task \<Rightarrow> py_error + outreach_task_response" where
  "task_response d t =
     (case task_account d t of None \<Rightarrow> Inl AttributeError
      | Some a \<Rightarrow>
          (case task_customer d t of None \<Rightarrow> Inl AttributeError
           | Some c \<Rightarrow> Inr
              \<lparr>tr_id = task_id t, tr_account_external_id = acct_external_id a,
               tr_customer_external_id = cust_external_id c, tr_channel = task_channel t,
               tr_status = task_status t, tr_correlation_id = task_correlation_id t,
               tr_scheduled_at = task_scheduled_at t, tr_attempt_count = task_attempt_count t,
               tr_max_attempts = task_max_attempts t, tr_last_error = task_last_error t,
               tr_created_at = task_created_at t,
               tr_policy_decision = map_option policy_decision_context (task_policy_decision d t)\<rparr>))"

fun task_responses :: "db \<Rightarrow> outreach_task list \<Rightarrow> py_error + outreach_task_response list" where
  "task_responses d [] = Inr []"
| "task_responses d (t # ts) =
     (case task_response d t of Inl e \<Rightarrow> Inl e
      | Inr r \<Rightarrow> map_sum id (\<lambda>rs. r # rs) (task_responses d ts))"

section \<open>Routes\<close>

definition list_tasks_route ::
  "db \<Rightarrow> outreach_task_status option \<Rightarrow> string option \<Rightarrow> string option \<Rightarrow> outreach_channel option
     \<Rightarrow> int \<Rightarrow> py_error + outreach_task_response list" where
  "list_tasks_route d status_filter customer_external_id account_external_id channel limit =
     (if \<not> (1 \<le> limit \<and> limit \<le> 100) then Inl (ValidationError ''limit'')
      else task_responses d
        (list_tasks d status_filter customer_external_id account_external_id channel (nat limit)))"

definition get_task :: "db \<Rightarrow> uuid \<Rightarrow> py_error + outreach_task_response" where
  "get_task d i =
     (case get_outreach_task d i of
        None \<Rightarrow> Inl (HTTPException 404 ''Task not found'')
      | Some t \<Rightarrow> task_response d t)"

definition delivery_result_request :: "string \<Rightarrow> string option \<Rightarrow> py_error + delivery_status" where
  "delivery_result_request status provider_message_id =
     (if status \<notin> {''sent'', ''failed''} then Inl (ValidationError ''status'')
      else if \<not> nullable_varchar 255 provider_message_id then Inl (ValidationError ''provider_message_id'')
      else Inr (if status = ''sent'' then Sent else Failed))"

definition post_delivery_result ::
  "env \<Rightarrow> (db \<Rightarrow> db) \<Rightarrow> uuid \<Rightarrow> string \<Rightarrow> string option \<Rightarrow> payload \<Rightarrow> db
     \<Rightarrow> (py_error + outreach_task_response) \<times> db" where
  "post_delivery_result E others i status provider_message_id details d =
     (case delivery_result_request status provider_message_id of
        Inl e \<Rightarrow> (Inl e, d)
      | Inr st \<Rightarrow>
          (case record_delivery_result E others i st provider_message_id details d of
             (Inl e, d1) \<Rightarrow> (Inl e, d1)
           | (Inr t, d1) \<Rightarrow> (task_response d1 t, d1)))"

section \<open>What a client sees\<close>

text \<open>The rows a task points to exist, and the decision is not a block.\<close>

lemma task_relations:
  assumes "wf_db d" and "t \<in> set (outreach_tasks d)"
  obtains a c p where "task_account d t = Some a" and "a \<in> set (accounts d)" and "acct_customer_id a = task_customer_id t"
    and "task_customer d t = Some c" and "c \<in> set (customers d)"
    and "task_policy_decision d t = Some p" and "p \<in> set (policy_decisions d)" and "task_basis p t"
proof -
  obtain p where p: "p \<in> set (policy_decisions d)" "task_basis p t"
    using assms by (auto simp: wf_db_def task_ok_def)
  have "decision_ok d p" using assms(1) p(1) by (simp add: wf_db_def)
  then obtain a where a: "a \<in> set (accounts d)" "acct_id a = task_account_id t" "acct_customer_id a = task_customer_id t"
    using p(2) by (auto simp: decision_ok_def owners_def task_basis_def)
  have "set (map acct_customer_id (accounts d)) \<subseteq> set (map cust_id (customers d))"
    using assms(1) by (simp add: wf_db_def)
  then have "acct_customer_id a \<in> set (map cust_id (customers d))" using a(1) by auto
  then obtain c where c: "c \<in> set (customers d)" "cust_id c = task_customer_id t" using a(3) by auto
  show thesis
  proof
    show "task_account d t = Some a"
      using find_by_key [OF wf_distinct(2) [OF assms(1)] a(1)] a(2) by (simp add: task_account_def)
    show "task_customer d t = Some c"
      using find_by_key [OF wf_distinct(1) [OF assms(1)] c(1)] c(2) by (simp add: task_customer_def)
    show "task_policy_decision d t = Some p"
      using find_by_key [OF wf_distinct(4) [OF assms(1)] p(1)] p(2) by (simp add: task_policy_decision_def task_basis_def)
  qed fact+
qed

text \<open>The answer agrees with the row, with its relationships, and with the filters.\<close>

definition shows_task :: "db \<Rightarrow> outreach_task \<Rightarrow> outreach_task_response \<Rightarrow> bool" where
  "shows_task d t r \<longleftrightarrow> task_response d t = Inr r \<and> tr_id r = task_id t"

lemma task_response_total:
  assumes "wf_db d" and "t \<in> set (outreach_tasks d)"
  shows "\<exists>r. shows_task d t r"
  using assms by (rule task_relations) (auto simp: task_response_def shows_task_def)

lemma task_responses_total:
  assumes "\<And>t. t \<in> set ts \<Longrightarrow> \<exists>r. shows_task d t r"
  shows "\<exists>rs. task_responses d ts = Inr rs \<and> list_all2 (shows_task d) ts rs"
  using assms
proof (induction ts)
  case (Cons t ts)
  then obtain r rs where "shows_task d t r" "task_responses d ts = Inr rs" "list_all2 (shows_task d) ts rs"
    by (metis list.set_intros)
  then show ?case by (intro exI [of _ "r # rs"]) (simp add: shows_task_def [of d t r])
qed simp

lemma list_all2_in_right: "list_all2 P xs ys \<Longrightarrow> y \<in> set ys \<Longrightarrow> \<exists>x\<in>set xs. P x y"
  by (induction rule: list_all2_induct) auto

lemma get_task_row:
  assumes "wf_db d" and "t \<in> set (outreach_tasks d)"
  shows "get_task d (task_id t) = task_response d t"
proof -
  have "get_outreach_task d (task_id t) = Some t" using assms by (simp add: get_outreach_task_in)
  then show ?thesis by (simp add: get_task_def)
qed

lemma filtered_external_ids:
  assumes "apply_task_filters d st c a ch t" and "task_response d t = Inr r"
    and "distinct (map cust_id (customers d))" and "distinct (map acct_id (accounts d))"
  shows "st \<in> {None, Some (tr_status r)}" and "ch \<in> {None, Some (tr_channel r)}"
    and "c \<in> {None, Some (tr_customer_external_id r)}" and "a \<in> {None, Some (tr_account_external_id r)}"
proof -
  obtain acc cu where rel: "task_account d t = Some acc" "task_customer d t = Some cu"
    and r: "tr_account_external_id r = acct_external_id acc" "tr_customer_external_id r = cust_external_id cu"
      "tr_status r = task_status t" "tr_channel r = task_channel t"
    using assms(2) by (auto simp: task_response_def split: option.splits)
  have mem: "acc \<in> set (accounts d)" "acct_id acc = task_account_id t"
    "cu \<in> set (customers d)" "cust_id cu = task_customer_id t"
    using rel find_Some_in [of _ "accounts d" acc] find_Some_in [of _ "customers d" cu]
    by (auto simp: task_account_def task_customer_def)
  show "st \<in> {None, Some (tr_status r)}" "ch \<in> {None, Some (tr_channel r)}"
    using assms(1) r by (auto simp: apply_task_filters_def split: option.splits)
  show "c \<in> {None, Some (tr_customer_external_id r)}"
  proof (cases c)
    case (Some x)
    then obtain cu' where "cu' \<in> set (customers d)" "cust_id cu' = task_customer_id t" "cust_external_id cu' = x"
      using assms(1) by (auto simp: apply_task_filters_def dest: find_Some_in)
    with key_row_unique [OF assms(3) this(1) mem(3)] mem(4) Some r show ?thesis by simp
  qed simp
  show "a \<in> {None, Some (tr_account_external_id r)}"
  proof (cases a)
    case (Some x)
    then obtain acc' where "acc' \<in> set (accounts d)" "acct_id acc' = task_account_id t" "acct_external_id acc' = x"
      using assms(1) by (auto simp: apply_task_filters_def dest: find_Some_in)
    with key_row_unique [OF assms(4) this(1) mem(1)] mem(2) Some r show ?thesis by simp
  qed simp
qed

text \<open>The listing answers with one item per selected row.\<close>

lemma list_tasks_selected:
  assumes "t \<in> set (list_tasks d st c a ch limit)"
  shows "t \<in> set (outreach_tasks d)" and "apply_task_filters d st c a ch t"
  using assms by (auto simp: list_tasks_def dest!: in_set_takeD)

lemma list_tasks_route_total:
  assumes "wf_db d" and "1 \<le> limit" and "limit \<le> 100"
  obtains rs where "list_tasks_route d st c a ch limit = Inr rs"
    and "list_all2 (shows_task d) (list_tasks d st c a ch (nat limit)) rs"
proof -
  have "\<exists>r. shows_task d t r" if "t \<in> set (list_tasks d st c a ch (nat limit))" for t
    using task_response_total [OF assms(1) list_tasks_selected(1) [OF that]] .
  from task_responses_total [OF this] assms(2,3) that show thesis
    unfolding list_tasks_route_def by (metis (mono_tags))
qed

lemma responses_rows:
  assumes "list_all2 (shows_task d) ts rs"
  shows "map tr_id rs = map task_id ts" and "map tr_created_at rs = map task_created_at ts"
  using assms by (induction) (auto simp: shows_task_def task_response_def split: option.splits)

lemma list_tasks_oldest_first: "sorted (map task_created_at (list_tasks d st c a ch limit))"
proof -
  have "sorted (map (\<lambda>t. (task_created_at t, task_id t)) (list_tasks d st c a ch limit))"
    using list_tasks_complete [of d st c a ch limit] by blast
  then show ?thesis
    unfolding sorted_map by (rule sorted_wrt_mono_rel [rotated]) auto
qed

text \<open>C38. What a client sees of tasks is complete and consistent: in a consistent database the
  listing answers for every limit in its range, oldest first, with as many items as there
  are matching rows up to the limit; its items are the selected rows; fetching the task
  of an item gives the same item; each item carries a decision that is not a block and is
  about its channel; and status, channel and external identifiers of every item are those
  of the filters that were given.\<close>

theorem task_listing_consistent:
  assumes "wf_db d" and "1 \<le> limit" and "limit \<le> 100"
  shows "\<exists>rs. list_tasks_route d st c a ch limit = Inr rs
    \<and> map tr_id rs = map task_id (list_tasks d st c a ch (nat limit))
    \<and> length rs = min (nat limit) (rowcount (apply_task_filters d st c a ch) (outreach_tasks d))
    \<and> sorted (map tr_created_at rs)
    \<and> (\<forall>r\<in>set rs. get_task d (tr_id r) = Inr r
        \<and> (\<exists>p. tr_policy_decision r = Some p \<and> pc_decision p \<in> {''allow'', ''defer''}
            \<and> pc_channel p = Some (channel_value (tr_channel r)))
        \<and> st \<in> {None, Some (tr_status r)} \<and> ch \<in> {None, Some (tr_channel r)}
        \<and> c \<in> {None, Some (tr_customer_external_id r)} \<and> a \<in> {None, Some (tr_account_external_id r)})"
proof -
  let ?ts = "list_tasks d st c a ch (nat limit)"
  obtain rs where rs: "list_tasks_route d st c a ch limit = Inr rs" "list_all2 (shows_task d) ?ts rs"
    using assms by (rule list_tasks_route_total)
  note ids = responses_rows(1) [OF rs(2)]
  have len: "length rs = min (nat limit) (rowcount (apply_task_filters d st c a ch) (outreach_tasks d))"
    using arg_cong [OF ids, of length] list_tasks_complete [of d st c a ch "nat limit"] by simp
  have old: "sorted (map tr_created_at rs)"
    using list_tasks_oldest_first by (simp add: responses_rows(2) [OF rs(2)])
  show ?thesis
  proof (intro exI [of _ rs] conjI ballI)
    fix r assume "r \<in> set rs"
    then obtain t where t: "t \<in> set ?ts" "task_response d t = Inr r" "tr_id r = task_id t"
      using list_all2_in_right [OF rs(2)] by (auto simp: shows_task_def)
    note row = list_tasks_selected(1) [OF t(1)] and fits = list_tasks_selected(2) [OF t(1)]
    show "get_task d (tr_id r) = Inr r" using get_task_row [OF assms(1) row] t(2,3) by simp
    from assms(1) row show "\<exists>p. tr_policy_decision r = Some p \<and> pc_decision p \<in> {''allow'', ''defer''}
        \<and> pc_channel p = Some (channel_value (tr_channel r))"
    proof (rule task_relations)
      fix x y p
      assume "task_account d t = Some x" "task_customer d t = Some y" "task_policy_decision d t = Some p" "task_basis p t"
      then show ?thesis using t(2)
        by (cases "pd_decision p") (auto simp: task_response_def policy_decision_context_def task_basis_def)
    qed
    show "st \<in> {None, Some (tr_status r)}" "ch \<in> {None, Some (tr_channel r)}"
      "c \<in> {None, Some (tr_customer_external_id r)}" "a \<in> {None, Some (tr_account_external_id r)}"
      using filtered_external_ids [OF fits t(2) wf_distinct(1,2) [OF assms(1)]] by simp_all
  qed (rule ids rs(1) len old)+
qed

end
