(* ===== verification/System_Examples.thy ===== *)
theory System_Examples
  imports System Dispatch_Liveness Tasks_Api Ingestion_Examples
begin

text \<open>
  Concrete runs of the whole program: the properties of the worker, of the operational
  API and of the system at a database that one ingested event leaves, and a run in
  which a customer who has opted out is contacted about another account.
\<close>

section \<open>Runs\<close>

text \<open>The event of an account of the sample customer, ingested with no other session at work.\<close>

definition sample_event_run :: "string \<Rightarrow> string \<Rightarrow> string \<Rightarrow> db \<Rightarrow> db" where
  "sample_event_run ext event_type account_id d =
     store (snd (ingest_event_snapshot sample_env (\<lambda>x. x) ''crm'' ext event_type sample_cs
       (sample_as\<lparr>as_external_id := account_id\<rparr>) (Aware (utc_datetime (start_now sample_env))) [] 0
       (open_session d)))"

lemma step_sample_event: "system_step d (sample_event_run ext ty acct d)"
proof -
  obtain res s where run: "ingest_event_snapshot sample_env (\<lambda>x. x) ''crm'' ext ty sample_cs
      (sample_as\<lparr>as_external_id := acct\<rparr>) (Aware (utc_datetime (start_now sample_env))) [] 0
      (open_session d) = (res, s)" by fastforce
  show ?thesis
    using system_step.ingest [OF fair_scan_sample _ _ _ _ run [folded ingest_between_quiet]] run
    by (simp add: sample_event_run_def)
qed

lemma step_pass: "system_step d (snd (dispatch_due_tasks E w no_interference now limit d))"
  by (rule system_step.dispatch) simp_all

lemma reachable_empty: "reachable empty_db"
  by (simp add: reachable_def)

lemma reachable_step: "reachable d \<Longrightarrow> system_step d d' \<Longrightarrow> reachable d'"
  by (simp add: reachable_def)

definition one_event :: db where
  "one_event = sample_event_run ''e1'' ''payment_failed'' ''a1'' empty_db"

lemma reachable_one_event: "reachable one_event"
  unfolding one_event_def by (intro reachable_step [OF reachable_empty] step_sample_event)

lemma wf_one_event: "wf_db one_event"
  using reachable_one_event by (rule reachable_wf)

lemma one_event_tasks:
  "map (\<lambda>t. (task_id t, task_account_id t, task_channel t, task_status t, task_scheduled_at t,
      task_attempt_count t, task_max_attempts t)) (outreach_tasks one_event) =
     [(7, 1, EMAIL, SCHEDULED, start_now sample_env, 0, 3), (11, 1, SMS, SCHEDULED, start_now sample_env + minutes 15, 0, 3)]"
  unfolding one_event_def sample_event_run_def by code_simp

lemma one_event_accounts:
  "map (\<lambda>a. (acct_id a, acct_external_id a)) (accounts one_event) = [(1, ''a1'')]"
  unfolding one_event_def sample_event_run_def by code_simp

lemma email_task:
  obtains t where "t \<in> set (outreach_tasks one_event)" and "task_id t = 7" and "task_account_id t = 1"
    and "task_channel t = EMAIL" and "task_status t = SCHEDULED"
    and "task_scheduled_at t = start_now sample_env" and "task_attempt_count t = 0"
    and "task_max_attempts t = 3"
proof -
  obtain t u where "outreach_tasks one_event = [t, u]" "task_id t = 7" "task_account_id t = 1"
    "task_channel t = EMAIL" "task_status t = SCHEDULED" "task_scheduled_at t = start_now sample_env"
    "task_attempt_count t = 0" "task_max_attempts t = 3"
    using one_event_tasks by (auto simp: map_eq_Cons_conv)
  then show thesis by (intro that [of t]) simp_all
qed

lemma sms_task:
  obtains t where "t \<in> set (outreach_tasks one_event)" and "task_id t = 11" and "task_channel t = SMS"
    and "task_status t = SCHEDULED" and "task_scheduled_at t = start_now sample_env + minutes 15"
proof -
  obtain t u where "outreach_tasks one_event = [t, u]" "task_id u = 11" "task_channel u = SMS"
    "task_status u = SCHEDULED" "task_scheduled_at u = start_now sample_env + minutes 15"
    using one_event_tasks by (auto simp: map_eq_Cons_conv)
  then show thesis by (intro that [of u]) simp_all
qed

abbreviation sample_now :: datetime where
  "sample_now \<equiv> utc_datetime (start_now sample_env)"

lemma sample_instant [simp]: "instant sample_now = start_now sample_env"
  by code_simp

lemma email_task_due: "task_status t = SCHEDULED \<Longrightarrow> task_scheduled_at t = start_now sample_env \<Longrightarrow>
  due (instant sample_now) t"
  by (simp add: due_def)

section \<open>The system\<close>

theorem reachable_tasks_justified_witness:
  "\<exists>t\<in>set (outreach_tasks one_event). \<exists>p\<in>set (policy_decisions one_event). task_id t = 7
     \<and> task_policy_decision_id t = Some (pd_id p) \<and> pd_decision p \<noteq> BLOCK"
proof -
  obtain t where "t \<in> set (outreach_tasks one_event)" "task_id t = 7" by (rule email_task)
  then show ?thesis using reachable_tasks_justified [OF reachable_one_event] by blast
qed

definition after_one_pass :: db where
  "after_one_pass = snd (dispatch_due_tasks sample_env default_worker no_interference None 10 one_event)"

lemma after_one_pass_tasks:
  "map (\<lambda>t. (task_id t, task_status t)) (outreach_tasks after_one_pass) = [(7, SENT), (11, SCHEDULED)]"
  unfolding after_one_pass_def one_event_def sample_event_run_def by code_simp

theorem system_keeps_history_witness: "audit_appended one_event after_one_pass \<and> tasks_evolved one_event after_one_pass"
proof -
  have "system_step\<^sup>*\<^sup>* one_event after_one_pass" unfolding after_one_pass_def using step_pass by blast
  then show ?thesis using system_keeps_history [OF reachable_one_event] by blast
qed

theorem claim_is_exclusive_witness:
  "\<exists>d1. claim_task (start_now sample_env) 7 one_event = Some d1
     \<and> claim_task (start_now sample_env) 7
         (snd (dispatch_due_tasks sample_env default_worker no_interference None 10 d1)) = None"
proof -
  obtain t where t: "t \<in> set (outreach_tasks one_event)" "task_id t = 7" "task_status t = SCHEDULED"
    "task_scheduled_at t = start_now sample_env" by (rule email_task)
  then have claim: "claim_task (start_now sample_env) 7 one_event = Some (put_task (claimed t) one_event)"
    using claim_due [OF wf_one_event t(1), of "start_now sample_env"] by (simp add: due_def)
  moreover have "system_step\<^sup>*\<^sup>* d (snd (dispatch_due_tasks sample_env default_worker no_interference None 10 d))" for d
    using step_pass by blast
  ultimately show ?thesis using claim_is_exclusive [OF reachable_one_event claim] by blast
qed

section \<open>The worker\<close>

theorem dispatch_implements_attempt_witness:
  "\<exists>t\<in>set (outreach_tasks one_event). \<exists>d'. task_id t = 7
    \<and> dispatch_task sample_env default_worker no_interference sample_now 7 one_event = (Inr True, d')
    \<and> outreach_tasks d' = put_row task_id ((claimed t)\<lparr>task_status := SENT, task_last_error := None\<rparr>)
        (outreach_tasks one_event)"
proof -
  obtain t where t: "t \<in> set (outreach_tasks one_event)" "task_id t = 7" "task_channel t = EMAIL"
    "task_status t = SCHEDULED" "task_scheduled_at t = start_now sample_env" by (rule email_task)
  have send: "send_task (wk_adapters default_worker) (claimed t) = mock_email_send (claimed t)"
    using t(3) by (simp add: send_task_def default_worker_def default_adapters_def claimed_def)
  have att: "attempt default_worker sample_now t = Inr ((claimed t)\<lparr>task_status := SENT, task_last_error := None\<rparr>)"
    and fits: "error_fits sample_env default_worker (claimed t)"
    by (simp_all add: attempt_def error_fits_def send mock_email_send_def)
  show ?thesis
    using dispatch_implements_attempt [OF wf_one_event t(1) email_task_due [OF t(4,5)] fits att] t(1,2) by auto
qed

theorem not_due_not_sent_witness:
  "dispatch_task sample_env default_worker no_interference sample_now 5 (sample_db [] [sample_task 5 CANCELLED]) =
     (Inr False, sample_db [] [sample_task 5 CANCELLED])"
  using not_due_not_sent [of no_interference 5 "sample_db [] [sample_task 5 CANCELLED]" sample_now]
  by (simp add: sample_db_def sample_task_def)

theorem due_selection_witness:
  "length (due_task_ids sample_env (start_now sample_env + minutes 15) 1 one_event) = 1"
proof -
  have "2 \<le> rowcount (\<lambda>t. task_scheduled_at t \<le> start_now sample_env + minutes 15 \<and> task_status t = SCHEDULED)
      (outreach_tasks one_event)"
    using one_event_tasks by (auto simp: map_eq_Cons_conv)
  then have "2 \<le> rowcount (due (start_now sample_env + minutes 15)) (outreach_tasks one_event)"
    by (simp add: due_def [abs_def] conj_commute)
  then show ?thesis
    using due_selection [OF wf_one_event fair_scan_sample, of "start_now sample_env + minutes 15" 1] by simp
qed


definition failing_worker :: worker where
  "failing_worker = \<lparr>wk_adapters = (\<lambda>ch. Some (\<lambda>t. Inl (replicate 1001 CHR ''x''))),
     wk_retry_delay = minutes 5, wk_id = ''dispatch-worker''\<rparr>"

theorem oversized_error_strands_task_witness:
  "\<exists>d'. dispatch_tasks sample_env failing_worker no_interference sample_now [7] 0 one_event = (Inl DataError, d')
     \<and> claim_task (start_now sample_env + hours 1) 7 d' = None"
proof -
  obtain t where t: "t \<in> set (outreach_tasks one_event)" "task_id t = 7"
    "task_status t = SCHEDULED" "task_scheduled_at t = start_now sample_env" by (rule email_task)
  have send: "send_task (wk_adapters failing_worker) (claimed t) = Inl (replicate 1001 CHR ''x'')"
    by (simp add: send_task_def failing_worker_def)
  have "case dt_add sample_now (wk_retry_delay failing_worker) of Inl e \<Rightarrow> False | Inr at \<Rightarrow> True" by code_simp
  then obtain at where "dt_add sample_now (wk_retry_delay failing_worker) = Inr at" by (auto split: sum.splits)
  then show ?thesis
    using oversized_error_strands_task [OF wf_one_event t(1) email_task_due [OF t(3,4)] send, of sample_env at "[]" 0]
      t(2) by (auto simp: sample_env_def)
qed

text \<open>A provider that is down at every attempt.\<close>

definition down_worker :: worker where
  "down_worker = \<lparr>wk_adapters = (\<lambda>ch. Some (\<lambda>t. Inl ''down'')),
     wk_retry_delay = minutes 5, wk_id = ''dispatch-worker''\<rparr>"

definition three_times :: "datetime list" where
  "three_times = [sample_now, utc_datetime (start_now sample_env + minutes 5),
     utc_datetime (start_now sample_env + minutes 20)]"

theorem attempts_run_out_witness:
  "\<exists>t\<in>set (outreach_tasks (turns sample_env down_worker 7 three_times one_event)).
     task_id t = 7 \<and> (task_status t = SENT \<or> task_status t = FAILED \<and> task_attempt_count t = task_max_attempts t)"
proof -
  obtain t where t: "t \<in> set (outreach_tasks one_event)" "task_id t = 7" "task_status t = SCHEDULED"
    "task_scheduled_at t = start_now sample_env" "task_attempt_count t = 0" "task_max_attempts t = 3"
    by (rule email_task)
  have "spaced (wk_retry_delay down_worker) (start_now sample_env) three_times" by code_simp
  moreover have "attempts_left t \<le> length three_times"
    using t(5,6) by (simp add: attempts_left_def three_times_def)
  moreover have "error_fits sample_env down_worker u" for u
    by (simp add: error_fits_def send_task_def down_worker_def last_error_fits_def nullable_varchar_def varchar_def)
  ultimately show ?thesis
    using attempts_run_out [OF wf_one_event t(1,3), of down_worker three_times sample_env] t(2,4) by simp
qed

section \<open>The operational API\<close>

theorem delivery_result_recorded_witness:
  "\<exists>t d'. record_delivery_result sample_env (\<lambda>x. x) 7 Failed None [(''error'', JStr ''bounced'')] one_event = (Inr t, d')
     \<and> task_status t = FAILED \<and> task_last_error t = Some ''bounced''"
proof -
  obtain t where t: "t \<in> set (outreach_tasks one_event)" "task_id t = 7" "task_status t = SCHEDULED" by (rule email_task)
  have err: "manual_last_error Failed [(''error'', JStr ''bounced'')] = Some ''bounced''" by code_simp
  have "last_error_fits (Some ''bounced'')" by code_simp
  then show ?thesis
    using delivery_result_recorded [OF wf_one_event t(1), of sample_env Failed "[(''error'', JStr ''bounced'')]" None] t(2,3)
    by (auto simp: ALLOWED_MANUAL_DELIVERY_SOURCE_STATUSES_def delivered_def err)
qed

text \<open>A worker that sends the task between the read and the update of a manual result.\<close>

theorem delivery_result_conflicts_witness:
  "\<exists>msg. record_delivery_result sample_env
       (\<lambda>d. snd (dispatch_due_tasks sample_env default_worker no_interference None 10 d)) 7 Sent None [] one_event =
     (Inl (HTTPException 409 msg), after_one_pass)"
proof -
  let ?others = "\<lambda>d. snd (dispatch_due_tasks sample_env default_worker no_interference None 10 d)"
  obtain t where t: "t \<in> set (outreach_tasks one_event)" "task_id t = 7" "task_status t = SCHEDULED" by (rule email_task)
  have "(7, SENT) \<in> set (map (\<lambda>t. (task_id t, task_status t)) (outreach_tasks after_one_pass))"
    by (simp only: after_one_pass_tasks) simp
  then obtain u where u: "u \<in> set (outreach_tasks after_one_pass)" "task_id u = 7" "task_status u = SENT" by auto
  have wf: "wf_db (?others one_event)"
    using reachable_step [OF reachable_one_event step_pass] by (rule reachable_wf)
  have "last_error_fits (manual_last_error Sent [])" by code_simp
  then show ?thesis
    using delivery_result_conflicts [of one_event ?others 7 sample_env Sent None "[]", OF wf_one_event wf] t u
    by (force simp: ALLOWED_MANUAL_DELIVERY_SOURCE_STATUSES_def after_one_pass_def)
qed

theorem cancel_account_outreach_exact_witness:
  "\<exists>d'. cancel_account_outreach sample_env (\<lambda>x. x) ''a1'' ''complaint'' 5 one_event = (Inr (''a1'', 2), d')"
proof -
  obtain a where a: "a \<in> set (accounts one_event)" "acct_external_id a = ''a1''" "acct_id a = 1"
    using one_event_accounts by (auto simp: map_eq_Cons_conv)
  have "rowcount (\<lambda>t. task_account_id t = 1 \<and> task_status t = SCHEDULED) (outreach_tasks one_event) = 2"
    using one_event_tasks by (auto simp: map_eq_Cons_conv)
  then show ?thesis
    using cancel_account_outreach_exact [OF wf_one_event a(1), of sample_env "''complaint''" 5] a(2,3) by auto
qed

theorem list_tasks_complete_witness:
  "set (list_tasks one_event (Some SCHEDULED) None None (Some SMS) 10) =
     {t \<in> set (outreach_tasks one_event). task_status t = SCHEDULED \<and> task_channel t = SMS}"
proof -
  have "length (list_tasks one_event (Some SCHEDULED) None None (Some SMS) 10) = 1"
    unfolding one_event_def sample_event_run_def by code_simp
  then show ?thesis
    using list_tasks_complete [of one_event "Some SCHEDULED" None None "Some SMS" 10]
    by (simp add: apply_task_filters_def)
qed

theorem task_listing_consistent_witness:
  "\<exists>r s. list_tasks_route one_event None None (Some ''a1'') None 20 = Inr [r, s] \<and> get_task one_event 7 = Inr r
    \<and> tr_account_external_id s = ''a1'' \<and> tr_policy_decision s \<noteq> None"
proof -
  have ids: "map task_id (list_tasks one_event None None (Some ''a1'') None 20) = [7, 11]"
    unfolding one_event_def sample_event_run_def by code_simp
  obtain rs where "list_tasks_route one_event None None (Some ''a1'') None 20 = Inr rs" "map tr_id rs = [7, 11]"
    and "\<forall>r\<in>set rs. get_task one_event (tr_id r) = Inr r \<and> tr_policy_decision r \<noteq> None
      \<and> tr_account_external_id r = ''a1''"
    using task_listing_consistent [OF wf_one_event, of 20 None None "Some ''a1''" None] ids by auto
  then show ?thesis by (auto simp: map_eq_Cons_conv)
qed

section \<open>A run that contacts a customer who opted out\<close>

definition two_accounts :: db where
  "two_accounts = sample_event_run ''e2'' ''payment_failed'' ''a2'' one_event"

definition after_opt_out :: db where
  "after_opt_out = sample_event_run ''e3'' ''opt_out_received'' ''a1'' two_accounts"

definition after_pass :: db where
  "after_pass = snd (dispatch_due_tasks sample_env default_worker no_interference None 10 after_opt_out)"

lemma opted_out_customer:
  "map (\<lambda>c. (cust_id c, cust_opted_out c)) (customers after_opt_out) = [(0, True)]"
  unfolding after_opt_out_def two_accounts_def one_event_def sample_event_run_def by code_simp

lemma after_opt_out_tasks:
  "map (\<lambda>t. (task_customer_id t, task_account_id t, task_status t)) (outreach_tasks after_opt_out) =
     [(0, 1, CANCELLED), (0, 1, CANCELLED), (0, 13, SCHEDULED)]"
  unfolding after_opt_out_def two_accounts_def one_event_def sample_event_run_def by code_simp

lemma after_pass_tasks:
  "map (\<lambda>t. (task_customer_id t, task_account_id t, task_status t)) (outreach_tasks after_pass) =
     [(0, 1, CANCELLED), (0, 1, CANCELLED), (0, 13, SENT)]"
  unfolding after_pass_def after_opt_out_def two_accounts_def one_event_def sample_event_run_def by code_simp


end
