(* ===== verification/Worker_Examples.thy ===== *)
theory Worker_Examples
  imports Worker_Loop System_Examples
begin

text \<open>
  The loop of the worker at the database that one event leaves: with a provider that is
  always down, and with a retry time that no datetime can hold.
\<close>

text \<open>A worker alone, whose passes are five minutes apart.\<close>

definition quiet_night :: surroundings where
  "quiet_night = \<lparr>pass_env = (\<lambda>k. sample_env\<lparr>start_now := start_now sample_env + int k * minutes 5\<rparr>),
     pass_interference = (\<lambda>k. no_interference), before_pass = (\<lambda>k x. x)\<rparr>"

definition hopeless_worker :: worker where
  "hopeless_worker = down_worker\<lparr>wk_retry_delay := days 4000000\<rparr>"


lemma scheduled_one_event:
  "backlog one_event = 6"
  "\<forall>t\<in>set (outreach_tasks one_event). task_scheduled_at t \<le> start_now sample_env + minutes 15"
proof -
  obtain t u where tu: "outreach_tasks one_event = [t, u]" "task_id t = 7" "task_id u = 11"
    "task_status t = SCHEDULED" "task_status u = SCHEDULED" "attempts_left t = 3" "attempts_left u = 3"
    "task_scheduled_at t = start_now sample_env" "task_scheduled_at u = start_now sample_env + minutes 15"
    using one_event_tasks by (auto simp: map_eq_Cons_conv attempts_left_def)
  then have "scheduled_tasks one_event = {t, u}" "t \<noteq> u" by (auto simp: scheduled_tasks_def)
  with tu show "backlog one_event = 6"
    "\<forall>t\<in>set (outreach_tasks one_event). task_scheduled_at t \<le> start_now sample_env + minutes 15"
    by (auto simp: backlog_def)
qed

theorem worker_drains_queue_witness:
  "filter (\<lambda>t. task_status t = SCHEDULED) (outreach_tasks (after_passes quiet_night down_worker 15 one_event)) = []"
proof -
  have calm: "undisturbed quiet_night" by (simp add: undisturbed_def quiet_night_def)
  have late: "start_now sample_env + hours 2 < days days_in_range" by (simp add: sample_env_def days_in_range_def)
  have fit: "passes_fit down_worker 15 quiet_night"
    using fair_scan_sample late
    by (auto simp: passes_fit_def quiet_night_def fair_scan_def error_fits_def send_task_def down_worker_def
        last_error_fits_def nullable_varchar_def varchar_def wall_ok_def sample_env_def)
  have pace: "paced (minutes 5) 15 quiet_night"
    by (simp add: paced_def quiet_night_def algebra_simps)
  have "start_now (pass_env quiet_night 3) = start_now sample_env + minutes 15"
    by (simp add: quiet_night_def)
  then have due: "\<forall>t\<in>set (outreach_tasks one_event). task_status t = SCHEDULED \<longrightarrow>
      task_scheduled_at t \<le> start_now (pass_env quiet_night 3)"
    using scheduled_one_event(2) by simp
  show ?thesis
    using worker_drains_queue [OF wf_one_event calm fit pace _ due, of 1] scheduled_one_event(1)
    by (simp add: down_worker_def filter_empty_conv)
qed

text \<open>After one pass with a provider that is down.\<close>

theorem attempts_are_audited_witness:
  "rowcount (\<lambda>r. ae_event_type r = ''dispatch_started'' \<and> ae_entity_id r = uuid_str 7)
     (audit_events (snd (dispatch_due_tasks sample_env down_worker no_interference None 10 one_event))) = 1"
proof -
  let ?d = "snd (dispatch_due_tasks sample_env down_worker no_interference None 10 one_event)"
  have "map (\<lambda>t. (task_id t, task_attempt_count t)) (outreach_tasks ?d) = [(7, 1), (11, 0)]"
    unfolding one_event_def sample_event_run_def by code_simp
  then obtain t u where "outreach_tasks ?d = [t, u]" "task_id t = 7" "task_attempt_count t = 1"
    by (auto simp: map_eq_Cons_conv)
  then have "t \<in> set (outreach_tasks ?d)" "task_id t = 7" "task_attempt_count t = 1" by simp_all
  then show ?thesis
    using attempts_are_audited [OF reachable_step [OF reachable_one_event step_pass]] by fastforce
qed

end
