(* ===== verification/Cancellation_Race.thy ===== *)
theory Cancellation_Race
  imports Planner_Windows Worker_Examples
begin

text \<open>
  What the window of the planner costs: a worker that sends a task between the select of
  the cancellation and its flush.
\<close>

lemma succeeding_attempt:
  assumes "send_task (wk_adapters w) (claimed t) = Inr result"
  shows "attempt w now t = Inr ((claimed t)\<lparr>task_status := SENT, task_last_error := None\<rparr>)"
    and "error_fits E w (claimed t)"
  using assms by (simp_all add: attempt_def error_fits_def)

text \<open>C31. A cancellation can overwrite a task that was sent: when a worker sends a scheduled task
  after the planner has selected it and before the planner writes, the task ends
  cancelled, with the attempt counted and with the audit row of the successful dispatch,
  and the planner counts it among the tasks it has cancelled.\<close>

theorem sent_task_ends_cancelled:
  assumes "wf_db d" and "fair_scan E" and "find (\<lambda>ev. ev_id ev = i) (inbound_events d) = Some ev"
    and "load_customer_and_account d ev = Inr (c, a)" and "ev_event_type ev \<in> state_event_types"
    and "\<not> has_processed_marker d ev" and "t \<in> set (outreach_tasks d)" and "cancellable c a t"
    and "due (instant now) t" and "send_task (wk_adapters w) (claimed t) = Inr result"
  shows "\<exists>n d'. plan_outreach_between E (\<lambda>x. snd (dispatch_task E' w no_interference now (task_id t) x)) i corr
        (Some (Aware at)) cap d = (Inr (cancelled_result ev (Suc n)), d')
    \<and> (\<exists>u\<in>set (outreach_tasks d'). task_id u = task_id t \<and> task_status u = CANCELLED
        \<and> task_attempt_count u = task_attempt_count t + 1)
    \<and> (\<exists>r\<in>set (audit_events d'). ae_event_type r = ''dispatch_succeeded'' \<and> ae_entity_id r = uuid_str (task_id t))"
proof -
  let ?w = "event_write E ev c a corr d"
  let ?ts = "scan_order E (filter (cancellable c a) (outreach_tasks ?w))"
  let ?t = "(claimed t)\<lparr>task_status := SENT, task_last_error := None\<rparr>"
  have rows_w: "outreach_tasks ?w = outreach_tasks d" by (simp add: frame_simps)
  have "ev_id ev \<in> ev_id ` set (inbound_events d)" using find_Some_in [OF assms(3)] by blast
  then have wf: "wf_db ?w"
    using audit_log.frame_event_write load_in_db(1,2) [OF assms(4)] assms(1) by (simp add: keeps_def)
  have "t \<in> set (outreach_tasks ?w)" using assms(7) rows_w by simp
  from dispatch_attempt [OF wf this assms(9) succeeding_attempt(2,1) [OF assms(10)], of E']
  obtain d2 r1 r2 where sent: "dispatch_task E' w no_interference now (task_id t) ?w = (Inr True, d2)"
    and rows: "outreach_tasks d2 = put_row task_id ?t (outreach_tasks d)"
    and audit: "audit_events d2 = audit_events ?w @ [r1, r2]"
    and r2: "ae_event_type r2 = ''dispatch_succeeded''" "ae_entity_id r2 = uuid_str (task_id t)"
    unfolding rows_w by auto
  let ?c = "cancel_tasks E ev a corr ?ts d2"
  let ?d' = "append_processed_marker E ev corr ?c"
  have here: "t \<in> set ?ts" using fair_scan_set [OF assms(2)] assms(7,8) rows_w by auto
  have "?t \<in> set (outreach_tasks d2)"
    unfolding rows using put_row_has [OF assms(7), of task_id ?t] by simp
  then have "?t\<lparr>task_status := CANCELLED\<rparr> \<in> set (outreach_tasks ?c)"
    using here unfolding cancel_tasks_rows update_where_def set_map
    by (intro image_eqI [of _ _ ?t]) simp_all
  then have u: "?t\<lparr>task_status := CANCELLED\<rparr> \<in> set (outreach_tasks ?d')" by (simp add: frame_simps)
  have "r2 \<in> set (audit_events ?c)"
    using cancel_tasks_audit [of E ev a corr ?ts d2] audit by auto
  then have log: "r2 \<in> set (audit_events ?d')"
    by (cases "map_of PROCESSED_MARKERS (ev_event_type ev)")
      (simp add: append_processed_marker_def, simp add: append_processed_marker_update)
  obtain n where n: "length ?ts = Suc n" using here by (cases ?ts) auto
  have "ev_event_type ev \<notin> policy_event_types" using assms(5) by (auto simp: state_event_types_def policy_event_types_def)
  then have "plan_outreach_between E (\<lambda>x. snd (dispatch_task E' w no_interference now (task_id t) x)) i corr
      (Some (Aware at)) cap d = (Inr (cancelled_result ev (Suc n)), ?d')"
    using assms(3-6) sent n
    by (simp add: plan_outreach_between_def state_event_between_def cancel_scheduled_tasks_between_def Let_def)
  moreover have "\<exists>u\<in>set (outreach_tasks ?d'). task_id u = task_id t \<and> task_status u = CANCELLED
      \<and> task_attempt_count u = task_attempt_count t + 1" by (rule bexI [OF _ u]) simp
  ultimately show ?thesis using log r2 by blast
qed

text \<open>A payment that arrives while the worker sends the email of the sample account.\<close>

definition payment :: inbound_event where
  "payment = sample_event 13 ''payment_received''"

definition paid_db :: db where
  "paid_db = add_event payment one_event"

theorem sent_task_ends_cancelled_witness:
  "\<exists>n d'. plan_outreach_between sample_env
        (\<lambda>x. snd (dispatch_task sample_env default_worker no_interference sample_now 7 x)) (ev_id payment) 3
        (Some (Aware sample_now)) 3 paid_db = (Inr (cancelled_result payment (Suc n)), d')
    \<and> (\<exists>u\<in>set (outreach_tasks d'). task_id u = 7 \<and> task_status u = CANCELLED \<and> task_attempt_count u = 1)
    \<and> (\<exists>r\<in>set (audit_events d'). ae_event_type r = ''dispatch_succeeded'' \<and> ae_entity_id r = uuid_str 7)"
proof -
  obtain t where t: "t \<in> set (outreach_tasks one_event)" "task_id t = 7" "task_account_id t = 1"
    "task_channel t = EMAIL" "task_status t = SCHEDULED" "task_scheduled_at t = start_now sample_env" "task_attempt_count t = 0"
    by (rule email_task)
  have "(\<lambda>d :: db. next_uuid d = 13
      \<and> (ev_source payment, ev_external_id payment) \<notin> (\<lambda>e. (ev_source e, ev_external_id e)) ` set (inbound_events d)
      \<and> ev_idempotency_key payment \<notin> ev_idempotency_key ` set (inbound_events d)) one_event"
    unfolding payment_def one_event_def sample_event_run_def by code_simp
  then have wf: "wf_db paid_db"
    unfolding paid_db_def by (intro wf_add_event wf_one_event) (simp_all add: payment_def sample_event_def)
  have found: "find (\<lambda>ev. ev_id ev = ev_id payment) (inbound_events paid_db) = Some payment"
    by (rule find_by_key [OF wf_distinct(3) [OF wf]]) (simp add: paid_db_def add_event_def)
  have "(\<lambda>(d :: db, e). (map_sum (\<lambda>_. ()) (\<lambda>(c, a). (cust_id c, acct_id a)) (load_customer_and_account d e),
      map task_customer_id (outreach_tasks d), has_processed_marker d e)) (paid_db, payment) = (Inr (0, 1), [0, 0], False)"
    unfolding paid_db_def payment_def one_event_def sample_event_run_def by code_simp
  then have load: "map_sum (\<lambda>_. ()) (\<lambda>(c, a). (cust_id c, acct_id a)) (load_customer_and_account paid_db payment) = Inr (0, 1)"
    and owners: "map task_customer_id (outreach_tasks paid_db) = [0, 0]"
    and fresh: "\<not> has_processed_marker paid_db payment" by simp_all
  obtain c a where load: "load_customer_and_account paid_db payment = Inr (c, a)" "cust_id c = 0" "acct_id a = 1"
    using load by (cases "load_customer_and_account paid_db payment") auto
  have "outreach_tasks paid_db = outreach_tasks one_event" by (simp add: paid_db_def add_event_def)
  then have "task_customer_id t \<in> set [0, 0]" using owners t(1) by (metis image_eqI set_map)
  then have "cancellable c a t"
    using t load by (simp add: cancellable_def SCHEDULED_STATUSES_def)
  moreover have "ev_event_type payment \<in> state_event_types" by (simp add: payment_def sample_event_def state_event_types_def)
  moreover note fresh
  moreover have "t \<in> set (outreach_tasks paid_db)" using t(1) by (simp add: paid_db_def add_event_def)
  moreover have "due (instant sample_now) t" using t(5,6) by (rule email_task_due)
  moreover obtain result where "send_task (wk_adapters default_worker) (claimed t) = Inr result"
    using default_send by (auto simp: default_worker_def)
  ultimately show ?thesis
    using sent_task_ends_cancelled [OF wf fair_scan_sample found load(1), of t sample_now default_worker result sample_env 3 sample_now 3]
      t(2,7) by simp
qed

end
