(* ===== verification/Opt_Out_Race.thy ===== *)
theory Opt_Out_Race
  imports Ingestion_Windows Planner_Total Ingestion_Examples
begin

text \<open>
  What the window of the policy branch costs: an opt-out that is committed after the
  planner has read the customer and before it adds tasks.  The database lets the other session
  through when the snapshot of the planned event changes nothing of the stored customer, so
  that no row of theirs is locked; otherwise the opt-out waits and then cancels the tasks.
\<close>

section \<open>The loop does not look at the database again\<close>

text \<open>But for the keys of the tasks it inserts.\<close>

definition event_keys_within :: "inbound_event \<Rightarrow> db \<Rightarrow> db \<Rightarrow> bool" where
  "event_keys_within ev d' d \<longleftrightarrow> (\<forall>ch. (\<exists>t\<in>set (outreach_tasks d'). task_idempotency_key t = task_key ev ch)
     \<longrightarrow> (\<exists>t\<in>set (outreach_tasks d). task_idempotency_key t = task_key ev ch))"

lemma record_decision_rows:
  "outreach_tasks (snd (record_decision E ev c a corr r d)) = outreach_tasks d"
  by (simp add: record_decision_def uuid4_def Let_def planner_audit_update)

lemma schedule_task_elsewhere:
  assumes "schedule_task E ev c a corr pd ch at d = Inr d1" and "event_keys_within ev d' d"
  shows "\<exists>d1'. schedule_task E ev c a corr pd' ch at d' = Inr d1' \<and> event_keys_within ev d1' d1"
  using assms
  by (fastforce simp: schedule_task_def insert_task_def uuid4_def Let_def find_None_ball event_keys_within_def
      planner_audit_update split: if_splits)

lemma event_keys_within_audit [simp]:
  "event_keys_within ev (planner_audit E ev' corr et ent ei p d') d \<longleftrightarrow> event_keys_within ev d' d"
  "event_keys_within ev d' (planner_audit E ev' corr et ent ei p d) \<longleftrightarrow> event_keys_within ev d' d"
  by (simp_all add: event_keys_within_def planner_audit_update)

lemma apply_policy_result_elsewhere:
  assumes "apply_policy_result E ev c a corr p r pg d = (Inr pg1, d1)" and "event_keys_within ev d' d"
  shows "\<exists>d1'. apply_policy_result E ev c a corr p r pg d' = (Inr pg1, d1') \<and> event_keys_within ev d1' d1"
proof -
  obtain pd d2 pd' d2' where rec: "record_decision E ev c a corr r d = (pd, d2)"
    "record_decision E ev c a corr r d' = (pd', d2')" by fastforce
  have keys: "event_keys_within ev d2' d2"
    using assms(2) record_decision_rows [of E ev c a corr r d] record_decision_rows [of E ev c a corr r d']
    by (simp add: rec event_keys_within_def)
  show ?thesis
  proof (cases "schedules r")
    case False
    then show ?thesis
      using assms(1) keys by (cases "res_decision r") (auto simp: apply_policy_result_def rec Let_def schedules_def)
  next
    case True
    let ?deferred = "planner_audit E ev corr ''outreach_deferred'' ''account'' (uuid_str (acct_id a))
      [(''channel'', JStr (channel_value (res_channel r))), (''reasons'', JList (map JStr (res_reasons r))),
       (''defer_until'', case res_defer_until r of None \<Rightarrow> JNull | Some u \<Rightarrow> JStr (isoformat u))]"
    let ?e = "if res_decision r = DEFER then ?deferred d2 else d2"
    let ?e' = "if res_decision r = DEFER then ?deferred d2' else d2'"
    have "schedule_task E ev c a corr pd (res_channel r) (scheduled_time r p) ?e = Inr d1"
      using assms(1) True
      by (cases "res_decision r")
        (auto simp: apply_policy_result_def rec Let_def schedules_def scheduled_time_def split: sum.splits)
    moreover have "event_keys_within ev ?e' ?e" using keys by simp
    ultimately obtain d1' where s: "schedule_task E ev c a corr pd' (res_channel r) (scheduled_time r p) ?e' = Inr d1'"
      "event_keys_within ev d1' d1" using schedule_task_elsewhere by blast
    then have "apply_policy_result E ev c a corr p r pg d' = (Inr pg1, d1')"
      using assms(1) True
      by (cases "res_decision r")
        (auto simp: apply_policy_result_def rec Let_def schedules_def scheduled_time_def split: sum.splits)
    with s(2) show ?thesis by blast
  qed
qed

lemma plan_proposals_elsewhere:
  assumes "plan_proposals E ev c a corr cap ps pg d = (Inr pg', d1)" and "event_keys_within ev d' d"
  shows "\<exists>d1'. plan_proposals E ev c a corr cap ps pg d' = (Inr pg', d1')"
  using assms
proof (induction ps arbitrary: pg d d')
  case (Cons p ps)
  then obtain pin r pg1 d2 where run: "proposal_input c a cap p (pg_recent_count pg) = Inr pin"
      "evaluate_policy E pin = Inr r" "apply_policy_result E ev c a corr p r pg d = (Inr pg1, d2)"
      "plan_proposals E ev c a corr cap ps pg1 d2 = (Inr pg', d1)"
    by (auto split: sum.splits prod.splits)
  from apply_policy_result_elsewhere [OF run(3) Cons.prems(2)] obtain d2' where
    "apply_policy_result E ev c a corr p r pg d' = (Inr pg1, d2')" "event_keys_within ev d2' d2" by blast
  with Cons.IH [OF run(4)] run(1,2) show ?case by simp
qed simp

section \<open>The overtaken opt-out\<close>

lemma creating_run:
  assumes "plan_outreach_for_event E i corr (Some (Aware at)) cap d = (Inr r, d1)" and "0 < pr_created_tasks r"
    and "find (\<lambda>ev. ev_id ev = i) (inbound_events d) = Some ev" and "load_customer_and_account d ev = Inr (c, a)"
  shows "ev_event_type ev \<in> policy_event_types" and "\<not> has_decision d ev"
    and "plan_policy_event E ev c a corr at cap d = (Inr r, d1)"
proof -
  have "ev_event_type ev \<in> policy_event_types \<and> \<not> has_decision d ev"
    using assms(1)
  proof (cases rule: plan_outreach_cases)
    case (replay ev' c' a')
    then show ?thesis using assms(2) by (simp add: no_effects_def)
  next
    case (policy ev' c' a' now' recent ps pg ds ts rows)
    then show ?thesis using assms(3) by simp
  next
    case (state ev' c' a' n d2)
    then show ?thesis using assms(2) by (simp add: cancelled_result_def no_effects_def)
  qed
  then show "ev_event_type ev \<in> policy_event_types" "\<not> has_decision d ev" by simp_all
  then show "plan_policy_event E ev c a corr at cap d = (Inr r, d1)"
    using assms(1,3,4) by (auto simp: plan_outreach_for_event_def aware_now.simps policy_event_types_def)
qed

lemma created_tasks_added:
  assumes "plan_outreach_for_event E i corr now cap d = (Inr r, d1)"
    and "find (\<lambda>ev. ev_id ev = i) (inbound_events d) = Some ev" and "ev_event_type ev \<in> policy_event_types"
  shows "length (outreach_tasks d1) = length (outreach_tasks d) + pr_created_tasks r"
  using assms(1)
proof (cases rule: plan_outreach_cases)
  case (replay ev' c a)
  then show ?thesis by (simp add: no_effects_def)
next
  case (policy ev' c a now' recent ps pg ds ts rows)
  then show ?thesis by (simp add: policy_event_result_def loop_effect_def)
next
  case (state ev' c a n d1)
  then show ?thesis using assms(2,3) by (auto simp: state_event_types_def policy_event_types_def)
qed

text \<open>What such a run reads, and what its loop answers.\<close>

definition loop_answer :: "inbound_event \<Rightarrow> plan_progress \<Rightarrow> planner_result" where
  "loop_answer ev pg = \<lparr>pr_inbound_event_id = ev_id ev, pr_created_tasks = pg_created_tasks pg,
     pr_cancelled_tasks = 0, pr_policy_decisions = pg_policy_decisions pg,
     pr_blocked_attempts = pg_blocked_attempts pg, pr_deferred_attempts = pg_deferred_attempts pg\<rparr>"

lemma creating_loop:
  assumes "plan_outreach_for_event E i corr (Some (Aware at)) cap d = (Inr r, d1)" and "0 < pr_created_tasks r"
    and "find (\<lambda>ev. ev_id ev = i) (inbound_events d) = Some ev" and "load_customer_and_account d ev = Inr (c, a)"
  obtains recent ps pg where "find (\<lambda>pd. pd_inbound_event_id pd = Some (ev_id ev)) (policy_decisions d) = None"
    and "recent_attempt_count d c at = Inr recent"
    and "proposals_for_event E (ev_event_type ev) at (cust_timezone c) = Inr ps"
    and "plan_proposals E ev c a corr cap ps (initial_progress recent) d = (Inr pg, d1)" and "r = loop_answer ev pg"
proof -
  note run = creating_run [OF assms]
  have undecided: "find (\<lambda>pd. pd_inbound_event_id pd = Some (ev_id ev)) (policy_decisions d) = None"
    using run(2) by (auto simp: has_decision_def find_None_ball)
  from run(3) undecided that show thesis
    by (auto simp: plan_policy_event_def initial_progress_def loop_answer_def split: sum.splits prod.splits)
qed

text \<open>The tasks of a loop that another database sees.\<close>

lemma loop_elsewhere:
  assumes "plan_proposals E ev c a corr cap ps (initial_progress recent) d = (Inr pg, d1)"
    and "\<forall>ch. task_key ev ch \<notin> task_idempotency_key ` set (outreach_tasks d')"
  obtains d2 ds ts rows where "plan_proposals E ev c a corr cap ps (initial_progress recent) d' = (Inr pg, d2)"
    and "loop_effect E ev c a corr cap ps (initial_progress recent) d' pg d2 ds ts rows"
    and "length ts = pg_created_tasks pg"
proof -
  have "event_keys_within ev d' d" using assms(2) by (metis image_eqI event_keys_within_def)
  with assms(1) obtain d2 where loop: "plan_proposals E ev c a corr cap ps (initial_progress recent) d' = (Inr pg, d2)"
    using plan_proposals_elsewhere by blast
  then obtain ds ts rows where
    "loop_effect E ev c a corr cap ps (initial_progress recent) d' pg d2 ds ts rows"
    using plan_proposals_effect by blast
  moreover from this have "length ts = pg_created_tasks pg" by (simp add: loop_effect_def initial_progress_def)
  ultimately show thesis using loop that by blast
qed

text \<open>C25. An opt-out can be overtaken: when it is committed after the planner has read the
  customer and before it writes, the planner answers as if nothing had happened and
  adds all of its tasks, scheduled, for a customer who is opted out by then; nor does it count what
  the others have scheduled meanwhile against the frequency cap.  The others only have to leave
  the keys of the event alone, which they cannot know.\<close>

theorem opt_out_overtaken:
  assumes "plan_outreach_for_event E i corr (Some (Aware at)) cap d = (Inr r, d1)" and "0 < pr_created_tasks r"
    and "find (\<lambda>ev. ev_id ev = i) (inbound_events d) = Some ev" and "load_customer_and_account d ev = Inr (c, a)"
    and "\<forall>ch. task_key ev ch \<notin> task_idempotency_key ` set (outreach_tasks (others d))"
    and "c' \<in> set (customers (others d))" and "cust_id c' = cust_id c" and "cust_opted_out c'"
  shows "\<exists>d' ts. plan_outreach_between E others i corr (Some (Aware at)) cap d = (Inr r, d')
    \<and> c' \<in> set (customers d') \<and> outreach_tasks d' = outreach_tasks (others d) @ ts
    \<and> length ts = pr_created_tasks r
    \<and> (\<forall>t\<in>set ts. task_status t = SCHEDULED \<and> task_customer_id t = cust_id c' \<and> task_account_id t = acct_id a)"
proof -
  obtain recent ps pg where undecided: "find (\<lambda>pd. pd_inbound_event_id pd = Some (ev_id ev)) (policy_decisions d) = None"
    and read: "recent_attempt_count d c at = Inr recent"
      "proposals_for_event E (ev_event_type ev) at (cust_timezone c) = Inr ps"
    and loop: "plan_proposals E ev c a corr cap ps (initial_progress recent) d = (Inr pg, d1)" and r: "r = loop_answer ev pg"
    using assms(1-4) by (rule creating_loop)
  from loop assms(5) obtain d' ds ts rows where
    loop': "plan_proposals E ev c a corr cap ps (initial_progress recent) (others d) = (Inr pg, d')"
    and eff: "loop_effect E ev c a corr cap ps (initial_progress recent) (others d) pg d' ds ts rows"
    and made: "length ts = pg_created_tasks pg" by (rule loop_elsewhere)
  have "plan_outreach_between E others i corr (Some (Aware at)) cap d = (Inr r, d')"
    using assms(3,4) creating_run(1) [OF assms(1-4)] undecided read loop'
    by (simp add: plan_outreach_between_def plan_policy_event_between_def aware_now.simps r loop_answer_def
        initial_progress_def)
  with eff assms(6,7) made show ?thesis
    by (intro exI [of _ d'] exI [of _ ts]) (auto simp: loop_effect_def planned_task_def r loop_answer_def)
qed

text \<open>A delinquency is planned while another session ingests the opt-out of the customer.\<close>

definition opt_out_elsewhere :: "db \<Rightarrow> db" where
  "opt_out_elsewhere d = store (snd (ingest_event_snapshot sample_env (\<lambda>x. x) ''crm'' ''stop''
     ''opt_out_received''
     sample_cs sample_as
     (Aware (utc_datetime (start_now sample_env))) [] 6 (open_session d)))"

theorem opt_out_overtaken_witness:
  "\<exists>r d'. plan_outreach_between sample_env opt_out_elsewhere 3 0
       (Some (Aware (utc_datetime (start_now sample_env)))) 5 (sample_db [sample_event 3 ''account_delinquent''] [])
       = (Inr r, d')
    \<and> (\<exists>c\<in>set (customers d'). cust_opted_out c)
    \<and> map task_status (outreach_tasks d') = [SCHEDULED, SCHEDULED, SCHEDULED]"
proof -
  let ?d = "sample_db [sample_event 3 ''account_delinquent''] []"
  have "map cust_opted_out (customers (opt_out_elsewhere ?d)) = [True]"
    unfolding opt_out_elsewhere_def by code_simp
  moreover have "map cust_id (customers (opt_out_elsewhere ?d)) = [1]"
    unfolding opt_out_elsewhere_def by code_simp
  moreover have none: "outreach_tasks (opt_out_elsewhere ?d) = []"
    unfolding opt_out_elsewhere_def by code_simp
  ultimately obtain c' where c': "customers (opt_out_elsewhere ?d) = [c']" "cust_opted_out c'" "cust_id c' = 1" by auto
  obtain r where r: "plan_outreach_for_event sample_env 3 0 (Some (Aware (utc_datetime (start_now sample_env)))) 5 ?d
      = (Inr r, snd delinquent_run)" using delinquent_run_Inr by blast
  have "pr_created_tasks r = length (outreach_tasks (snd delinquent_run))"
    using created_tasks_added [OF r] by (simp add: policy_event_types_def)
  then have made: "pr_created_tasks r = 3" using delinquent_run_tasks by simp
  have "find (\<lambda>ev. ev_id ev = 3) (inbound_events ?d) = Some (sample_event 3 ''account_delinquent'')" by simp
  from opt_out_overtaken [OF r _ this sample_load, of opt_out_elsewhere c'] obtain d' ts where
    run: "plan_outreach_between sample_env opt_out_elsewhere 3 0
       (Some (Aware (utc_datetime (start_now sample_env)))) 5 ?d = (Inr r, d')"
    and left: "c' \<in> set (customers d')" "outreach_tasks d' = ts" "length ts = 3" "\<forall>t\<in>set ts. task_status t = SCHEDULED"
    using c' none made by (auto simp: sample_customer_def)
  from left(2-4) have "map task_status (outreach_tasks d') = [SCHEDULED, SCHEDULED, SCHEDULED]"
    by (auto simp: numeral_3_eq_3 length_Suc_conv)
  with run left(1) c'(2) show ?thesis by (intro exI conjI bexI [of _ c'])
qed

end
