(* ===== verification/Compliance_Gaps.thy ===== *)
theory Compliance_Gaps
  imports Opt_Out_Race Worker_Examples
begin

text \<open>
  Where the compliance rules stop short of what is sent: the contact window is looked at when
  a task is planned and not when it is sent, and the frequency cap compares the time an
  event reports with the time of the server.
\<close>

section \<open>The contact window\<close>

text \<open>C26. The worker does not look at the contact window: a call or message that is due is sent at a
  time of the customer's day at which the policy allows no attempt over that channel,
  whatever else holds of the customer.  A task becomes due at such a time when no pass ran since its
  scheduled time, or when it is a retry, which is due five minutes after the failed attempt.\<close>

theorem worker_ignores_contact_window:
  assumes "wf_db d" and "t \<in> set (outreach_tasks d)" and "due (instant now) t" and "task_channel t \<noteq> EMAIL"
    and "send_task (wk_adapters w) (claimed t) = Inr result"
    and "get_customer_timezone E zone = Inr tz" and "astimezone now tz = Inr local" and "\<not> in_contact_window (dt_wall local)"
  shows "(\<exists>d' u. dispatch_task E w no_interference now (task_id t) d = (Inr True, d') \<and> u \<in> set (outreach_tasks d')
      \<and> task_id u = task_id t \<and> task_status u = SENT)
    \<and> (\<forall>pin r. pi_channel pin = task_channel t \<and> pi_scheduled_at pin = now \<and> pi_customer_timezone pin = zone
        \<and> evaluate_policy E pin = Inr r \<longrightarrow> res_decision r \<noteq> ALLOW)"
proof -
  let ?t = "(claimed t)\<lparr>task_status := SENT, task_last_error := None\<rparr>"
  have "attempt w now t = Inr ?t" "error_fits E w (claimed t)" using assms(5) by (simp_all add: attempt_def error_fits_def)
  from dispatch_attempt [OF assms(1-3) this(2,1)] obtain d' where
    run: "dispatch_task E w no_interference now (task_id t) d = (Inr True, d')"
    and rows: "outreach_tasks d' = put_row task_id ?t (outreach_tasks d)" by blast
  have "?t \<in> set (outreach_tasks d')" unfolding rows using put_row_has [OF assms(2), of task_id ?t] by simp
  moreover have "task_id ?t = task_id t" "task_status ?t = SENT" by simp_all
  ultimately have "\<exists>d' u. dispatch_task E w no_interference now (task_id t) d = (Inr True, d') \<and> u \<in> set (outreach_tasks d')
      \<and> task_id u = task_id t \<and> task_status u = SENT" using run by blast
  moreover have "res_decision r \<noteq> ALLOW"
    if "pi_channel pin = task_channel t" "pi_scheduled_at pin = now" "pi_customer_timezone pin = zone"
      "evaluate_policy E pin = Inr r" for pin r
  proof
    assume "res_decision r = ALLOW"
    then have "\<exists>r. evaluate_policy E pin = Inr r \<and> res_decision r = ALLOW" using that(4) by blast
    then show False unfolding evaluate_policy_allow using that(1-3) assms(4,6-8) by auto
  qed
  ultimately show ?thesis by blast
qed

text \<open>The message of the sample account, when the next pass runs at eleven in the evening in New York.\<close>

theorem worker_ignores_contact_window_witness:
  "\<exists>d' u. dispatch_task sample_env default_worker no_interference (utc_datetime (start_now sample_env + hours 13)) 11 one_event
       = (Inr True, d')
     \<and> u \<in> set (outreach_tasks d') \<and> task_id u = 11 \<and> task_status u = SENT"
proof -
  obtain t where t: "t \<in> set (outreach_tasks one_event)" "task_id t = 11" "task_channel t = SMS"
    "task_status t = SCHEDULED" "task_scheduled_at t = start_now sample_env + minutes 15" by (rule sms_task)
  let ?now = "utc_datetime (start_now sample_env + hours 13)"
  have due: "due (instant ?now) t" using t(4,5) by (simp add: due_def)
  have sms: "task_channel t \<noteq> EMAIL" using t(3) by simp
  obtain result where sent: "send_task (wk_adapters default_worker) (claimed t) = Inr result"
    using default_send by (auto simp: default_worker_def)
  have "case get_customer_timezone sample_env ''America/New_York'' of Inl e \<Rightarrow> False
    | Inr tz \<Rightarrow> (case astimezone ?now tz of Inl e \<Rightarrow> False | Inr local \<Rightarrow> \<not> in_contact_window (dt_wall local))"
    by code_simp
  then obtain tz local where "get_customer_timezone sample_env ''America/New_York'' = Inr tz"
      "astimezone ?now tz = Inr local" "\<not> in_contact_window (dt_wall local)" by (auto split: sum.splits)
  from worker_ignores_contact_window [OF wf_one_event t(1) due sms sent this] t(2) show ?thesis by auto
qed

section \<open>The frequency cap\<close>

text \<open>C27. The frequency cap counts back from the time the event reports, but compares with the time at
  which the server created the tasks: when an event is dated far enough ahead that every task was
  created more than 24 hours before it, the planner adds as many tasks as on a database
  without any, however many attempts there have just been, and the server stamps
  them with the present time.\<close>

theorem future_event_escapes_cap:
  assumes "plan_outreach_for_event E i corr (Some (Aware at)) cap (d\<lparr>outreach_tasks := []\<rparr>) = (Inr r, d1)"
    and "0 < pr_created_tasks r" and "find (\<lambda>ev. ev_id ev = i) (inbound_events d) = Some ev"
    and "load_customer_and_account d ev = Inr (c, a)" and "dt_add at (- hours 24) = Inr since"
    and "\<forall>t\<in>set (outreach_tasks d). task_created_at t < instant since"
    and "\<forall>ch. task_key ev ch \<notin> task_idempotency_key ` set (outreach_tasks d)"
  shows "\<exists>d' ts. plan_outreach_for_event E i corr (Some (Aware at)) cap d = (Inr r, d')
    \<and> outreach_tasks d' = outreach_tasks d @ ts \<and> length ts = pr_created_tasks r
    \<and> (\<forall>t\<in>set ts. task_status t = SCHEDULED \<and> task_customer_id t = cust_id c \<and> task_created_at t = txn_now E)"
proof -
  let ?d = "d\<lparr>outreach_tasks := []\<rparr>"
  have same: "find (\<lambda>ev. ev_id ev = i) (inbound_events ?d) = Some ev" "load_customer_and_account ?d ev = Inr (c, a)"
    using assms(3,4) by (auto simp: load_customer_and_account_def split: option.splits)
  obtain recent ps pg where undecided: "find (\<lambda>pd. pd_inbound_event_id pd = Some (ev_id ev)) (policy_decisions ?d) = None"
    and read: "recent_attempt_count ?d c at = Inr recent"
      "proposals_for_event E (ev_event_type ev) at (cust_timezone c) = Inr ps"
    and loop: "plan_proposals E ev c a corr cap ps (initial_progress recent) ?d = (Inr pg, d1)" and r: "r = loop_answer ev pg"
    using assms(1,2) same by (rule creating_loop)
  have "rowcount (\<lambda>t. task_customer_id t = cust_id c \<and> task_status t \<in> RECENT_ATTEMPT_STATUSES
      \<and> instant since \<le> task_created_at t) (outreach_tasks d) = 0"
    using assms(6) by (fastforce simp: rowcount_zero_iff)
  then have recent: "recent_attempt_count d c at = Inr recent"
    using read(1) assms(5) by (simp add: recent_attempt_count_def)
  from loop assms(7) obtain d' ds ts rows where
    loop': "plan_proposals E ev c a corr cap ps (initial_progress recent) d = (Inr pg, d')"
    and eff: "loop_effect E ev c a corr cap ps (initial_progress recent) d pg d' ds ts rows"
    and made: "length ts = pg_created_tasks pg" by (rule loop_elsewhere)
  have "ev_event_type ev \<in> policy_event_types" using assms(1,2) same by (rule creating_run)
  then have "plan_outreach_for_event E i corr (Some (Aware at)) cap d = (Inr r, d')"
    unfolding plan_outreach_quiet [symmetric]
    using assms(3,4) undecided read(2) recent loop'
    by (simp add: plan_outreach_between_def plan_policy_event_between_def aware_now.simps r loop_answer_def
        initial_progress_def)
  with eff made show ?thesis
    by (intro exI [of _ d'] exI [of _ ts]) (auto simp: loop_effect_def planned_task_def r loop_answer_def)
qed

text \<open>Three attempts have been made today; an event dated in four days brings three more.\<close>

theorem future_event_escapes_cap_witness:
  "\<exists>r d'. plan_outreach_for_event sample_env 3 0 (Some (Aware (utc_datetime (start_now sample_env + days 4)))) 3
       (sample_db [sample_event 3 ''account_delinquent''] [sample_task 4 SENT, sample_task 5 SENT, sample_task 6 SENT])
       = (Inr r, d') \<and> length (outreach_tasks d') = 6"
proof -
  let ?run = "plan_outreach_for_event sample_env 3 0 (Some (Aware (utc_datetime (start_now sample_env + days 4)))) 3"
  let ?quiet = "sample_db [sample_event 3 ''account_delinquent''] []"
  let ?busy = "sample_db [sample_event 3 ''account_delinquent''] [sample_task 4 SENT, sample_task 5 SENT, sample_task 6 SENT]"
  have "(case fst (?run ?quiet) of Inl e \<Rightarrow> False | Inr r \<Rightarrow> True) \<and> length (outreach_tasks (snd (?run ?quiet))) = 3"
    by code_simp
  then obtain r d1 where run: "?run ?quiet = (Inr r, d1)" and "length (outreach_tasks d1) = 3"
    by (cases "?run ?quiet") (auto split: sum.splits)
  with created_tasks_added [OF run] have made: "pr_created_tasks r = 3" by (simp add: policy_event_types_def)
  have quiet: "?busy\<lparr>outreach_tasks := []\<rparr> = ?quiet" by (simp add: sample_db_def)
  have "case dt_add (utc_datetime (start_now sample_env + days 4)) (- hours 24) of Inl e \<Rightarrow> False
    | Inr since \<Rightarrow> days 739763 < instant since" by code_simp
  then obtain since where since: "dt_add (utc_datetime (start_now sample_env + days 4)) (- hours 24) = Inr since"
    "days 739763 < instant since" by (auto split: sum.splits)
  have keys: "\<forall>ch. task_key (sample_event 3 ''account_delinquent'') ch \<notin> task_idempotency_key ` set (outreach_tasks ?busy)"
    by (auto simp: task_key_def sample_task_def)
  from future_event_escapes_cap [OF run [folded quiet] _ _ sample_load since(1) _ keys] made since(2)
  obtain d' ts where "?run ?busy = (Inr r, d')" "outreach_tasks d' = outreach_tasks ?busy @ ts" "length ts = 3"
    by (auto simp: sample_task_def)
  moreover from this have "length (outreach_tasks d') = 6" by simp
  ultimately show ?thesis by blast
qed

end
