(* ===== verification/Demo_Seed.thy ===== *)
theory Demo_Seed
  imports Events_Api Tasks_Api
begin

text \<open>
  \<open>src/scripts/seed_demo.py\<close>: a client that empties the tables and then plays three stories
  against the API.  Its requests run one after the other with no other session at work;
  request number \<open>n\<close> is served in the environment \<open>E n\<close> and, having no correlation header,
  draws the identifier \<open>fresh n\<close>.  A dictionary of the script is the request it is parsed
  into, what a scenario prints is its report, and any answer that is not a success is the
  \<open>RuntimeError\<close> of the client, whose message is cut short here.
\<close>

section \<open>Emptying the tables\<close>

datatype reset_model = AuditEvents | OutreachTasks | PolicyDecisions | InboundEvents | Accounts | Customers

definition RESET_MODELS :: "reset_model list" where
  "RESET_MODELS = [AuditEvents, OutreachTasks, PolicyDecisions, InboundEvents, Accounts, Customers]"

text \<open>Whether a row of another table has a foreign key to a row of this one.\<close>

fun referenced :: "reset_model \<Rightarrow> db \<Rightarrow> bool" where
  "referenced AuditEvents d \<longleftrightarrow> False"
| "referenced OutreachTasks d \<longleftrightarrow> False"
| "referenced PolicyDecisions d \<longleftrightarrow>
     find (\<lambda>t. task_policy_decision_id t \<in> set (map (\<lambda>p. Some (pd_id p)) (policy_decisions d))) (outreach_tasks d) \<noteq> None"
| "referenced InboundEvents d \<longleftrightarrow>
     find (\<lambda>p. pd_inbound_event_id p \<in> set (map (\<lambda>e. Some (ev_id e)) (inbound_events d))) (policy_decisions d) \<noteq> None"
| "referenced Accounts d \<longleftrightarrow>
     find (\<lambda>p. pd_account_id p \<in> set (map acct_id (accounts d))) (policy_decisions d) \<noteq> None
     \<or> find (\<lambda>t. task_account_id t \<in> set (map acct_id (accounts d))) (outreach_tasks d) \<noteq> None"
| "referenced Customers d \<longleftrightarrow>
     find (\<lambda>a. acct_customer_id a \<in> set (map cust_id (customers d))) (accounts d) \<noteq> None
     \<or> find (\<lambda>p. pd_customer_id p \<in> set (map cust_id (customers d))) (policy_decisions d) \<noteq> None
     \<or> find (\<lambda>t. task_customer_id t \<in> set (map cust_id (customers d))) (outreach_tasks d) \<noteq> None"

fun clear_table :: "reset_model \<Rightarrow> db \<Rightarrow> db" where
  "clear_table AuditEvents d = d\<lparr>audit_events := []\<rparr>"
| "clear_table OutreachTasks d = d\<lparr>outreach_tasks := []\<rparr>"
| "clear_table PolicyDecisions d = d\<lparr>policy_decisions := []\<rparr>"
| "clear_table InboundEvents d = d\<lparr>inbound_events := []\<rparr>"
| "clear_table Accounts d = d\<lparr>accounts := []\<rparr>"
| "clear_table Customers d = d\<lparr>customers := []\<rparr>"

fun delete_models :: "reset_model list \<Rightarrow> db \<Rightarrow> py_error + db" where
  "delete_models [] d = Inr d"
| "delete_models (m # ms) d =
     (if referenced m d then Inl IntegrityError else delete_models ms (clear_table m d))"

text \<open>One transaction: a statement that fails leaves the database as it was.\<close>

definition reset_database :: "db \<Rightarrow> (py_error + unit) \<times> db" where
  "reset_database d = (case delete_models RESET_MODELS d of Inl e \<Rightarrow> (Inl e, d) | Inr d' \<Rightarrow> (Inr (), d'))"

section \<open>The events\<close>

definition demo_customer :: "string \<Rightarrow> string \<Rightarrow> string \<Rightarrow> string \<Rightarrow> bool \<Rightarrow> bool \<Rightarrow> bool \<Rightarrow> customer_snapshot" where
  "demo_customer external_id full_name email phone_number sms_consent call_consent email_consent =
     \<lparr>cs_external_id = external_id, cs_full_name = full_name, cs_timezone = ''America/New_York'',
      cs_phone_number = Some phone_number, cs_email = Some email, cs_sms_consent = sms_consent,
      cs_call_consent = call_consent, cs_email_consent = email_consent\<rparr>"

definition account_delinquent_event ::
  "string \<Rightarrow> string \<Rightarrow> string \<Rightarrow> string \<Rightarrow> string \<Rightarrow> string \<Rightarrow> datetime \<Rightarrow> int \<Rightarrow> int \<Rightarrow> event_request" where
  "account_delinquent_event external_id customer_external_id account_external_id full_name email
       phone_number occurred_at balance_cents days_past_due =
     \<lparr>rq_source = ''demo_script'', rq_external_id = external_id, rq_event_type = ''account_delinquent'',
      rq_customer = demo_customer customer_external_id full_name email phone_number True True True,
      rq_account = \<lparr>as_external_id = account_external_id, as_status = DELINQUENT,
        as_balance_cents = balance_cents, as_days_past_due = days_past_due\<rparr>,
      rq_occurred_at = Aware occurred_at, rq_metadata = [(''demo_scenario'', JBool True)]\<rparr>"

definition opt_out_event :: "string \<Rightarrow> string \<Rightarrow> string \<Rightarrow> datetime \<Rightarrow> event_request" where
  "opt_out_event external_id customer_external_id account_external_id occurred_at =
     \<lparr>rq_source = ''demo_script'', rq_external_id = external_id, rq_event_type = ''opt_out_received'',
      rq_customer = demo_customer customer_external_id ''Sam Taylor'' ''sam.taylor@example.com''
        ''+12125550100'' False False False,
      rq_account = \<lparr>as_external_id = account_external_id, as_status = DELINQUENT,
        as_balance_cents = 5400, as_days_past_due = 7\<rparr>,
      rq_occurred_at = Aware occurred_at,
      rq_metadata = [(''demo_scenario'', JBool True),
        (''opt_out'', JObj [(''channel'', JStr ''sms''), (''message'', JStr ''STOP'')])]\<rparr>"

definition payment_received_event :: "string \<Rightarrow> string \<Rightarrow> string \<Rightarrow> datetime \<Rightarrow> event_request" where
  "payment_received_event external_id customer_external_id account_external_id occurred_at =
     \<lparr>rq_source = ''demo_script'', rq_external_id = external_id, rq_event_type = ''payment_received'',
      rq_customer = demo_customer customer_external_id ''Maria Santos'' ''maria.santos@example.com''
        ''+16465550100'' True True True,
      rq_account = \<lparr>as_external_id = account_external_id, as_status = RESOLVED,
        as_balance_cents = 0, as_days_past_due = 0\<rparr>,
      rq_occurred_at = Aware occurred_at,
      rq_metadata = [(''demo_scenario'', JBool True),
        (''payment'', JObj [(''amount_cents'', JInt 12500), (''provider_reference'', JStr ''pay_demo_001'')])]\<rparr>"

section \<open>The scenarios\<close>

record demo_scenario =
  sc_name :: string
  sc_description :: string
  sc_events :: "event_request list"

text \<open>Tomorrow at 15:00 UTC.\<close>

definition demo_start_at :: "usec \<Rightarrow> py_error + datetime" where
  "demo_start_at now =
     map_sum id (\<lambda>tomorrow. tomorrow\<lparr>dt_wall := dt_wall tomorrow div days 1 * days 1 + hours 15\<rparr>)
       (dt_add (utc_datetime now) (days 1))"

definition happy_path :: "datetime \<Rightarrow> demo_scenario" where
  "happy_path start_at = \<lparr>sc_name = ''happy_path_delinquent_account'',
     sc_description = ''Delinquent account with all channel consents schedules email, SMS, and call outreach.'',
     sc_events = [account_delinquent_event ''evt_demo_happy_path_delinquent'' ''cust_demo_jane_doe''
       ''acct_demo_jane_doe'' ''Jane Doe'' ''jane.doe@example.com'' ''+14155550100'' start_at 12500 14]\<rparr>"

definition opt_out_story :: "datetime \<Rightarrow> datetime \<Rightarrow> demo_scenario" where
  "opt_out_story opt_out_at followup_at = \<lparr>sc_name = ''opt_out_blocks_future_outreach'',
     sc_description = ''Opt-out event records durable opt-out state; a later delinquency event is blocked by policy.'',
     sc_events = [opt_out_event ''evt_demo_opt_out_received'' ''cust_demo_sam_taylor'' ''acct_demo_sam_taylor'' opt_out_at,
       account_delinquent_event ''evt_demo_opt_out_followup_delinquent'' ''cust_demo_sam_taylor''
         ''acct_demo_sam_taylor'' ''Sam Taylor'' ''sam.taylor@example.com'' ''+12125550100'' followup_at 5400 7]\<rparr>"

definition payment_story :: "datetime \<Rightarrow> datetime \<Rightarrow> demo_scenario" where
  "payment_story payment_start_at paid_at = \<lparr>sc_name = ''payment_received_cancels_scheduled_outreach'',
     sc_description = ''A delinquency event schedules outreach; a payment event for the same account cancels the pending work.'',
     sc_events = [account_delinquent_event ''evt_demo_payment_before_delinquent'' ''cust_demo_maria_santos''
         ''acct_demo_maria_santos'' ''Maria Santos'' ''maria.santos@example.com'' ''+16465550100''
         payment_start_at 12500 21,
       payment_received_event ''evt_demo_payment_received'' ''cust_demo_maria_santos'' ''acct_demo_maria_santos'' paid_at]\<rparr>"

text \<open>The times of the events, in the order the script computes them.\<close>

definition demo_scenarios :: "usec \<Rightarrow> py_error + demo_scenario list" where
  "demo_scenarios now =
     (case demo_start_at now of Inl e \<Rightarrow> Inl e
      | Inr start_at \<Rightarrow>
     (case dt_add start_at (hours 1) of Inl e \<Rightarrow> Inl e
      | Inr payment_start_at \<Rightarrow>
     (case dt_add start_at (minutes 10) of Inl e \<Rightarrow> Inl e
      | Inr opt_out_at \<Rightarrow>
     (case dt_add start_at (minutes 20) of Inl e \<Rightarrow> Inl e
      | Inr followup_at \<Rightarrow>
     (case dt_add payment_start_at (minutes 15) of Inl e \<Rightarrow> Inl e
      | Inr paid_at \<Rightarrow>
          Inr [happy_path start_at, opt_out_story opt_out_at followup_at, payment_story payment_start_at paid_at])))))"

definition selected_scenarios :: "demo_scenario list \<Rightarrow> string list option \<Rightarrow> string set" where
  "selected_scenarios scenarios values =
     (case values of None \<Rightarrow> set (map sc_name scenarios)
      | Some vs \<Rightarrow> if ''all'' \<in> set vs then set (map sc_name scenarios) else set vs)"

section \<open>The run\<close>

definition client_error :: "string \<Rightarrow> py_error" where
  "client_error request = RuntimeError (request @ '' failed'')"

fun post_events ::
  "(nat \<Rightarrow> env) \<Rightarrow> (nat \<Rightarrow> uuid) \<Rightarrow> nat \<Rightarrow> event_request list \<Rightarrow> db \<Rightarrow> (py_error + event_response list) \<times> db" where
  "post_events E fresh n [] d = (Inr [], d)"
| "post_events E fresh n (event # events) d =
     (case snd (correlation_id_middleware (fresh n) None (\<lambda>corr. post_event (E n) (\<lambda>x. x) corr event d)) of
        (Inl e, d1) \<Rightarrow> (Inl (client_error ''POST /v1/events''), d1)
      | (Inr response, d1) \<Rightarrow>
          (case post_events E fresh (Suc n) events d1 of
             (Inl e, d2) \<Rightarrow> (Inl e, d2)
           | (Inr responses, d2) \<Rightarrow> (Inr (response # responses), d2)))"

record scenario_report =
  sr_name :: string
  sr_responses :: "event_response list"
  sr_tasks :: "outreach_task_response list"
  sr_audit :: "audit_event list"

definition run_scenario ::
  "(nat \<Rightarrow> env) \<Rightarrow> (nat \<Rightarrow> uuid) \<Rightarrow> nat \<Rightarrow> demo_scenario \<Rightarrow> db \<Rightarrow> (py_error + scenario_report) \<times> db" where
  "run_scenario E fresh n scenario d =
     (case post_events E fresh n (sc_events scenario) d of
        (Inl e, d1) \<Rightarrow> (Inl e, d1)
      | (Inr responses, d1) \<Rightarrow>
          if responses = []
          then (Inr \<lparr>sr_name = sc_name scenario, sr_responses = [], sr_tasks = [], sr_audit = []\<rparr>, d1)
          else case list_tasks_route d1 None None
                 (Some (as_external_id (rq_account (last (sc_events scenario))))) None 20 of
            Inl e \<Rightarrow> (Inl (client_error ''GET /v1/tasks''), d1)
          | Inr tasks \<Rightarrow>
              (Inr \<lparr>sr_name = sc_name scenario, sr_responses = responses, sr_tasks = tasks,
                 sr_audit = list_audit_events (Some (rs_correlation_id (last responses))) d1\<rparr>, d1))"

fun run_scenarios ::
  "(nat \<Rightarrow> env) \<Rightarrow> (nat \<Rightarrow> uuid) \<Rightarrow> nat \<Rightarrow> string set \<Rightarrow> demo_scenario list \<Rightarrow> db
     \<Rightarrow> (py_error + scenario_report list) \<times> db" where
  "run_scenarios E fresh n names [] d = (Inr [], d)"
| "run_scenarios E fresh n names (scenario # scenarios) d =
     (if sc_name scenario \<notin> names then run_scenarios E fresh n names scenarios d
      else case run_scenario E fresh n scenario d of
        (Inl e, d1) \<Rightarrow> (Inl e, d1)
      | (Inr report, d1) \<Rightarrow>
          (case run_scenarios E fresh (n + length (sc_events scenario)) names scenarios d1 of
             (Inl e, d2) \<Rightarrow> (Inl e, d2)
           | (Inr reports, d2) \<Rightarrow> (Inr (report # reports), d2)))"

text \<open>\<open>values\<close> are the scenarios named on the command line, \<open>now\<close> is the clock of the script.\<close>

definition seed_demo ::
  "(nat \<Rightarrow> env) \<Rightarrow> (nat \<Rightarrow> uuid) \<Rightarrow> usec \<Rightarrow> bool \<Rightarrow> string list option \<Rightarrow> db
     \<Rightarrow> (py_error + scenario_report list) \<times> db" where
  "seed_demo E fresh now skip_reset values d =
     (case demo_scenarios now of
        Inl e \<Rightarrow> (Inl e, d)
      | Inr scenarios \<Rightarrow>
          (case (if skip_reset then (Inr (), d) else reset_database d) of
             (Inl e, d0) \<Rightarrow> (Inl e, d0)
           | (Inr _, d0) \<Rightarrow> run_scenarios E fresh 0 (selected_scenarios scenarios values) scenarios d0))"

end
