(* ===== verification/Tracing.thy ===== *)
theory Tracing
  imports Events_Properties Operational_Properties
begin

text \<open>
  The correlation identifier on its way from the request to the rows: every audit row that
  an ingestion or a manual cancellation appends carries the identifier of its request,
  and so does every task an ingestion adds.
\<close>

section \<open>Rows that carry an identifier\<close>

definition traced :: "uuid \<Rightarrow> db \<Rightarrow> db \<Rightarrow> bool" where
  "traced c d d' \<longleftrightarrow>
     (\<exists>rows. audit_events d' = audit_events d @ rows \<and> (\<forall>r\<in>set rows. ae_correlation_id r = c))
     \<and> (\<exists>ids. map task_correlation_id (outreach_tasks d') = map task_correlation_id (outreach_tasks d) @ ids
          \<and> set ids \<subseteq> {c})"

named_theorems traced

lemma traced_refl [traced, simp]: "traced c d d"
  by (auto simp: traced_def)

lemma traced_trans: "traced c d d' \<Longrightarrow> traced c d' d'' \<Longrightarrow> traced c d d''"
  by (force simp: traced_def)

lemma traced_same:
  "audit_events d' = audit_events d \<Longrightarrow>
     map task_correlation_id (outreach_tasks d') = map task_correlation_id (outreach_tasks d) \<Longrightarrow> traced c d d'"
  by (auto simp: traced_def)

lemma map_update_same: "(\<And>r. g (f r) = g r) \<Longrightarrow> map g (update_where P f rows) = map g rows"
  by (auto simp: update_where_def)

section \<open>The planner\<close>

lemma traced_planner_audit [traced]: "traced c d (planner_audit E ev c et ent ei p d)"
  by (simp add: traced_def planner_audit_update)

lemma traced_then_audit [traced]: "traced c d d' \<Longrightarrow> traced c d (planner_audit E ev c et ent ei p d')"
  by (rule traced_trans [OF _ traced_planner_audit])

lemma traced_marker [traced]: "traced c d d' \<Longrightarrow> traced c d (append_processed_marker E ev c d')"
proof (rule traced_trans)
  show "traced c d' (append_processed_marker E ev c d')"
    by (cases "map_of PROCESSED_MARKERS (ev_event_type ev)")
      (simp add: append_processed_marker_def, simp add: append_processed_marker_update traced_def)
qed

lemma traced_set_status [traced]: "traced c d (set_task_status i st d)"
  by (rule traced_same) (simp_all add: set_task_status_def map_update_same)

lemma traced_cancel_tasks: "traced c d (cancel_tasks E ev a c ts d)"
proof (induction ts arbitrary: d)
  case (Cons t ts)
  show ?case unfolding cancel_tasks.simps by (rule traced_trans [OF _ Cons.IH]) (intro traced)
qed simp

lemma traced_cancel_scheduled [traced]:
  "traced c d d1 \<Longrightarrow> traced c d (snd (cancel_scheduled_tasks E ev cu a c d1))"
  by (auto simp: cancel_scheduled_tasks_def Let_def intro: traced_trans traced_cancel_tasks)

lemma traced_record_decision: "record_decision E ev cu a c r d = (pd, d1) \<Longrightarrow> traced c d d1"
  by (auto simp: record_decision_def uuid4_def Let_def intro!: traced_then_audit traced_same)

lemma traced_schedule_task: "schedule_task E ev cu a c pd ch at d = Inr d1 \<Longrightarrow> traced c d d1"
  by (auto simp: schedule_task_def insert_task_def uuid4_def Let_def traced_def planner_audit_update split: if_splits)

lemma traced_apply: "traced c d (snd (apply_policy_result E ev cu a c p r pg d))"
proof -
  obtain pd d1 where rec: "record_decision E ev cu a c r d = (pd, d1)" by fastforce
  note one = traced_record_decision [OF rec]
  have later: "traced c d d3" if "schedule_task E ev cu a c pd ch at d2 = Inr d3" "traced c d d2" for ch at d2 d3
    using that(2) traced_schedule_task [OF that(1)] by (rule traced_trans)
  show ?thesis
    unfolding apply_policy_result_def rec Let_def
    using one by (auto split: sum.split intro!: traced_then_audit intro: later)
qed

lemma traced_plan_proposals: "traced c d (snd (plan_proposals E ev cu a c cap ps pg d))"
proof (induction ps arbitrary: pg d)
  case (Cons p ps)
  have rest: "traced c d (snd (plan_proposals E ev cu a c cap ps pg1 d1))" "traced c d d1"
    if "apply_policy_result E ev cu a c p r pg d = (res, d1)" for r res pg1 d1
    using traced_apply [of c d E ev cu a p r pg] Cons.IH [of d1 pg1] that by (auto intro: traced_trans)
  show ?case
    using rest by (auto split: sum.split prod.split)
qed simp

lemma traced_plan_policy_event: "traced c d (snd (plan_policy_event E ev cu a c now cap d))"
  unfolding plan_policy_event_def
  using traced_plan_proposals by (auto split: sum.split prod.split) (metis snd_conv)+

lemma traced_handlers:
  "traced c d (snd (handle_cancellation_event E ev cu a c d))" "traced c d (snd (handle_opt_out E ev cu a c d))"
  "traced c d (snd (handle_hardship E ev cu a c d))" "traced c d (snd (handle_account_paused E ev cu a c d))"
proof -
  have out: "traced c d (set_opted_out cu d)" "traced c d (set_paused a d)"
    by (rule traced_same; simp add: set_opted_out_def set_paused_def)+
  show "traced c d (snd (handle_cancellation_event E ev cu a c d))" "traced c d (snd (handle_opt_out E ev cu a c d))"
    "traced c d (snd (handle_hardship E ev cu a c d))" "traced c d (snd (handle_account_paused E ev cu a c d))"
    by (simp_all add: handle_cancellation_event_def handle_opt_out_def handle_hardship_def handle_account_paused_def
        Let_def case_prod_beta traced out)
qed

lemma traced_plan_outreach: "traced c d (snd (plan_outreach_for_event E i c now cap d))"
  unfolding plan_outreach_for_event_def
  using traced_plan_policy_event traced_handlers by (auto split: sum.split option.split)

section \<open>Ingestion\<close>

lemma traced_accepted: "traced c d (audit_accepted_event E e c d)"
  by (rule audit_accepted_event_rows [of E e c d]) (auto simp: traced_def add_audit_def frame_simps)

lemma traced_complete_ingestion:
  assumes "complete_ingestion E e at c s = (res, s')"
  shows "traced c (pending s) (pending s')"
proof -
  let ?d = "audit_accepted_event E e c (pending s)"
  obtain r d where plan: "plan_outreach_for_event E (ev_id e) c (Some at) 3 ?d = (r, d)" by fastforce
  have "traced c (pending s) d"
    using traced_trans [OF traced_accepted traced_plan_outreach] plan by (metis snd_conv)
  moreover have "traced c d (mark_processed i d)" for i
    by (rule traced_same) (simp_all add: mark_processed_def)
  ultimately show ?thesis
    using assms plan by (auto simp: complete_ingestion_def commit_def split: sum.splits intro: traced_trans)
qed

lemma traced_ingest:
  assumes "ingest_event_snapshot E (\<lambda>x. x) src ext ty cs as at md c (open_session d) = (res, s)"
  shows "traced c d (store s)"
proof (cases rule: ingest_split [of "open_session d" src ext E "\<lambda>x. x" ty cs as at md c])
  case (flush customer d0 account d1)
  let ?e = "new_event E (next_uuid d1) src ext ty cs as at md customer account"
  let ?s = "\<lparr>store = d, pending = d1\<lparr>next_uuid := Suc (next_uuid d1)\<rparr>\<rparr>"
  have run: "flush_new_event E ?e at c ?s = (res, s)" using assms flush(4) by simp
  have "audit_events d1 = audit_events d" "outreach_tasks d1 = outreach_tasks d"
    using flush(2,3) upsert_customer_tables [of E cs _ _ d0] upsert_account_tables [of E as customer d0 _ d1]
    by (simp_all add: open_session_def)
  then have start: "traced c d (pending ?s)" by (intro traced_same) simp_all
  show ?thesis
  proof (cases "insert_event E ?e (pending ?s)")
    case (Inl err)
    then have "store s = d"
      using run by (auto simp: flush_new_event_def rollback_def Let_def split: if_splits option.splits)
    then show ?thesis by simp
  next
    case (Inr d2)
    then have "audit_events d2 = audit_events (pending ?s)" "outreach_tasks d2 = outreach_tasks (pending ?s)"
      by (auto simp: insert_event_def split: if_splits)
    then have "traced c d d2" using start by (intro traced_trans [OF start] traced_same) simp_all
    moreover have completed: "complete_ingestion E ?e at c (?s\<lparr>pending := d2\<rparr>) = (res, s)"
      using run Inr by (simp add: flush_new_event_def)
    ultimately have "traced c d (pending s)"
      using traced_complete_ingestion [OF completed] by (auto intro: traced_trans)
    moreover have "store s = d \<or> store s = pending s"
      using completed by (auto simp: complete_ingestion_def commit_def split: sum.splits prod.splits)
    ultimately show ?thesis by auto
  qed
qed (use assms in \<open>auto simp: open_session_def\<close>)

section \<open>The operational API\<close>

lemma traced_operational_audit: "traced c d (operational_audit E t ty c p d)"
  by (simp add: traced_def operational_audit_add add_audit_def)

lemma traced_cancel_still_scheduled: "traced c d (snd (cancel_still_scheduled E a reason c ts n d))"
proof (induction ts arbitrary: n d)
  case (Cons t ts)
  have "traced c d (operational_audit E t ty c p
      (d\<lparr>outreach_tasks := update_where P (\<lambda>t. t\<lparr>task_status := st\<rparr>) (outreach_tasks d)\<rparr>))" for ty p P st
    by (rule traced_trans [OF _ traced_operational_audit]) (auto intro!: traced_same simp: map_update_same)
  from traced_trans [OF this Cons.IH] show ?case using Cons.IH by simp
qed simp

lemma traced_cancel_account_outreach: "traced c d (snd (cancel_account_outreach E (\<lambda>x. x) x reason c d))"
  using traced_cancel_still_scheduled
  by (auto simp: cancel_account_outreach_def cancel_scheduled_account_outreach_def Let_def
      split: option.split prod.split) (metis snd_conv)

lemma traced_write_delivery_result:
  "traced (task_correlation_id t) d (write_delivery_result E t st m details d)"
  unfolding write_delivery_result_def
  by (rule traced_trans [OF _ traced_operational_audit]) (auto intro!: traced_same simp: map_update_same)

end
