(* ===== verification/Migrations.thy ===== *)
theory Migrations
  imports Models
begin

text \<open>
  \<open>alembic/versions/\<close> and \<open>alembic/env.py\<close>: the three revisions of the schema as lists of
  operations on a database of tables with columns, constraints, indexes and rows, and
  their run in one transaction.  The operations do what PostgreSQL documents for the
  statements they issue: an unnamed unique constraint gets the name
  \<open>table_column_key\<close>, a table that another one refers to cannot be dropped, a new
  \<open>NOT NULL\<close> column without a default is refused when the table has rows, and a column
  takes its constraints and indexes along when it is dropped.  \<open>json_text\<close> is the text
  the database shows for a JSON value that is not a string.
\<close>

section \<open>Schemas and rows\<close>

datatype column_type =
    Uuid
  | String nat
  | Enum "string list"
  | Boolean
  | Integer
  | Json
  | DateTime

record column =
  col_name :: string
  col_type :: column_type
  col_nullable :: bool
  col_server_default :: "string option"

datatype table_constraint =
    PrimaryKey "string list"
  | Unique string "string list"
  | ForeignKey "string list" string "string list"

datatype sql_value = SqlNull | SqlText string | SqlJson json | SqlNumber int

type_synonym row = "string \<Rightarrow> sql_value"

record table =
  tab_name :: string
  tab_columns :: "column list"
  tab_constraints :: "table_constraint list"
  tab_indexes :: "(string \<times> string list) list"
  tab_rows :: "row list"

datatype sql_error =
    DuplicateTable string
  | UndefinedTable string
  | DuplicateColumn string
  | UndefinedColumn string
  | DuplicateObject string
  | UndefinedObject string
  | DependentObjects string
  | NotNullViolation string
  | UniqueViolation string
  | StringTooLong string

type_synonym sql_result = "sql_error + table list"

section \<open>Operations\<close>

definition with_table :: "string \<Rightarrow> (table \<Rightarrow> sql_error + table) \<Rightarrow> table list \<Rightarrow> sql_result" where
  "with_table name f d =
     (case find (\<lambda>t. tab_name t = name) d of
        None \<Rightarrow> Inl (UndefinedTable name)
      | Some t \<Rightarrow> map_sum id (\<lambda>t'. update_where (\<lambda>t. tab_name t = name) (\<lambda>_. t') d) (f t))"

fun refers_to :: "string \<Rightarrow> table_constraint \<Rightarrow> bool" where
  "refers_to name (ForeignKey cols target target_cols) \<longleftrightarrow> target = name"
| "refers_to name _ \<longleftrightarrow> False"

fun constraint_columns :: "table_constraint \<Rightarrow> string list" where
  "constraint_columns (PrimaryKey cols) = cols"
| "constraint_columns (Unique name cols) = cols"
| "constraint_columns (ForeignKey cols target target_cols) = cols"

definition create_table :: "string \<Rightarrow> column list \<Rightarrow> table_constraint list \<Rightarrow> table list \<Rightarrow> sql_result" where
  "create_table name columns constraints d =
     (if find (\<lambda>t. tab_name t = name) d \<noteq> None then Inl (DuplicateTable name)
      else case find (\<lambda>c. case c of ForeignKey cols target target_cols \<Rightarrow>
                 find (\<lambda>t. tab_name t = target) d = None | _ \<Rightarrow> False) constraints of
        Some (ForeignKey cols target target_cols) \<Rightarrow> Inl (UndefinedTable target)
      | _ \<Rightarrow> Inr (d @ [\<lparr>tab_name = name, tab_columns = columns, tab_constraints = constraints,
               tab_indexes = [], tab_rows = []\<rparr>]))"

definition drop_table :: "string \<Rightarrow> table list \<Rightarrow> sql_result" where
  "drop_table name d =
     (if find (\<lambda>t. tab_name t = name) d = None then Inl (UndefinedTable name)
      else if find (\<lambda>t. tab_name t \<noteq> name \<and> find (refers_to name) (tab_constraints t) \<noteq> None) d \<noteq> None
      then Inl (DependentObjects name)
      else Inr (filter (\<lambda>t. tab_name t \<noteq> name) d))"

definition create_index :: "string \<Rightarrow> string \<Rightarrow> string list \<Rightarrow> table list \<Rightarrow> sql_result" where
  "create_index name table columns d =
     (if find (\<lambda>t. name \<in> set (map fst (tab_indexes t))) d \<noteq> None then Inl (DuplicateObject name)
      else with_table table (\<lambda>t. Inr (t\<lparr>tab_indexes := tab_indexes t @ [(name, columns)]\<rparr>)) d)"

definition drop_index :: "string \<Rightarrow> table list \<Rightarrow> sql_result" where
  "drop_index name d =
     (if find (\<lambda>t. name \<in> set (map fst (tab_indexes t))) d = None then Inl (UndefinedObject name)
      else Inr (map (\<lambda>t. t\<lparr>tab_indexes := filter (\<lambda>i. fst i \<noteq> name) (tab_indexes t)\<rparr>) d))"

text \<open>The value a new column has in the rows that are already there.\<close>

definition default_value :: "column \<Rightarrow> sql_value" where
  "default_value c = (case col_server_default c of None \<Rightarrow> SqlNull | Some s \<Rightarrow> SqlText s)"

definition add_column :: "string \<Rightarrow> column \<Rightarrow> table list \<Rightarrow> sql_result" where
  "add_column table c =
     with_table table (\<lambda>t.
       if find (\<lambda>c'. col_name c' = col_name c) (tab_columns t) \<noteq> None then Inl (DuplicateColumn (col_name c))
       else if tab_rows t \<noteq> [] \<and> \<not> col_nullable c \<and> col_server_default c = None
       then Inl (NotNullViolation (col_name c))
       else Inr (t\<lparr>tab_columns := tab_columns t @ [c],
              tab_rows := map (\<lambda>r. r(col_name c := default_value c)) (tab_rows t)\<rparr>))"

definition drop_column :: "string \<Rightarrow> string \<Rightarrow> table list \<Rightarrow> sql_result" where
  "drop_column table name =
     with_table table (\<lambda>t.
       if find (\<lambda>c. col_name c = name) (tab_columns t) = None then Inl (UndefinedColumn name)
       else Inr (t\<lparr>tab_columns := filter (\<lambda>c. col_name c \<noteq> name) (tab_columns t),
              tab_constraints := filter (\<lambda>k. name \<notin> set (constraint_columns k)) (tab_constraints t),
              tab_indexes := filter (\<lambda>i. name \<notin> set (snd i)) (tab_indexes t),
              tab_rows := map (\<lambda>r. r(name := SqlNull)) (tab_rows t)\<rparr>))"

definition drop_server_default :: "string \<Rightarrow> string \<Rightarrow> table list \<Rightarrow> sql_result" where
  "drop_server_default table name =
     with_table table (\<lambda>t.
       if find (\<lambda>c. col_name c = name) (tab_columns t) = None then Inl (UndefinedColumn name)
       else Inr (t\<lparr>tab_columns := update_where (\<lambda>c. col_name c = name)
              (\<lambda>c. c\<lparr>col_server_default := None\<rparr>) (tab_columns t)\<rparr>))"

fun is_unique_named :: "string \<Rightarrow> table_constraint \<Rightarrow> bool" where
  "is_unique_named name (Unique n cols) \<longleftrightarrow> n = name"
| "is_unique_named name _ \<longleftrightarrow> False"

definition drop_constraint :: "string \<Rightarrow> string \<Rightarrow> table list \<Rightarrow> sql_result" where
  "drop_constraint name table =
     with_table table (\<lambda>t.
       if find (is_unique_named name) (tab_constraints t) = None then Inl (UndefinedObject name)
       else Inr (t\<lparr>tab_constraints := filter (\<lambda>k. \<not> is_unique_named name k) (tab_constraints t)\<rparr>))"

text \<open>Rows with a null in one of the columns never conflict.\<close>

definition no_duplicates :: "string list \<Rightarrow> row list \<Rightarrow> bool" where
  "no_duplicates columns rows \<longleftrightarrow> distinct (filter (\<lambda>vs. SqlNull \<notin> set vs) (map (\<lambda>r. map r columns) rows))"

definition create_unique_constraint :: "string \<Rightarrow> string \<Rightarrow> string list \<Rightarrow> table list \<Rightarrow> sql_result" where
  "create_unique_constraint name table columns =
     with_table table (\<lambda>t.
       if find (is_unique_named name) (tab_constraints t) \<noteq> None then Inl (DuplicateObject name)
       else if \<not> no_duplicates columns (tab_rows t) then Inl (UniqueViolation name)
       else Inr (t\<lparr>tab_constraints := tab_constraints t @ [Unique name columns]\<rparr>))"

fun run_operations :: "(table list \<Rightarrow> sql_result) list \<Rightarrow> table list \<Rightarrow> sql_result" where
  "run_operations [] d = Inr d"
| "run_operations (f # fs) d = (case f d of Inl e \<Rightarrow> Inl e | Inr d' \<Rightarrow> run_operations fs d')"

section \<open>Columns as the revisions write them\<close>

definition required :: "string \<Rightarrow> column_type \<Rightarrow> column" where
  "required name ty = \<lparr>col_name = name, col_type = ty, col_nullable = False, col_server_default = None\<rparr>"

definition optional :: "string \<Rightarrow> column_type \<Rightarrow> column" where
  "optional name ty = \<lparr>col_name = name, col_type = ty, col_nullable = True, col_server_default = None\<rparr>"

definition stamped :: "string \<Rightarrow> column" where
  "stamped name = \<lparr>col_name = name, col_type = DateTime, col_nullable = False,
     col_server_default = Some ''now()''\<rparr>"

text \<open>A unique constraint on one column that is given no name.\<close>

definition unnamed_unique :: "string \<Rightarrow> string \<Rightarrow> table_constraint" where
  "unnamed_unique table column = Unique (table @ ''_'' @ column @ ''_key'') [column]"

definition references :: "string \<Rightarrow> string \<Rightarrow> table_constraint" where
  "references column table = ForeignKey [column] table [''id'']"

end
