(* ===== verification/Revisions.thy ===== *)
theory Revisions
  imports Migrations
begin

text \<open>
  The three revisions in the order of their \<open>down_revision\<close>, and the tables that
  \<open>models.py\<close> declares.
\<close>

section \<open>be0bd9c687b8: core tables\<close>

definition core_audit_events :: "table list \<Rightarrow> sql_result" where
  "core_audit_events = create_table ''audit_events''
     [required ''id'' Uuid, required ''entity_type'' (String 255), required ''entity_id'' (String 255),
      required ''event_type'' (String 255),
      required ''actor_type'' (Enum [''system'', ''api_client'', ''worker'', ''policy_engine'']),
      optional ''actor_id'' (String 255), required ''correlation_id'' Uuid, required ''payload'' Json,
      stamped ''created_at'']
     [PrimaryKey [''id'']]"

definition core_customers :: "table list \<Rightarrow> sql_result" where
  "core_customers = create_table ''customers''
     [required ''id'' Uuid, required ''external_id'' (String 255), required ''full_name'' (String 255),
      required ''timezone'' (String 64), optional ''phone_number'' (String 64), optional ''email'' (String 255),
      required ''sms_consent'' Boolean, required ''call_consent'' Boolean, required ''email_consent'' Boolean,
      required ''opted_out'' Boolean, stamped ''created_at'', stamped ''updated_at'']
     [PrimaryKey [''id''], unnamed_unique ''customers'' ''external_id'']"

definition core_inbound_events :: "table list \<Rightarrow> sql_result" where
  "core_inbound_events = create_table ''inbound_events''
     [required ''id'' Uuid, required ''external_id'' (String 255), required ''event_type'' (String 255),
      required ''customer_external_id'' (String 255), required ''account_external_id'' (String 255),
      required ''payload'' Json, stamped ''received_at'', required ''idempotency_key'' (String 255),
      required ''processing_status'' (Enum [''received'', ''processed'', ''failed''])]
     [PrimaryKey [''id''], unnamed_unique ''inbound_events'' ''external_id'',
      unnamed_unique ''inbound_events'' ''idempotency_key'']"

definition core_accounts :: "table list \<Rightarrow> sql_result" where
  "core_accounts = create_table ''accounts''
     [required ''id'' Uuid, required ''external_id'' (String 255), required ''customer_id'' Uuid,
      required ''status'' (Enum [''current'', ''delinquent'', ''resolved'', ''paused'']),
      required ''balance_cents'' Integer, required ''days_past_due'' Integer,
      stamped ''created_at'', stamped ''updated_at'']
     [references ''customer_id'' ''customers'', PrimaryKey [''id''], unnamed_unique ''accounts'' ''external_id'']"

definition core_policy_decisions :: "table list \<Rightarrow> sql_result" where
  "core_policy_decisions = create_table ''policy_decisions''
     [required ''id'' Uuid, required ''account_id'' Uuid, required ''customer_id'' Uuid,
      optional ''inbound_event_id'' Uuid, required ''decision'' (Enum [''allow'', ''block'', ''defer'']),
      optional ''channel'' (Enum [''call'', ''sms'', ''email'']), required ''reasons'' Json,
      stamped ''evaluated_at'']
     [references ''account_id'' ''accounts'', references ''customer_id'' ''customers'',
      references ''inbound_event_id'' ''inbound_events'', PrimaryKey [''id'']]"

definition core_outreach_tasks :: "table list \<Rightarrow> sql_result" where
  "core_outreach_tasks = create_table ''outreach_tasks''
     [required ''id'' Uuid, required ''account_id'' Uuid, required ''customer_id'' Uuid,
      required ''channel'' (Enum [''call'', ''sms'', ''email'']),
      required ''status'' (Enum [''scheduled'', ''blocked'', ''dispatching'', ''sent'', ''failed'', ''cancelled'']),
      required ''scheduled_at'' DateTime, required ''attempt_count'' Integer, required ''max_attempts'' Integer,
      required ''idempotency_key'' (String 255), optional ''policy_decision_id'' Uuid,
      optional ''last_error'' (String 1000), stamped ''created_at'', stamped ''updated_at'']
     [references ''account_id'' ''accounts'', references ''customer_id'' ''customers'',
      references ''policy_decision_id'' ''policy_decisions'', PrimaryKey [''id''],
      unnamed_unique ''outreach_tasks'' ''idempotency_key'']"

definition upgrade_core :: "table list \<Rightarrow> sql_result" where
  "upgrade_core = run_operations
     [core_audit_events,
      create_index ''ix_audit_events_correlation_id'' ''audit_events'' [''correlation_id''],
      create_index ''ix_audit_events_entity_type_entity_id'' ''audit_events'' [''entity_type'', ''entity_id''],
      core_customers, core_inbound_events, core_accounts, core_policy_decisions, core_outreach_tasks,
      create_index ''ix_outreach_tasks_customer_id_created_at'' ''outreach_tasks'' [''customer_id'', ''created_at''],
      create_index ''ix_outreach_tasks_status_scheduled_at'' ''outreach_tasks'' [''status'', ''scheduled_at'']]"

definition downgrade_core :: "table list \<Rightarrow> sql_result" where
  "downgrade_core = run_operations
     [drop_index ''ix_outreach_tasks_status_scheduled_at'',
      drop_index ''ix_outreach_tasks_customer_id_created_at'',
      drop_table ''outreach_tasks'', drop_table ''policy_decisions'', drop_table ''accounts'',
      drop_table ''inbound_events'', drop_table ''customers'',
      drop_index ''ix_audit_events_entity_type_entity_id'', drop_index ''ix_audit_events_correlation_id'',
      drop_table ''audit_events'']"

section \<open>6d9d6c4f1f1a: the source of an event\<close>

text \<open>\<open>payload ->> 'source'\<close>, then \<open>NULLIF\<close> and \<open>COALESCE\<close>.\<close>

definition json_field :: "(json \<Rightarrow> string) \<Rightarrow> sql_value \<Rightarrow> string \<Rightarrow> string option" where
  "json_field json_text v key =
     (case v of
        SqlJson (JObj members) \<Rightarrow>
          (case map_of members key of
             None \<Rightarrow> None
           | Some JNull \<Rightarrow> None
           | Some (JStr s) \<Rightarrow> Some s
           | Some j \<Rightarrow> Some (json_text j))
      | _ \<Rightarrow> None)"

definition source_of_payload :: "(json \<Rightarrow> string) \<Rightarrow> sql_value \<Rightarrow> string" where
  "source_of_payload json_text v =
     (case json_field json_text v ''source'' of
        None \<Rightarrow> ''unknown''
      | Some s \<Rightarrow> if s = [] then ''unknown'' else s)"

definition update_source :: "(json \<Rightarrow> string) \<Rightarrow> table list \<Rightarrow> sql_result" where
  "update_source json_text =
     with_table ''inbound_events'' (\<lambda>t.
       case find (\<lambda>r. \<not> varchar 255 (source_of_payload json_text (r ''payload''))) (tab_rows t) of
         Some r \<Rightarrow> Inl (StringTooLong ''source'')
       | None \<Rightarrow> Inr (t\<lparr>tab_rows := map (\<lambda>r. r(''source'' :=
             SqlText (source_of_payload json_text (r ''payload'')))) (tab_rows t)\<rparr>))"

definition upgrade_source :: "(json \<Rightarrow> string) \<Rightarrow> table list \<Rightarrow> sql_result" where
  "upgrade_source json_text = run_operations
     [add_column ''inbound_events'' \<lparr>col_name = ''source'', col_type = String 255, col_nullable = False,
        col_server_default = Some ''unknown''\<rparr>,
      update_source json_text,
      drop_server_default ''inbound_events'' ''source'',
      drop_constraint ''inbound_events_external_id_key'' ''inbound_events'',
      create_unique_constraint ''uq_inbound_events_source_external_id'' ''inbound_events''
        [''source'', ''external_id'']]"

definition downgrade_source :: "table list \<Rightarrow> sql_result" where
  "downgrade_source = run_operations
     [drop_constraint ''uq_inbound_events_source_external_id'' ''inbound_events'',
      create_unique_constraint ''inbound_events_external_id_key'' ''inbound_events'' [''external_id''],
      drop_column ''inbound_events'' ''source'']"

section \<open>53d8b15e9a4c: the correlation identifier of a task\<close>

definition upgrade_correlation :: "table list \<Rightarrow> sql_result" where
  "upgrade_correlation = run_operations [add_column ''outreach_tasks'' (required ''correlation_id'' Uuid)]"

definition downgrade_correlation :: "table list \<Rightarrow> sql_result" where
  "downgrade_correlation = run_operations [drop_column ''outreach_tasks'' ''correlation_id'']"

section \<open>The run\<close>

record revision =
  rev_id :: string
  rev_down :: "string option"
  rev_upgrade :: "table list \<Rightarrow> sql_result"
  rev_downgrade :: "table list \<Rightarrow> sql_result"

definition core_revision :: revision where
  "core_revision = \<lparr>rev_id = ''be0bd9c687b8'', rev_down = None,
     rev_upgrade = upgrade_core, rev_downgrade = downgrade_core\<rparr>"

definition source_revision :: "(json \<Rightarrow> string) \<Rightarrow> revision" where
  "source_revision json_text = \<lparr>rev_id = ''6d9d6c4f1f1a'', rev_down = Some ''be0bd9c687b8'',
     rev_upgrade = upgrade_source json_text, rev_downgrade = downgrade_source\<rparr>"

definition correlation_revision :: revision where
  "correlation_revision = \<lparr>rev_id = ''53d8b15e9a4c'', rev_down = Some ''6d9d6c4f1f1a'',
     rev_upgrade = upgrade_correlation, rev_downgrade = downgrade_correlation\<rparr>"

definition revisions :: "(json \<Rightarrow> string) \<Rightarrow> revision list" where
  "revisions json_text = [core_revision, source_revision json_text, correlation_revision]"

text \<open>All steps run in one transaction: a step that fails leaves the database as it was.\<close>

definition do_run_migrations :: "(table list \<Rightarrow> sql_result) list \<Rightarrow> table list \<Rightarrow> sql_error option \<times> table list" where
  "do_run_migrations steps d =
     (case run_operations steps d of Inl e \<Rightarrow> (Some e, d) | Inr d' \<Rightarrow> (None, d'))"

section \<open>The tables of the models\<close>

definition models_tables :: "table list" where
  "models_tables =
     [\<lparr>tab_name = ''customers'',
        tab_columns = [required ''id'' Uuid, required ''external_id'' (String 255),
          required ''full_name'' (String 255), required ''timezone'' (String 64),
          optional ''phone_number'' (String 64), optional ''email'' (String 255),
          required ''sms_consent'' Boolean, required ''call_consent'' Boolean,
          required ''email_consent'' Boolean, required ''opted_out'' Boolean,
          stamped ''created_at'', stamped ''updated_at''],
        tab_constraints = [PrimaryKey [''id''], unnamed_unique ''customers'' ''external_id''],
        tab_indexes = [], tab_rows = []\<rparr>,
      \<lparr>tab_name = ''accounts'',
        tab_columns = [required ''id'' Uuid, required ''external_id'' (String 255), required ''customer_id'' Uuid,
          required ''status'' (Enum (map account_status_value [CURRENT, DELINQUENT, RESOLVED, PAUSED])),
          required ''balance_cents'' Integer, required ''days_past_due'' Integer,
          stamped ''created_at'', stamped ''updated_at''],
        tab_constraints = [PrimaryKey [''id''], unnamed_unique ''accounts'' ''external_id'',
          references ''customer_id'' ''customers''],
        tab_indexes = [], tab_rows = []\<rparr>,
      \<lparr>tab_name = ''inbound_events'',
        tab_columns = [required ''id'' Uuid, required ''source'' (String 255), required ''external_id'' (String 255),
          required ''event_type'' (String 255), required ''customer_external_id'' (String 255),
          required ''account_external_id'' (String 255), required ''payload'' Json, stamped ''received_at'',
          required ''idempotency_key'' (String 255),
          required ''processing_status'' (Enum [''received'', ''processed'', ''failed''])],
        tab_constraints = [PrimaryKey [''id''], unnamed_unique ''inbound_events'' ''idempotency_key'',
          Unique ''uq_inbound_events_source_external_id'' [''source'', ''external_id'']],
        tab_indexes = [], tab_rows = []\<rparr>,
      \<lparr>tab_name = ''policy_decisions'',
        tab_columns = [required ''id'' Uuid, required ''account_id'' Uuid, required ''customer_id'' Uuid,
          optional ''inbound_event_id'' Uuid, required ''decision'' (Enum (map outcome_value [ALLOW, BLOCK, DEFER])),
          optional ''channel'' (Enum (map channel_value [CALL, SMS, EMAIL])), required ''reasons'' Json,
          stamped ''evaluated_at''],
        tab_constraints = [PrimaryKey [''id''], references ''account_id'' ''accounts'',
          references ''customer_id'' ''customers'', references ''inbound_event_id'' ''inbound_events''],
        tab_indexes = [], tab_rows = []\<rparr>,
      \<lparr>tab_name = ''outreach_tasks'',
        tab_columns = [required ''id'' Uuid, required ''account_id'' Uuid, required ''customer_id'' Uuid,
          required ''channel'' (Enum (map channel_value [CALL, SMS, EMAIL])), required ''correlation_id'' Uuid,
          required ''status'' (Enum (map task_status_value
            [SCHEDULED, BLOCKED, DISPATCHING, SENT, FAILED, CANCELLED])),
          required ''scheduled_at'' DateTime, required ''attempt_count'' Integer, required ''max_attempts'' Integer,
          required ''idempotency_key'' (String 255), optional ''policy_decision_id'' Uuid,
          optional ''last_error'' (String 1000), stamped ''created_at'', stamped ''updated_at''],
        tab_constraints = [PrimaryKey [''id''], unnamed_unique ''outreach_tasks'' ''idempotency_key'',
          references ''account_id'' ''accounts'', references ''customer_id'' ''customers'',
          references ''policy_decision_id'' ''policy_decisions''],
        tab_indexes = [(''ix_outreach_tasks_status_scheduled_at'', [''status'', ''scheduled_at'']),
          (''ix_outreach_tasks_customer_id_created_at'', [''customer_id'', ''created_at''])],
        tab_rows = []\<rparr>,
      \<lparr>tab_name = ''audit_events'',
        tab_columns = [required ''id'' Uuid, required ''entity_type'' (String 255),
          required ''entity_id'' (String 255), required ''event_type'' (String 255),
          required ''actor_type'' (Enum [''system'', ''api_client'', ''worker'', ''policy_engine'']),
          optional ''actor_id'' (String 255), required ''correlation_id'' Uuid, required ''payload'' Json,
          stamped ''created_at''],
        tab_constraints = [PrimaryKey [''id'']],
        tab_indexes = [(''ix_audit_events_correlation_id'', [''correlation_id'']),
          (''ix_audit_events_entity_type_entity_id'', [''entity_type'', ''entity_id''])],
        tab_rows = []\<rparr>]"

end
