(* ===== verification/Migration_Properties.thy ===== *)
theory Migration_Properties
  imports Revisions
begin

text \<open>
  What the migrations promise: on an empty database they build the tables the models
  declare and can be undone; on a database with rows the second revision gives every
  event its source, and the third one fails as soon as there is a task.
\<close>

section \<open>Schemas up to order\<close>

definition same_table :: "table \<Rightarrow> table \<Rightarrow> bool" where
  "same_table a b \<longleftrightarrow> tab_name a = tab_name b
     \<and> set (tab_columns a) = set (tab_columns b) \<and> length (tab_columns a) = length (tab_columns b)
     \<and> set (tab_constraints a) = set (tab_constraints b)
     \<and> length (tab_constraints a) = length (tab_constraints b)
     \<and> set (tab_indexes a) = set (tab_indexes b) \<and> length (tab_indexes a) = length (tab_indexes b)"

definition same_schema :: "table list \<Rightarrow> table list \<Rightarrow> bool" where
  "same_schema d d' \<longleftrightarrow> length d = length d' \<and> distinct (map tab_name d)
     \<and> (\<forall>t\<in>set d. case find (\<lambda>t'. tab_name t' = tab_name t) d' of None \<Rightarrow> False | Some t' \<Rightarrow> same_table t t')"

lemma upgrade_head:
  "case run_operations (map rev_upgrade (revisions json_text)) [] of Inl e \<Rightarrow> False
     | Inr d \<Rightarrow> same_schema d models_tables
        \<and> (case run_operations (map rev_downgrade (rev (revisions json_text))) d of Inl e \<Rightarrow> False
           | Inr d' \<Rightarrow> length d' = 0)"
  by code_simp

text \<open>C33. The migrations and the models agree: on an empty database the revisions, in the
  order their links give, build exactly the tables \<open>models.py\<close> declares, with the same
  columns, types, defaults, constraints and indexes, and running them backwards
  removes everything again.\<close>

theorem migrations_build_models:
  "\<exists>d. do_run_migrations (map rev_upgrade (revisions json_text)) [] = (None, d)
     \<and> same_schema d models_tables
     \<and> do_run_migrations (map rev_downgrade (rev (revisions json_text))) d = (None, [])
     \<and> map rev_down (revisions json_text) = None # map (\<lambda>r. Some (rev_id r)) (butlast (revisions json_text))"
  using upgrade_head [of json_text]
  by (auto simp: do_run_migrations_def revisions_def core_revision_def source_revision_def
      correlation_revision_def split: sum.splits)

section \<open>Databases with rows\<close>

text \<open>The tables after the first and after the second revision, and the same with rows.\<close>

definition core_tables :: "table list" where
  "core_tables = (case upgrade_core [] of Inl e \<Rightarrow> [] | Inr d \<Rightarrow> d)"

definition source_tables :: "table list" where
  "source_tables = (case upgrade_source (\<lambda>_. []) core_tables of Inl e \<Rightarrow> [] | Inr d \<Rightarrow> d)"

definition populate :: "(string \<Rightarrow> row list) \<Rightarrow> table list \<Rightarrow> table list" where
  "populate rows d = map (\<lambda>t. t\<lparr>tab_rows := rows (tab_name t)\<rparr>) d"

lemma core_tables_facts:
  "case upgrade_core [] of Inl e \<Rightarrow> False | Inr d \<Rightarrow> map tab_name d =
       [''audit_events'', ''customers'', ''inbound_events'', ''accounts'', ''policy_decisions'', ''outreach_tasks'']
     \<and> (case find (\<lambda>t. tab_name t = ''inbound_events'') d of None \<Rightarrow> False | Some t \<Rightarrow>
          map col_name (tab_columns t) = [''id'', ''external_id'', ''event_type'', ''customer_external_id'',
            ''account_external_id'', ''payload'', ''received_at'', ''idempotency_key'', ''processing_status'']
          \<and> tab_constraints t = [PrimaryKey [''id''], Unique ''inbound_events_external_id_key'' [''external_id''],
              Unique ''inbound_events_idempotency_key_key'' [''idempotency_key'']]
          \<and> tab_indexes t = [])"
  by code_simp

lemma source_tables_facts:
  "case upgrade_source (\<lambda>_. []) core_tables of Inl e \<Rightarrow> False | Inr d \<Rightarrow>
     (case find (\<lambda>t. tab_name t = ''inbound_events'') d of None \<Rightarrow> False | Some t \<Rightarrow>
          map col_name (tab_columns t) = [''id'', ''external_id'', ''event_type'', ''customer_external_id'',
            ''account_external_id'', ''payload'', ''received_at'', ''idempotency_key'', ''processing_status'', ''source'']
          \<and> tab_constraints t = [PrimaryKey [''id''],
              Unique ''inbound_events_idempotency_key_key'' [''idempotency_key''],
              Unique ''uq_inbound_events_source_external_id'' [''source'', ''external_id'']]
          \<and> tab_indexes t = [])"
  unfolding core_tables_def by code_simp

lemma outreach_tasks_facts:
  "case find (\<lambda>t. tab_name t = ''outreach_tasks'') source_tables of None \<Rightarrow> False | Some t \<Rightarrow>
     ''correlation_id'' \<notin> set (map col_name (tab_columns t))"
  unfolding source_tables_def core_tables_def by code_simp

lemma find_populate:
  "find (\<lambda>t. tab_name t = n) (populate rows d) =
     map_option (\<lambda>t. t\<lparr>tab_rows := rows (tab_name t)\<rparr>) (find (\<lambda>t. tab_name t = n) d)"
  by (induction d) (simp_all add: populate_def)

lemma core_events_table:
  obtains t where "find (\<lambda>t. tab_name t = ''inbound_events'') (populate rows core_tables) = Some t"
    and "tab_name t = ''inbound_events''" and "''source'' \<notin> set (map col_name (tab_columns t))"
    and "tab_constraints t = [PrimaryKey [''id''], Unique ''inbound_events_external_id_key'' [''external_id''],
      Unique ''inbound_events_idempotency_key_key'' [''idempotency_key'']]"
    and "tab_rows t = rows ''inbound_events''"
proof -
  obtain d where d: "upgrade_core [] = Inr d" using core_tables_facts by (auto split: sum.splits)
  then obtain t where "find (\<lambda>t. tab_name t = ''inbound_events'') core_tables = Some t"
      "''source'' \<notin> set (map col_name (tab_columns t))"
      "tab_constraints t = [PrimaryKey [''id''], Unique ''inbound_events_external_id_key'' [''external_id''],
        Unique ''inbound_events_idempotency_key_key'' [''idempotency_key'']]"
    using core_tables_facts by (auto simp: core_tables_def split: option.splits)
  moreover from this(1) have "tab_name t = ''inbound_events''" by (auto dest: find_Some_in)
  ultimately show thesis
    by (intro that [of "t\<lparr>tab_rows := rows ''inbound_events''\<rparr>"]) (simp_all add: find_populate)
qed

lemma source_events_table:
  obtains t where "find (\<lambda>t. tab_name t = ''inbound_events'') (populate rows source_tables) = Some t"
    and "tab_name t = ''inbound_events''" and "''source'' \<in> set (map col_name (tab_columns t))"
    and "tab_constraints t = [PrimaryKey [''id''],
      Unique ''inbound_events_idempotency_key_key'' [''idempotency_key''],
      Unique ''uq_inbound_events_source_external_id'' [''source'', ''external_id'']]"
    and "tab_rows t = rows ''inbound_events''"
proof -
  obtain d where d: "upgrade_source (\<lambda>_. []) core_tables = Inr d"
    using source_tables_facts by (auto split: sum.splits)
  then obtain t where "find (\<lambda>t. tab_name t = ''inbound_events'') source_tables = Some t"
      "''source'' \<in> set (map col_name (tab_columns t))"
      "tab_constraints t = [PrimaryKey [''id''],
        Unique ''inbound_events_idempotency_key_key'' [''idempotency_key''],
        Unique ''uq_inbound_events_source_external_id'' [''source'', ''external_id'']]"
    using source_tables_facts by (auto simp: source_tables_def split: option.splits)
  moreover from this(1) have "tab_name t = ''inbound_events''" by (auto dest: find_Some_in)
  ultimately show thesis
    by (intro that [of "t\<lparr>tab_rows := rows ''inbound_events''\<rparr>"]) (simp_all add: find_populate)
qed

text \<open>Operations on one table, one after the other.\<close>

lemma with_table_found:
  "find (\<lambda>t. tab_name t = n) d = Some t \<Longrightarrow>
     with_table n f d = map_sum id (\<lambda>t'. update_where (\<lambda>t. tab_name t = n) (\<lambda>_. t') d) (f t)"
  by (simp add: with_table_def)

lemma with_table_again:
  assumes "find (\<lambda>t. tab_name t = n) d = Some t" and "tab_name t' = n"
  shows "with_table n f (update_where (\<lambda>t. tab_name t = n) (\<lambda>_. t') d) =
    map_sum id (\<lambda>t''. update_where (\<lambda>t. tab_name t = n) (\<lambda>_. t'') d) (f t')"
proof -
  have "find (\<lambda>t. tab_name t = n) (update_where (\<lambda>t. tab_name t = n) (\<lambda>_. t') d) = Some t'"
    using assms by (induction d) auto
  moreover have "update_where (\<lambda>t. tab_name t = n) (\<lambda>_. t'') (update_where (\<lambda>t. tab_name t = n) (\<lambda>_. t') d)
      = update_where (\<lambda>t. tab_name t = n) (\<lambda>_. t'') d" for t''
    using assms(2) by (induction d) auto
  ultimately show ?thesis by (simp add: with_table_found)
qed

definition with_source :: "(json \<Rightarrow> string) \<Rightarrow> row \<Rightarrow> row" where
  "with_source json_text r = r(''source'' := SqlText (source_of_payload json_text (r ''payload'')))"

lemma sources_no_duplicates:
  assumes "distinct (map (\<lambda>r. r ''external_id'') rs)"
  shows "no_duplicates [''source'', ''external_id''] (map (with_source f) rs)"
proof -
  have "distinct (map (\<lambda>r. map r [''source'', ''external_id'']) (map (with_source f) rs))"
    using assms by (induction rs) (auto simp: with_source_def)
  then show ?thesis unfolding no_duplicates_def by (rule distinct_filter)
qed

lemma find_unnamed: "x \<notin> set (map col_name cs) \<Longrightarrow> find (\<lambda>c. col_name c = x) cs = None"
  by (induction cs) auto

lemma find_named: "x \<in> set (map col_name cs) \<Longrightarrow> find (\<lambda>c. col_name c = x) cs \<noteq> None"
  by (induction cs) auto

lemma upgrade_source_run:
  assumes "find (\<lambda>t. tab_name t = ''inbound_events'') d = Some t" and "tab_name t = ''inbound_events''"
    and "''source'' \<notin> set (map col_name (tab_columns t))"
    and "tab_constraints t = [PrimaryKey [''id''], Unique ''inbound_events_external_id_key'' [''external_id''],
      Unique ''inbound_events_idempotency_key_key'' [''idempotency_key'']]"
    and "distinct (map (\<lambda>r. r ''external_id'') (tab_rows t))"
    and "\<forall>r\<in>set (tab_rows t). varchar 255 (source_of_payload f (r ''payload''))"
  shows "\<exists>t'. upgrade_source f d = Inr (update_where (\<lambda>t. tab_name t = ''inbound_events'') (\<lambda>_. t') d)
    \<and> tab_name t' = ''inbound_events'' \<and> tab_rows t' = map (with_source f) (tab_rows t)"
proof -
  let ?sourced = "map (\<lambda>r. r(''source'' := SqlText (source_of_payload f (r ''payload''))))
    (map (\<lambda>r. r(''source'' := SqlText ''unknown'')) (tab_rows t))"
  have rows: "?sourced = map (with_source f) (tab_rows t)"
    by (simp add: with_source_def fun_eq_iff)
  have fits: "find (\<lambda>r. \<not> varchar 255 (source_of_payload f (r ''payload'')))
      (map (\<lambda>r. r(''source'' := SqlText ''unknown'')) (tab_rows t)) = None"
    using assms(6) by (simp add: find_None_iff)
  show ?thesis
    using assms(2,4) sources_no_duplicates [OF assms(5), of f]
    unfolding rows [symmetric] upgrade_source_def add_column_def update_source_def drop_server_default_def
      drop_constraint_def create_unique_constraint_def
    by (simp add: with_table_found [OF assms(1)] with_table_again [OF assms(1)] find_unnamed [OF assms(3)]
        find_append_rows default_value_def fits)
      (intro exI conjI, rule refl, simp_all)
qed

lemma downgrade_source_run:
  assumes "find (\<lambda>t. tab_name t = ''inbound_events'') d = Some t" and "tab_name t = ''inbound_events''"
    and "''source'' \<in> set (map col_name (tab_columns t))"
    and "tab_constraints t = [PrimaryKey [''id''], Unique ''inbound_events_idempotency_key_key'' [''idempotency_key''],
      Unique ''uq_inbound_events_source_external_id'' [''source'', ''external_id'']]"
  shows "(\<exists>d'. downgrade_source d = Inr d') \<longleftrightarrow> no_duplicates [''external_id''] (tab_rows t)"
    and "no_duplicates [''external_id''] (tab_rows t) \<or>
      downgrade_source d = Inl (UniqueViolation ''inbound_events_external_id_key'')"
  using assms(2,4) find_named [OF assms(3)]
  unfolding downgrade_source_def drop_constraint_def create_unique_constraint_def drop_column_def
  by (auto simp: with_table_found [OF assms(1)] with_table_again [OF assms(1)])

text \<open>C34. The second revision loses no event: on any database of the first revision whose
  sources fit their column it succeeds, every event keeps its values and gets the
  source its payload names, or \<open>unknown\<close>, and no other table changes.  It can be undone
  exactly as long as no two events share an external id.\<close>

theorem source_migration_keeps_events:
  assumes "distinct (map (\<lambda>r. r ''external_id'') (rows ''inbound_events''))"
    and "\<forall>r\<in>set (rows ''inbound_events''). varchar 255 (source_of_payload json_text (r ''payload''))"
  shows "(\<exists>d. upgrade_source json_text (populate rows core_tables) = Inr d
      \<and> (\<forall>t\<in>set d. tab_rows t = (if tab_name t = ''inbound_events''
           then map (\<lambda>r. r(''source'' := SqlText (source_of_payload json_text (r ''payload'')))) (rows ''inbound_events'')
           else rows (tab_name t)))
      \<and> map tab_name d = map tab_name core_tables)
    \<and> ((\<exists>d. downgrade_source (populate rows' source_tables) = Inr d) \<longleftrightarrow>
        no_duplicates [''external_id''] (rows' ''inbound_events''))"
proof -
  let ?d = "populate rows core_tables"
  let ?P = "\<lambda>t. tab_name t = ''inbound_events''"
  obtain t where t: "find ?P ?d = Some t" "tab_name t = ''inbound_events''"
      "''source'' \<notin> set (map col_name (tab_columns t))"
      "tab_constraints t = [PrimaryKey [''id''], Unique ''inbound_events_external_id_key'' [''external_id''],
        Unique ''inbound_events_idempotency_key_key'' [''idempotency_key'']]"
      "tab_rows t = rows ''inbound_events''"
    by (rule core_events_table)
  from upgrade_source_run [OF t(1-4), of json_text] assms t(5) obtain t' where
    run: "upgrade_source json_text ?d = Inr (update_where ?P (\<lambda>_. t') ?d)"
    and t': "tab_name t' = ''inbound_events''" "tab_rows t' = map (with_source json_text) (rows ''inbound_events'')"
    by auto
  have names: "map tab_name (update_where ?P (\<lambda>_. t') ?d) = map tab_name core_tables"
    using t'(1) by (simp add: populate_def update_where_def)
  have "tab_rows u = (if ?P u then map (with_source json_text) (rows ''inbound_events'') else rows (tab_name u))"
    if "u \<in> set (update_where ?P (\<lambda>_. t') ?d)" for u
    using that t' by (auto simp: populate_def update_where_def split: if_splits)
  moreover have "(\<exists>d. downgrade_source (populate rows' source_tables) = Inr d) \<longleftrightarrow>
      no_duplicates [''external_id''] (rows' ''inbound_events'')"
    by (rule source_events_table [of rows']) (use downgrade_source_run(1) in metis)
  ultimately show ?thesis using run names by (auto simp: with_source_def [abs_def])
qed

text \<open>C35. The third revision cannot run on a database with outreach tasks: it adds a required
  column without a default, so it fails exactly when the table has a row, and the
  database then stays as it was.\<close>

theorem correlation_migration_needs_no_tasks:
  "if rows ''outreach_tasks'' = []
   then fst (do_run_migrations [upgrade_correlation] (populate rows source_tables)) = None
   else do_run_migrations [upgrade_correlation] (populate rows source_tables) =
     (Some (NotNullViolation ''correlation_id''), populate rows source_tables)"
proof -
  obtain t where t: "find (\<lambda>t. tab_name t = ''outreach_tasks'') source_tables = Some t"
      "''correlation_id'' \<notin> set (map col_name (tab_columns t))" and "tab_name t = ''outreach_tasks''"
    using outreach_tasks_facts by (auto split: option.splits dest: find_Some_in)
  then have "find (\<lambda>t. tab_name t = ''outreach_tasks'') (populate rows source_tables) =
      Some (t\<lparr>tab_rows := rows ''outreach_tasks''\<rparr>)" by (simp add: find_populate)
  then show ?thesis
    using find_unnamed [OF t(2)]
    by (simp add: do_run_migrations_def upgrade_correlation_def add_column_def with_table_found required_def)
qed

section \<open>Two stored events\<close>

definition stored_event :: "string \<Rightarrow> json \<Rightarrow> row" where
  "stored_event external_id source = (\<lambda>_. SqlNull)(''external_id'' := SqlText external_id,
     ''payload'' := SqlJson (JObj [(''source'', source)]))"

definition stored_rows :: "string \<Rightarrow> row list" where
  "stored_rows name = (if name = ''inbound_events''
     then [stored_event ''e1'' (JStr ''crm''), stored_event ''e2'' JNull] else [])"

theorem source_migration_keeps_events_witness:
  "\<exists>d. upgrade_source (\<lambda>_. []) (populate stored_rows core_tables) = Inr d
    \<and> (\<forall>t\<in>set d. map (\<lambda>r. r ''source'') (tab_rows t) =
         (if tab_name t = ''inbound_events'' then [SqlText ''crm'', SqlText ''unknown''] else []))"
proof -
  have "distinct (map (\<lambda>r. r ''external_id'') (stored_rows ''inbound_events''))"
    "\<forall>r\<in>set (stored_rows ''inbound_events''). varchar 255 (source_of_payload (\<lambda>_. []) (r ''payload''))"
    by (simp_all add: stored_rows_def stored_event_def source_of_payload_def json_field_def varchar_def)
  from source_migration_keeps_events [of stored_rows, OF this] obtain d
    where run: "upgrade_source (\<lambda>_. []) (populate stored_rows core_tables) = Inr d"
    and rows: "\<forall>t\<in>set d. tab_rows t = (if tab_name t = ''inbound_events''
           then map (\<lambda>r. r(''source'' := SqlText (source_of_payload (\<lambda>_. []) (r ''payload''))))
             (stored_rows ''inbound_events'') else stored_rows (tab_name t))"
    by blast
  have "map (\<lambda>r. r ''source'') (tab_rows t) =
      (if tab_name t = ''inbound_events'' then [SqlText ''crm'', SqlText ''unknown''] else [])" if "t \<in> set d" for t
    using rows that by (simp add: stored_rows_def stored_event_def source_of_payload_def json_field_def)
  with run show ?thesis by blast
qed

end
