(* ===== verification/Events_Windows.thy ===== *)
theory Events_Windows
  imports Ingestion_Windows Events_Properties
begin

text \<open>
  The event route with all windows of ingestion, and that a request it refuses leaves
  nothing behind, whatever the others commit in them.
\<close>

text \<open>What the other sessions commit in the windows of a request, in order.\<close>

record windows =
  window1 :: "db \<Rightarrow> db"
  window2 :: "db \<Rightarrow> db"
  window3 :: "db \<Rightarrow> db"
  window4 :: "db \<Rightarrow> db"

definition no_windows :: windows where
  "no_windows = \<lparr>window1 = (\<lambda>x. x), window2 = (\<lambda>x. x), window3 = (\<lambda>x. x), window4 = (\<lambda>x. x)\<rparr>"

lemma no_windows_simps [simp]:
  "window1 no_windows = (\<lambda>x. x)" "window2 no_windows = (\<lambda>x. x)" "window3 no_windows = (\<lambda>x. x)" "window4 no_windows = (\<lambda>x. x)"
  by (simp_all add: no_windows_def)

definition left_by_others :: "windows \<Rightarrow> db \<Rightarrow> db \<Rightarrow> bool" where
  "left_by_others W d d' \<longleftrightarrow> d' \<in> {d, window1 W d, window2 W (window1 W d),
     window3 W (window2 W (window1 W d)), window4 W (window3 W (window2 W (window1 W d)))}"

section \<open>The route\<close>

definition ingest_event_windows ::
  "env \<Rightarrow> windows \<Rightarrow> uuid \<Rightarrow> event_request \<Rightarrow> db \<Rightarrow> (py_error + event_response) \<times> db" where
  "ingest_event_windows E W correlation_id body d =
     (case ingest_event_between E (window1 W) (window2 W) (window3 W) (window4 W) (rq_source body)
             (rq_external_id body) (rq_event_type body) (rq_customer body) (rq_account body)
             (rq_occurred_at body) (rq_metadata body) correlation_id (open_session d) of
        (Inl (EventIngestionValidationError m), s) \<Rightarrow> (Inl (HTTPException 422 m), store (rollback s))
      | (Inl e, s) \<Rightarrow> (Inl e, store s)
      | (Inr r, s) \<Rightarrow>
          (Inr \<lparr>rs_event_id = ir_event_id r, rs_status = ''accepted'',
             rs_created_tasks = ir_created_tasks r, rs_blocked_tasks = ir_blocked_tasks r,
             rs_deferred_tasks = ir_deferred_tasks r, rs_cancelled_tasks = ir_cancelled_tasks r,
             rs_policy_decisions = ir_policy_decisions r, rs_correlation_id = correlation_id\<rparr>, store s))"

definition post_event_windows ::
  "env \<Rightarrow> windows \<Rightarrow> uuid \<Rightarrow> event_request \<Rightarrow> db \<Rightarrow> (py_error + event_response) \<times> db" where
  "post_event_windows E W correlation_id body d =
     (case inbound_event_request E body of
        Inl e \<Rightarrow> (Inl e, d)
      | Inr body' \<Rightarrow> ingest_event_windows E W correlation_id body' d)"

lemma ingest_event_quiet: "ingest_event_windows E no_windows = ingest_event E (\<lambda>x. x)"
  by (intro ext) (simp add: ingest_event_windows_def ingest_event_def ingest_between_quiet)

lemma post_event_quiet [simp]: "post_event_windows E no_windows = post_event E (\<lambda>x. x)"
  by (intro ext) (simp add: post_event_windows_def post_event_def ingest_event_quiet split: sum.split)

section \<open>A refused event leaves nothing behind\<close>

lemma flush_new_event_refused:
  assumes "flush_new_event_between E others e at corr s = (Inl err, s')"
  shows "store s' = store s \<or> store s' = others (store s)"
  using assms
  by (auto simp: flush_new_event_between_def complete_ingestion_between_def rollback_def Let_def
      split: sum.splits prod.splits option.splits if_splits)

lemma ingest_refused:
  assumes "ingest_event_between E (window1 W) (window2 W) (window3 W) (window4 W) src ext ty cs as at md corr (open_session d) = (Inl e, s)"
  shows "left_by_others W d (store s)"
  using assms
  by (auto simp: ingest_event_between_def left_by_others_def commit_elsewhere_def open_session_def Let_def
      split: option.splits sum.splits prod.splits if_splits dest!: flush_new_event_refused)

lemma post_event_refused:
  assumes "post_event_windows E W corr body d = (Inl e, d')"
  shows "left_by_others W d d'"
proof (cases "inbound_event_request E body")
  case (Inl e')
  then show ?thesis using assms by (simp add: post_event_windows_def left_by_others_def)
next
  case (Inr b)
  obtain res s where run: "ingest_event_between E (window1 W) (window2 W) (window3 W) (window4 W) (rq_source b)
      (rq_external_id b) (rq_event_type b) (rq_customer b) (rq_account b) (rq_occurred_at b) (rq_metadata b) corr
      (open_session d) = (res, s)" by fastforce
  then have "left_by_others W d (store s)" if "res = Inl e'" for e' using ingest_refused that by blast
  then show ?thesis
    using assms Inr run
    by (auto simp: post_event_windows_def ingest_event_windows_def rollback_def split: sum.splits py_error.splits)
qed

end
