(* ===== verification/Application.thy ===== *)
theory Application
  imports Tracing Settings Tasks_Api Events_Windows
begin

text \<open>
  \<open>src/orchestrator/main.py\<close> and \<open>api/health.py\<close>: the application with its settings and routers,
  and a whole request, from the middleware through the route to the response.  A request
  is what the framework has parsed for a route; an \<open>HTTPException\<close> and a rejected body
  become responses inside the middleware, any other exception passes through it and is
  answered outside, without its header.
\<close>

section \<open>The application\<close>

datatype router = HealthRouter | EventsRouter | AuditRouter | TasksRouter | AccountsRouter

record app =
  app_title :: string
  app_summary :: string
  app_version :: string
  app_settings :: settings
  app_routers :: "router list"

text \<open>\<open>create_app\<close> with the cache of \<open>get_settings\<close>, which it reads only without an argument.\<close>

definition create_app :: "overrides \<Rightarrow> settings option \<Rightarrow> settings option \<Rightarrow> app \<times> settings option" where
  "create_app ov settings cache =
     (let (app_settings, cache') = (case settings of Some s \<Rightarrow> (s, cache) | None \<Rightarrow> get_settings ov cache)
      in (\<lparr>app_title = ''Compliant Outreach Orchestrator'',
           app_summary = ''Demo service for compliance-aware multi-channel outreach orchestration.'',
           app_version = ''0.1.0'', app_settings = app_settings,
           app_routers = [HealthRouter, EventsRouter, AuditRouter, TasksRouter, AccountsRouter]\<rparr>, cache'))"

text \<open>The arguments \<open>run\<close> passes to the server.\<close>

record server_config =
  sv_app :: string
  sv_host :: string
  sv_port :: int
  sv_reload :: bool
  sv_log_level :: string

definition run_config :: "overrides \<Rightarrow> settings option \<Rightarrow> server_config \<times> settings option" where
  "run_config ov cache =
     (let (s, cache') = get_settings ov cache
      in (\<lparr>sv_app = ''orchestrator.main:app'', sv_host = app_host s, sv_port = app_port s,
           sv_reload = True, sv_log_level = log_level s\<rparr>, cache'))"

definition healthz :: "app \<Rightarrow> string \<times> string" where
  "healthz A = (service_name (app_settings A), ''ok'')"

section \<open>Requests and responses\<close>

datatype request =
    Healthz
  | PostEvent event_request
  | ListAudit "uuid option"
  | ListTasks "outreach_task_status option" "string option" "string option" "outreach_channel option" int
  | GetTask uuid
  | PostDeliveryResult uuid string "string option" payload
  | CancelOutreach string string

datatype answer =
    HealthAnswer string string
  | EventAnswer event_response
  | AuditAnswer "audit_event list"
  | TasksAnswer "outreach_task_response list"
  | TaskAnswer outreach_task_response
  | CancelAnswer string nat

fun router_of :: "request \<Rightarrow> router" where
  "router_of Healthz = HealthRouter"
| "router_of (PostEvent body) = EventsRouter"
| "router_of (ListAudit c) = AuditRouter"
| "router_of (ListTasks st c a ch limit) = TasksRouter"
| "router_of (GetTask i) = TasksRouter"
| "router_of (PostDeliveryResult i st m details) = TasksRouter"
| "router_of (CancelOutreach x reason) = AccountsRouter"

text \<open>The handler of a route; a delivery result and a cancellation have one window.\<close>

fun handle :: "app \<Rightarrow> env \<Rightarrow> windows \<Rightarrow> uuid \<Rightarrow> request \<Rightarrow> db \<Rightarrow> (py_error + answer) \<times> db" where
  "handle A E W corr Healthz d = (Inr (case healthz A of (service, st) \<Rightarrow> HealthAnswer service st), d)"
| "handle A E W corr (PostEvent body) d = map_prod (map_sum id EventAnswer) id (post_event_windows E W corr body d)"
| "handle A E W corr (ListAudit c) d = (Inr (AuditAnswer (list_audit_events c d)), d)"
| "handle A E W corr (ListTasks st c a ch limit) d =
     (map_sum id TasksAnswer (list_tasks_route d st c a ch limit), d)"
| "handle A E W corr (GetTask i) d = (map_sum id TaskAnswer (get_task d i), d)"
| "handle A E W corr (PostDeliveryResult i st m details) d =
     map_prod (map_sum id TaskAnswer) id (post_delivery_result E (window1 W) i st m details d)"
| "handle A E W corr (CancelOutreach x reason) d =
     (case cancel_outreach_request reason of
        Inl e \<Rightarrow> (Inl e, d)
      | Inr stripped \<Rightarrow>
          map_prod (map_sum id (\<lambda>(account, n). CancelAnswer account n)) id
            (cancel_account_outreach E (window1 W) x stripped corr d))"

definition call_route :: "app \<Rightarrow> env \<Rightarrow> windows \<Rightarrow> request \<Rightarrow> db \<Rightarrow> uuid \<Rightarrow> (py_error + answer) \<times> db" where
  "call_route A E W rq d corr =
     (if router_of rq \<in> set (app_routers A) then handle A E W corr rq d
      else (Inl (HTTPException 404 ''Not Found''), d))"

record response =
  resp_status :: nat
  resp_correlation_header :: "string option"
  resp_body :: "string + answer"

text \<open>The exceptions that the framework answers inside the middleware.  A \<open>ValidationError\<close> is that
  of a rejected body here: the planner passes aware times only, so that of \<open>PolicyInput\<close> does
  not occur in a request.\<close>

definition handled_error :: "py_error \<Rightarrow> (nat \<times> string) option" where
  "handled_error e = (case e of HTTPException n m \<Rightarrow> Some (n, m) | ValidationError m \<Rightarrow> Some (422, m) | _ \<Rightarrow> None)"

definition serve ::
  "app \<Rightarrow> env \<Rightarrow> windows \<Rightarrow> uuid \<Rightarrow> string option \<Rightarrow> request \<Rightarrow> db \<Rightarrow> response \<times> db" where
  "serve A E W fresh header rq d =
     (case correlation_id_middleware fresh header (call_route A E W rq d) of
        (h, Inr a, d') \<Rightarrow> (\<lparr>resp_status = 200, resp_correlation_header = Some h, resp_body = Inr a\<rparr>, d')
      | (h, Inl e, d') \<Rightarrow>
          ((case handled_error e of
              Some (n, m) \<Rightarrow> \<lparr>resp_status = n, resp_correlation_header = Some h, resp_body = Inl m\<rparr>
            | None \<Rightarrow> \<lparr>resp_status = 500, resp_correlation_header = None, resp_body = Inl ''Internal Server Error''\<rparr>),
           d'))"

text \<open>The health check answers from the settings alone.\<close>

lemma healthz_shallow:
  "serve (fst (create_app ov (Some s) cache)) E W fresh header Healthz d =
     (\<lparr>resp_status = 200, resp_correlation_header = Some (uuid_str (correlation_id_from_header fresh header)),
       resp_body = Inr (HealthAnswer (service_name s) ''ok'')\<rparr>, d)"
  by (simp add: serve_def correlation_id_middleware_def call_route_def create_app_def healthz_def Let_def)

section \<open>All or nothing\<close>

lemma manual_result_keeps:
  assumes "wf_db (others d)" and "task_status task \<in> ALLOWED_MANUAL_DELIVERY_SOURCE_STATUSES"
    and "record_manual_delivery_result E others task st m details d = (res, d')"
  shows "case res of Inl e \<Rightarrow> d' = others d | Inr t \<Rightarrow> wf_db d' \<and> t \<in> set (outreach_tasks d')"
proof (cases "rowcount (still_in (task_status task) task) (outreach_tasks (others d)) = 1")
  case False
  then show ?thesis
    using assms(2,3) by (auto simp: record_manual_delivery_result_def Let_def split: if_splits)
next
  case True
  let ?d = "others d" and ?w = "write_delivery_result E task st m details (others d)"
  let ?f = "\<lambda>t. t\<lparr>task_status := delivery_task_status st, task_last_error := manual_last_error st details\<rparr>"
  have wf: "wf_db ?w"
    using audit_log.frame_write_delivery_result [OF True assms(2)] assms(1) by (simp add: keeps_def)
  from assms(1) True obtain t where "t \<in> set (outreach_tasks ?d)" "task_id t = task_id task"
      "?d\<lparr>outreach_tasks := update_where (still_in (task_status task) task) ?f (outreach_tasks ?d)\<rparr> = put_task (?f t) ?d"
    by (rule still_in_put [where f = ?f]) simp_all
  then have "?f t \<in> set (outreach_tasks ?w)" "task_id (?f t) = task_id task"
    using put_row_has [of t "outreach_tasks ?d" task_id "?f t"]
    by (simp_all add: write_delivery_result_def frame_simps put_task_def)
  then have "get_outreach_task ?w (task_id task) = Some (?f t)" "?f t \<in> set (outreach_tasks ?w)"
    using wf by (simp_all add: get_outreach_task_in)
  with True wf show ?thesis
    using assms(2,3) by (auto simp: record_manual_delivery_result_def Let_def split: if_splits)
qed

lemma delivery_result_keeps:
  assumes "wf_db d" and "wf_db (others d)"
    and "record_delivery_result E others i st m details d = (res, d')"
  shows "case res of Inl e \<Rightarrow> d' = d \<or> d' = others d | Inr t \<Rightarrow> wf_db d' \<and> t \<in> set (outreach_tasks d')"
proof (cases "get_outreach_task d i")
  case None
  then show ?thesis using assms(3) by (auto simp: record_delivery_result_def)
next
  case (Some task)
  obtain r d1 where run: "record_manual_delivery_result E others task st m details d = (r, d1)" by fastforce
  show ?thesis
  proof (cases "task_status task \<in> ALLOWED_MANUAL_DELIVERY_SOURCE_STATUSES")
    case True
    then have "task_status task \<noteq> CANCELLED" by (auto simp: ALLOWED_MANUAL_DELIVERY_SOURCE_STATUSES_def)
    then show ?thesis
      using manual_result_keeps [OF assms(2) True run] assms(3) Some True run
      by (auto simp: record_delivery_result_def split: sum.splits py_error.splits)
  next
    case False
    then show ?thesis using assms(3) Some by (auto simp: record_delivery_result_def split: if_splits)
  qed
qed

lemma post_delivery_refused:
  assumes "wf_db d" and "wf_db (others d)"
    and "post_delivery_result E others i status m details d = (Inl e, d')"
  shows "d' = d \<or> d' = others d"
proof (cases "delivery_result_request status m")
  case (Inr st)
  obtain r d1 where run: "record_delivery_result E others i st m details d = (r, d1)" by fastforce
  note kept = delivery_result_keeps [OF assms(1,2) run]
  show ?thesis
  proof (cases r)
    case (Inr t)
    then obtain x where "shows_task d1 t x" using kept task_response_total by auto
    then show ?thesis using assms(3) run Inr \<open>delivery_result_request status m = Inr st\<close>
      by (simp add: post_delivery_result_def shows_task_def)
  qed (use assms(3) kept run Inr in \<open>simp add: post_delivery_result_def\<close>)
qed (use assms(3) in \<open>simp add: post_delivery_result_def\<close>)

fun reads_only :: "request \<Rightarrow> bool" where
  "reads_only (PostEvent body) \<longleftrightarrow> False"
| "reads_only (PostDeliveryResult i st m details) \<longleftrightarrow> False"
| "reads_only (CancelOutreach x reason) \<longleftrightarrow> False"
| "reads_only _ \<longleftrightarrow> True"

lemma handle_reads: "reads_only rq \<Longrightarrow> snd (handle A E W corr rq d) = d"
  by (cases rq) simp_all

lemma handle_refused:
  assumes "wf_db d" and "wf_db (window1 W d)" and "handle A E W corr rq d = (Inl e, d')"
  shows "left_by_others W d d'"
proof (cases rq)
  case (PostEvent body)
  then obtain e' where "post_event_windows E W corr body d = (Inl e', d')"
    using assms(3)
    by (cases "post_event_windows E W corr body d"; cases "fst (post_event_windows E W corr body d)") auto
  then show ?thesis by (rule post_event_refused)
next
  case (PostDeliveryResult i st m details)
  then obtain e' where "post_delivery_result E (window1 W) i st m details d = (Inl e', d')"
    using assms(3) by (cases "post_delivery_result E (window1 W) i st m details d";
        cases "fst (post_delivery_result E (window1 W) i st m details d)") auto
  with assms(1,2) have "d' = d \<or> d' = window1 W d" by (rule post_delivery_refused)
  then show ?thesis by (auto simp: left_by_others_def)
next
  case (CancelOutreach x reason)
  then show ?thesis
    using assms(3)
    by (auto simp: cancel_account_outreach_def left_by_others_def split: sum.splits option.splits prod.splits)
qed (use assms(3) handle_reads [of rq A E W corr d] in \<open>auto simp: left_by_others_def\<close>)

text \<open>The response shows what the handler returned.\<close>

lemma serve_result:
  assumes "serve A E W fresh header rq d = (resp, d')"
  obtains res where "call_route A E W rq d (correlation_id_from_header fresh header) = (res, d')"
    and "resp_correlation_header resp = Some (uuid_str (correlation_id_from_header fresh header))
      \<or> resp_correlation_header resp = None \<and> resp_status resp = 500 \<and> isl res"
    and "resp_status resp \<noteq> 200 \<Longrightarrow> isl res"
  using assms
  by (cases "call_route A E W rq d (correlation_id_from_header fresh header)";
      cases "fst (call_route A E W rq d (correlation_id_from_header fresh header))")
    (auto simp: serve_def correlation_id_middleware_def Let_def split: option.splits prod.splits)

lemma request_refused:
  assumes "wf_db d" and "wf_db (window1 W d)" and "call_route A E W rq d corr = (Inl e, d')"
  shows "left_by_others W d d'"
  using assms(3) handle_refused [OF assms(1,2)] by (auto simp: call_route_def left_by_others_def split: if_splits)

text \<open>C8. Every request is all or nothing: when it is not answered with 200, whatever stopped it,
  the database is what the other sessions have left, in whichever windows they committed, and nothing of
  the request is stored; a request that only reads never writes; and every response
  carries the correlation identifier except the answer to an unhandled exception, which
  is 500.\<close>

theorem request_all_or_nothing:
  assumes "wf_db d" and "wf_db (window1 W d)" and "serve A E W fresh header rq d = (resp, d')"
  shows "(resp_status resp \<noteq> 200 \<longrightarrow> left_by_others W d d') \<and> (reads_only rq \<longrightarrow> d' = d)
    \<and> (resp_correlation_header resp = Some (uuid_str (correlation_id_from_header fresh header))
       \<or> resp_correlation_header resp = None \<and> resp_status resp = 500)"
proof -
  from assms(3) obtain res where run: "call_route A E W rq d (correlation_id_from_header fresh header) = (res, d')"
    and h: "resp_correlation_header resp = Some (uuid_str (correlation_id_from_header fresh header))
      \<or> resp_correlation_header resp = None \<and> resp_status resp = 500 \<and> isl res"
    and bad: "resp_status resp \<noteq> 200 \<Longrightarrow> isl res" by (rule serve_result) blast
  have "reads_only rq \<Longrightarrow> d' = d"
    using run handle_reads [of rq A E W "correlation_id_from_header fresh header" d]
    by (auto simp: call_route_def split: if_splits)
  moreover have "left_by_others W d d'" if "isl res"
    using request_refused [OF assms(1,2)] run that by (cases res) auto
  ultimately show ?thesis using h bad by blast
qed

text \<open>The application with the settings of the example file, asked to stop an account it does not know.\<close>

definition example_app :: app where
  "example_app = fst (create_app example_overrides None None)"

theorem request_all_or_nothing_witness:
  "\<exists>resp. serve example_app sample_env no_windows 5 None (CancelOutreach ''a9'' ''moved'') empty_db = (resp, empty_db)
     \<and> resp_status resp = 404 \<and> resp_correlation_header resp = Some (uuid_str 5)"
proof -
  obtain resp d' where run: "serve example_app sample_env no_windows 5 None (CancelOutreach ''a9'' ''moved'') empty_db = (resp, d')"
    by fastforce
  have "resp_status (fst (serve example_app sample_env no_windows 5 None (CancelOutreach ''a9'' ''moved'') empty_db)) = 404"
    by code_simp
  then have "resp_status resp = 404" using run by simp
  with request_all_or_nothing [of empty_db no_windows, OF wf_empty _ run] run show ?thesis
    by (simp add: correlation_id_from_header_def left_by_others_def wf_empty)
qed

section \<open>Traceability\<close>

text \<open>
  The identifier under which a request is recorded: its own, but a delivery result is
  recorded under that of its task.
\<close>

fun recorded_under :: "db \<Rightarrow> uuid \<Rightarrow> request \<Rightarrow> uuid" where
  "recorded_under d i (PostDeliveryResult j st m details) =
     (case get_outreach_task d j of None \<Rightarrow> i | Some t \<Rightarrow> task_correlation_id t)"
| "recorded_under d i _ = i"

lemma traced_manual_result:
  "traced (task_correlation_id t) d (snd (record_manual_delivery_result E (\<lambda>x. x) t st m details d))"
  by (auto simp: record_manual_delivery_result_def Let_def traced_write_delivery_result split: option.split)

lemma traced_delivery_result:
  "traced (case get_outreach_task d i of None \<Rightarrow> c | Some t \<Rightarrow> task_correlation_id t) d
     (snd (record_delivery_result E (\<lambda>x. x) i st m details d))"
proof (cases "get_outreach_task d i")
  case (Some t)
  obtain r d1 where "record_manual_delivery_result E (\<lambda>x. x) t st m details d = (r, d1)" by fastforce
  then show ?thesis
    using traced_manual_result [of t d E st m details] Some
    by (auto simp: record_delivery_result_def split: sum.split py_error.split)
qed (simp add: record_delivery_result_def)

lemma traced_post_event: "traced c d (snd (post_event E (\<lambda>x. x) c body d))"
proof (cases "inbound_event_request E body")
  case (Inr b)
  obtain res s where run: "ingest_event_snapshot E (\<lambda>x. x) (rq_source b) (rq_external_id b) (rq_event_type b)
      (rq_customer b) (rq_account b) (rq_occurred_at b) (rq_metadata b) c (open_session d) = (res, s)" by fastforce
  show ?thesis
    using traced_ingest [OF run] Inr run
    by (auto simp: post_event_def ingest_event_def rollback_def split: sum.split py_error.split)
qed (simp add: post_event_def)

lemma traced_handle: "traced (recorded_under d c rq) d (snd (handle A E no_windows c rq d))"
proof (cases rq)
  case (PostDeliveryResult i st m details)
  have "snd (post_delivery_result E (\<lambda>x. x) i st m details d) = (case delivery_result_request st m of
      Inl e \<Rightarrow> d | Inr st' \<Rightarrow> snd (record_delivery_result E (\<lambda>x. x) i st' m details d))"
    by (simp add: post_delivery_result_def split: sum.split prod.split)
  then show ?thesis
    using traced_delivery_result [where d = d and i = i and c = c] PostDeliveryResult by (simp split: sum.split)
next
  case (CancelOutreach x reason)
  then show ?thesis using traced_cancel_account_outreach by (auto split: sum.split)
qed (use traced_post_event in auto)

text \<open>C9. Whatever a request stores can be found again through the header of its response: with no
  other session at work the header is a 128-bit identifier that parses back, and the audit
  rows the request appends are all in the listing for that identifier, as are the tasks it adds;
  only a delivery result is recorded under the identifier of its task instead.  A
  response without the header stands for a request that has stored nothing.\<close>

theorem request_is_traced:
  assumes "wf_db d" and "fresh < 2 ^ 128" and "serve A E no_windows fresh header rq d = (resp, d')"
  shows "\<exists>i < 2 ^ 128. (resp_correlation_header resp = Some (uuid_str i) \<and> UUID (uuid_str i) = Inr i
        \<or> resp_correlation_header resp = None \<and> d' = d)
    \<and> (\<exists>rows. audit_events d' = audit_events d @ rows
          \<and> set rows \<subseteq> set (list_audit_events (Some (recorded_under d i rq)) d'))
    \<and> (\<exists>ids. map task_correlation_id (outreach_tasks d') = map task_correlation_id (outreach_tasks d) @ ids
          \<and> set ids \<subseteq> {recorded_under d i rq})"
proof -
  let ?i = "correlation_id_from_header fresh header"
  have i: "?i < 2 ^ 128"
    using assms(2) by (auto simp: correlation_id_from_header_def dest: UUID_range split: option.splits sum.splits)
  from assms(3) obtain res where run: "call_route A E no_windows rq d ?i = (res, d')"
    and h: "resp_correlation_header resp = Some (uuid_str ?i)
      \<or> resp_correlation_header resp = None \<and> resp_status resp = 500 \<and> isl res" by (rule serve_result)
  have "traced (recorded_under d ?i rq) d d'"
    using traced_handle [of d ?i rq A E] run by (auto simp: call_route_def split: if_splits)
  then obtain rows ids where rows: "audit_events d' = audit_events d @ rows"
      "\<forall>r\<in>set rows. ae_correlation_id r = recorded_under d ?i rq"
    and ids: "map task_correlation_id (outreach_tasks d') = map task_correlation_id (outreach_tasks d) @ ids"
      "set ids \<subseteq> {recorded_under d ?i rq}" by (auto simp: traced_def)
  have "set rows \<subseteq> set (list_audit_events (Some (recorded_under d ?i rq)) d')"
    using rows by (auto simp: list_audit_events_def)
  moreover have "d' = d" if "isl res"
    using request_refused [OF assms(1), of no_windows] assms(1) run that by (cases res) (auto simp: left_by_others_def)
  ultimately show ?thesis using i h rows(1) ids UUID_uuid_str [OF i] by blast
qed

text \<open>The sample event, posted without a header.\<close>

theorem request_is_traced_witness:
  "\<exists>resp d'. serve example_app padded_env no_windows 5 None (PostEvent sample_request) empty_db = (resp, d')
     \<and> audit_events d' \<noteq> [] \<and> set (audit_events d') \<subseteq> set (list_audit_events (Some 5) d')"
proof -
  let ?run = "serve example_app padded_env no_windows 5 None (PostEvent sample_request) empty_db"
  obtain resp d' where run: "?run = (resp, d')" by fastforce
  have "resp_correlation_header (fst ?run) = Some (uuid_str 5) \<and> audit_events (snd ?run) \<noteq> []"
    by code_simp
  then have h: "resp_correlation_header resp = Some (uuid_str 5)" and rows: "audit_events d' \<noteq> []" using run by simp_all
  have "(5 :: uuid) < 2 ^ 128" by simp
  from request_is_traced [OF wf_empty this run] h
  have "set (audit_events d') \<subseteq> set (list_audit_events (Some 5) d')" by (auto simp: empty_db_def)
  with rows run show ?thesis by blast
qed

end
