(* ===== verification/Demo_Client.thy ===== *)
theory Demo_Client
  imports Demo_Seed Application
begin

text \<open>
  \<open>src/scripts/seed_demo.py\<close> as a process: its client of the application, what it prints, its
  options and the database it resets.  Theory \<open>Demo_Seed\<close> has the same run as calls of the
  routes; here every request goes through the whole application, with its URL, and every
  line the script prints is part of the result.  Reading requests draw an identifier
  too, which nothing records.  The text of an error response and the JSON text of a time
  are those of the framework and fields of the client.
\<close>

section \<open>URLs\<close>

definition rstrip_slash :: "string \<Rightarrow> string" where
  "rstrip_slash s = rev (dropWhile (\<lambda>c. c = CHR ''/'') (rev s))"

definition api_url :: "string \<Rightarrow> string \<Rightarrow> string" where
  "api_url base_url path = rstrip_slash base_url @ ''/'' @ dropWhile (\<lambda>c. c = CHR ''/'') path"

text \<open>\<open>urlencode\<close>: unreserved characters stay, a blank is a plus, the others are escaped.\<close>

definition unreserved :: string where
  "unreserved = ''ABCDEFGHIJKLMNOPQRSTUVWXYZabcdefghijklmnopqrstuvwxyz0123456789_.-~''"

definition upper_hex_digit :: "nat \<Rightarrow> char" where
  "upper_hex_digit n = ''0123456789ABCDEF'' ! n"

definition quote_plus :: "string \<Rightarrow> string" where
  "quote_plus s = concat (map (\<lambda>c.
     if c \<in> set unreserved then [c] else if c = CHR '' '' then ''+''
     else [CHR ''%'', upper_hex_digit (of_char c div 16), upper_hex_digit (of_char c mod 16)]) s)"

fun urlencode :: "(string \<times> string) list \<Rightarrow> string" where
  "urlencode [] = []"
| "urlencode [(k, v)] = quote_plus k @ ''='' @ quote_plus v"
| "urlencode ((k, v) # params) = quote_plus k @ ''='' @ quote_plus v @ ''&'' @ urlencode params"

text \<open>\<open>str\<close> of a number.\<close>

fun number_text :: "nat \<Rightarrow> string" where
  "number_text n = (if n < 10 then [hex_digit n] else number_text (n div 10) @ [hex_digit (n mod 10)])"

declare number_text.simps [simp del]

section \<open>The client\<close>

record demo_api_client =
  cl_app :: app
  cl_env :: "nat \<Rightarrow> env"
  cl_fresh :: "nat \<Rightarrow> uuid"
  cl_base_url :: string
  cl_error_text :: "string \<Rightarrow> string"
  cl_json_time :: "usec \<Rightarrow> string"

definition get_url :: "demo_api_client \<Rightarrow> string \<Rightarrow> (string \<times> string) list \<Rightarrow> string" where
  "get_url C path params =
     api_url (rstrip_slash (cl_base_url C)) path @ (if params = [] then [] else ''?'' @ urlencode params)"

text \<open>A response whose status is not 200 is the \<open>HTTPError\<close> of \<open>urlopen\<close>.\<close>

definition client_request ::
  "demo_api_client \<Rightarrow> nat \<Rightarrow> string \<Rightarrow> string \<Rightarrow> request \<Rightarrow> db \<Rightarrow> (py_error + answer) \<times> db" where
  "client_request C n verb url rq d =
     (case serve (cl_app C) (cl_env C n) no_windows (cl_fresh C n) None rq d of
        (resp, d') \<Rightarrow>
          ((case resp_body resp of
              Inr a \<Rightarrow> Inr a
            | Inl m \<Rightarrow> Inl (RuntimeError (verb @ '' '' @ url @ '' failed with ''
                @ number_text (resp_status resp) @ '': '' @ cl_error_text C m))), d'))"

text \<open>The answer of a route to its own requests; another kind of answer does not occur.\<close>

definition post_event_json :: "demo_api_client \<Rightarrow> nat \<Rightarrow> event_request \<Rightarrow> db \<Rightarrow> (py_error + event_response) \<times> db" where
  "post_event_json C n event d =
     (case client_request C n ''POST'' (api_url (rstrip_slash (cl_base_url C)) ''/v1/events'') (PostEvent event) d of
        (Inr (EventAnswer r), d') \<Rightarrow> (Inr r, d')
      | (Inr _, d') \<Rightarrow> (Inl (ValueError ''unexpected answer''), d')
      | (Inl e, d') \<Rightarrow> (Inl e, d'))"

definition get_tasks_json ::
  "demo_api_client \<Rightarrow> nat \<Rightarrow> string \<Rightarrow> db \<Rightarrow> (py_error + outreach_task_response list) \<times> db" where
  "get_tasks_json C n account_external_id d =
     (case client_request C n ''GET''
             (get_url C ''/v1/tasks'' [(''account_external_id'', account_external_id), (''limit'', ''20'')])
             (ListTasks None None (Some account_external_id) None 20) d of
        (Inr (TasksAnswer ts), d') \<Rightarrow> (Inr ts, d')
      | (Inr _, d') \<Rightarrow> (Inl (ValueError ''unexpected answer''), d')
      | (Inl e, d') \<Rightarrow> (Inl e, d'))"

definition get_audit_json :: "demo_api_client \<Rightarrow> nat \<Rightarrow> uuid \<Rightarrow> db \<Rightarrow> (py_error + audit_event list) \<times> db" where
  "get_audit_json C n correlation_id d =
     (case client_request C n ''GET'' (get_url C ''/v1/audit'' [(''correlation_id'', uuid_str correlation_id)])
             (ListAudit (Some correlation_id)) d of
        (Inr (AuditAnswer rows), d') \<Rightarrow> (Inr rows, d')
      | (Inr _, d') \<Rightarrow> (Inl (ValueError ''unexpected answer''), d')
      | (Inl e, d') \<Rightarrow> (Inl e, d'))"

section \<open>What is printed\<close>

fun actor_type_value :: "audit_actor_type \<Rightarrow> string" where
  "actor_type_value SYSTEM = ''system''"
| "actor_type_value API_CLIENT = ''api_client''"
| "actor_type_value WORKER = ''worker''"
| "actor_type_value POLICY_ENGINE = ''policy_engine''"

definition print_event_result :: "event_request \<Rightarrow> event_response \<Rightarrow> string" where
  "print_event_result event response =
     ''POST /v1/events '' @ rq_event_type event @ '' -> created='' @ number_text (rs_created_tasks response)
     @ '' blocked='' @ number_text (rs_blocked_tasks response) @ '' deferred='' @ number_text (rs_deferred_tasks response)
     @ '' cancelled='' @ number_text (rs_cancelled_tasks response)
     @ '' decisions='' @ number_text (rs_policy_decisions response)
     @ '' correlation_id='' @ uuid_str (rs_correlation_id response)"

definition print_tasks :: "demo_api_client \<Rightarrow> string \<Rightarrow> outreach_task_response list \<Rightarrow> string list" where
  "print_tasks C account_external_id tasks =
     (''GET /v1/tasks?account_external_id='' @ account_external_id @ '' -> '' @ number_text (length tasks) @ '' task(s)'')
     # map (\<lambda>t. ''  '' @ channel_value (tr_channel t) @ '' '' @ task_status_value (tr_status t)
         @ '' scheduled_at='' @ cl_json_time C (tr_scheduled_at t) @ '' id='' @ uuid_str (tr_id t)) tasks"

definition print_audit :: "uuid \<Rightarrow> audit_event list \<Rightarrow> string list" where
  "print_audit correlation_id rows =
     (''GET /v1/audit?correlation_id='' @ uuid_str correlation_id @ '' -> '' @ number_text (length rows) @ '' row(s)'')
     # map (\<lambda>r. ''  '' @ ae_event_type r @ '' actor='' @ actor_type_value (ae_actor_type r)
         @ '' entity='' @ ae_entity_type r) rows"

definition print_scenario :: "demo_scenario \<Rightarrow> string list" where
  "print_scenario scenario = [CHR 0x0A # ''=== '' @ sc_name scenario @ '' ==='', sc_description scenario]"

section \<open>The run\<close>

text \<open>The events of a scenario, with the last response; \<open>n\<close> counts the events posted so far.\<close>

fun post_and_print ::
  "demo_api_client \<Rightarrow> nat \<Rightarrow> event_request list \<Rightarrow> event_response option \<Rightarrow> db
     \<Rightarrow> (py_error + event_response option) \<times> string list \<times> db" where
  "post_and_print C n [] last_response d = (Inr last_response, [], d)"
| "post_and_print C n (event # events) last_response d =
     (case post_event_json C n event d of
        (Inl e, d1) \<Rightarrow> (Inl e, [], d1)
      | (Inr response, d1) \<Rightarrow>
          (case post_and_print C (Suc n) events (Some response) d1 of
             (res, out, d2) \<Rightarrow> (res, print_event_result event response # out, d2)))"

definition play_scenario :: "demo_api_client \<Rightarrow> nat \<Rightarrow> demo_scenario \<Rightarrow> db \<Rightarrow> (py_error + unit) \<times> string list \<times> db" where
  "play_scenario C n scenario d =
     (let account_external_id = as_external_id (rq_account (last (sc_events scenario))) in
      case post_and_print C n (sc_events scenario) None d of
        (Inl e, out, d1) \<Rightarrow> (Inl e, print_scenario scenario @ out, d1)
      | (Inr None, out, d1) \<Rightarrow> (Inr (), print_scenario scenario @ out, d1)
      | (Inr (Some last_response), out, d1) \<Rightarrow>
          (case get_tasks_json C n account_external_id d1 of
             (Inl e, d2) \<Rightarrow> (Inl e, print_scenario scenario @ out, d2)
           | (Inr tasks, d2) \<Rightarrow>
               (let out2 = print_scenario scenario @ out @ print_tasks C account_external_id tasks;
                    correlation_id = rs_correlation_id last_response in
                case get_audit_json C n correlation_id d2 of
                  (Inl e, d3) \<Rightarrow> (Inl e, out2, d3)
                | (Inr rows, d3) \<Rightarrow> (Inr (), out2 @ print_audit correlation_id rows, d3))))"

fun play_scenarios ::
  "demo_api_client \<Rightarrow> nat \<Rightarrow> string set \<Rightarrow> demo_scenario list \<Rightarrow> db \<Rightarrow> (py_error + unit) \<times> string list \<times> db" where
  "play_scenarios C n names [] d = (Inr (), [], d)"
| "play_scenarios C n names (scenario # scenarios) d =
     (if sc_name scenario \<notin> names then play_scenarios C n names scenarios d
      else case play_scenario C n scenario d of
        (Inl e, out, d1) \<Rightarrow> (Inl e, out, d1)
      | (Inr _, out, d1) \<Rightarrow>
          (case play_scenarios C (n + length (sc_events scenario)) names scenarios d1 of
             (res, out2, d2) \<Rightarrow> (res, out @ out2, d2)))"

text \<open>\<open>run_scenarios\<close>, which asks for the health of the application first.\<close>

definition client_run ::
  "demo_api_client \<Rightarrow> string set \<Rightarrow> demo_scenario list \<Rightarrow> db \<Rightarrow> (py_error + unit) \<times> string list \<times> db" where
  "client_run C names scenarios d =
     (case client_request C 0 ''GET'' (get_url C ''/healthz'' []) Healthz d of
        (Inl e, d1) \<Rightarrow> (Inl e, [], d1)
      | (Inr _, d1) \<Rightarrow> play_scenarios C 0 names scenarios d1)"

section \<open>The process\<close>

record demo_args =
  da_api_url :: string
  da_database_url :: "string option"
  da_scenario :: "string list option"
  da_skip_reset :: bool

definition default_demo_args :: demo_args where
  "default_demo_args = \<lparr>da_api_url = ''http://localhost:8000'', da_database_url = None, da_scenario = None,
     da_skip_reset = False\<rparr>"

text \<open>The choices of \<open>--scenario\<close>.\<close>

definition accepted_args :: "demo_scenario list \<Rightarrow> demo_args \<Rightarrow> bool" where
  "accepted_args scenarios args \<longleftrightarrow>
     (case da_scenario args of None \<Rightarrow> True | Some vs \<Rightarrow> set vs \<subseteq> set (map sc_name scenarios @ [''all'']))"

definition demo_database_url :: "demo_args \<Rightarrow> string option \<Rightarrow> settings \<Rightarrow> string" where
  "demo_database_url args env_url s = str_or (da_database_url args) (str_or env_url (database_url s))"

record demo_outcome =
  exit_code :: nat
  stdout_lines :: "string list"
  failure :: "py_error option"

definition reset_notice :: string where
  "reset_notice = ''Resetting demo database tables. This is destructive and intended for demo use only.''"

definition farewell :: string where
  "farewell = CHR 0x0A # ''Demo scenarios complete. Inspect /v1/tasks and /v1/audit for the persisted story.''"

text \<open>
  The process, with the clock of the script, the variable \<open>DATABASE_URL\<close>, its settings, and the
  databases by their URLs; \<open>served_url\<close> is the one the application at \<open>--api-url\<close> works on.
\<close>

definition demo_main ::
  "demo_api_client \<Rightarrow> demo_args \<Rightarrow> string option \<Rightarrow> settings \<Rightarrow> string \<Rightarrow> usec \<Rightarrow> (string \<Rightarrow> db)
     \<Rightarrow> demo_outcome \<times> (string \<Rightarrow> db)" where
  "demo_main C args env_url s served_url now servers =
     (case demo_scenarios now of
        Inl e \<Rightarrow> (\<lparr>exit_code = 1, stdout_lines = [], failure = Some e\<rparr>, servers)
      | Inr scenarios \<Rightarrow>
          if \<not> accepted_args scenarios args
          then (\<lparr>exit_code = 2, stdout_lines = [], failure = None\<rparr>, servers)
          else
            let url = demo_database_url args env_url s;
                notice = (if da_skip_reset args then [] else [reset_notice]) in
            case (if da_skip_reset args then (Inr (), servers url) else reset_database (servers url)) of
              (Inl e, d0) \<Rightarrow> (\<lparr>exit_code = 1, stdout_lines = notice, failure = Some e\<rparr>, servers(url := d0))
            | (Inr _, d0) \<Rightarrow>
                let servers' = servers(url := d0) in
                case client_run (C\<lparr>cl_base_url := da_api_url args\<rparr>)
                       (selected_scenarios scenarios (da_scenario args)) scenarios (servers' served_url) of
                  (Inl e, out, d1) \<Rightarrow>
                    (\<lparr>exit_code = 1, stdout_lines = notice @ out, failure = Some e\<rparr>, servers'(served_url := d1))
                | (Inr _, out, d1) \<Rightarrow>
                    (\<lparr>exit_code = 0, stdout_lines = notice @ out @ [farewell], failure = None\<rparr>,
                     servers'(served_url := d1)))"

section \<open>The client sees what the routes answer\<close>

definition all_routers :: "app \<Rightarrow> bool" where
  "all_routers A \<longleftrightarrow> {HealthRouter, EventsRouter, AuditRouter, TasksRouter} \<subseteq> set (app_routers A)"

lemma post_event_json_answer:
  assumes "all_routers (cl_app C)"
    and "snd (correlation_id_middleware (cl_fresh C n) None (\<lambda>corr. post_event (cl_env C n) (\<lambda>x. x) corr event d)) = (Inr r, d')"
  shows "post_event_json C n event d = (Inr r, d')"
  using assms
  by (simp add: post_event_json_def client_request_def serve_def correlation_id_middleware_def call_route_def
      all_routers_def Let_def split: prod.splits)

lemma get_tasks_json_answer:
  assumes "all_routers (cl_app C)" and "list_tasks_route d None None (Some acct) None 20 = Inr ts"
  shows "get_tasks_json C n acct d = (Inr ts, d)"
  using assms
  by (simp add: get_tasks_json_def client_request_def serve_def correlation_id_middleware_def call_route_def
      all_routers_def Let_def)

lemma get_audit_json_answer:
  "all_routers (cl_app C) \<Longrightarrow> get_audit_json C n corr d = (Inr (list_audit_events (Some corr) d), d)"
  by (simp add: get_audit_json_def client_request_def serve_def correlation_id_middleware_def call_route_def
      all_routers_def Let_def)

lemma healthz_answer:
  assumes "all_routers (cl_app C)"
  shows "\<exists>a. client_request C n verb url Healthz d = (Inr a, d)"
  using assms
  by (auto simp: client_request_def serve_def correlation_id_middleware_def call_route_def all_routers_def Let_def)

lemma post_and_print_events:
  assumes "all_routers (cl_app C)" and "post_events (cl_env C) (cl_fresh C) n events d = (Inr rs, d')"
  shows "post_and_print C n events last_response d =
    (Inr (if rs = [] then last_response else Some (last rs)), map2 print_event_result events rs, d')
    \<and> length rs = length events"
  using assms(2)
proof (induction events arbitrary: n d rs last_response)
  case (Cons event events)
  then obtain r d1 rs' where one: "snd (correlation_id_middleware (cl_fresh C n) None
      (\<lambda>corr. post_event (cl_env C n) (\<lambda>x. x) corr event d)) = (Inr r, d1)"
    and rest: "post_events (cl_env C) (cl_fresh C) (Suc n) events d1 = (Inr rs', d')" and rs: "rs = r # rs'"
    by (auto split: sum.splits prod.splits)
  show ?case
    using post_event_json_answer [OF assms(1) one] Cons.IH [OF rest, of "Some r"] by (simp add: rs)
qed simp

text \<open>The lines a report stands for.\<close>

definition report_lines :: "demo_api_client \<Rightarrow> demo_scenario \<Rightarrow> scenario_report \<Rightarrow> string list" where
  "report_lines C scenario rep =
     print_scenario scenario @ map2 print_event_result (sc_events scenario) (sr_responses rep)
     @ (if sr_responses rep = [] then []
        else print_tasks C (as_external_id (rq_account (last (sc_events scenario)))) (sr_tasks rep)
          @ print_audit (rs_correlation_id (last (sr_responses rep))) (sr_audit rep))"

lemma play_scenario_report:
  assumes "all_routers (cl_app C)" and "run_scenario (cl_env C) (cl_fresh C) n scenario d = (Inr rep, d')"
  shows "play_scenario C n scenario d = (Inr (), report_lines C scenario rep, d')"
proof -
  from assms(2) obtain rs d1 where posted: "post_events (cl_env C) (cl_fresh C) n (sc_events scenario) d = (Inr rs, d1)"
    by (auto simp: run_scenario_def split: sum.splits prod.splits)
  note printed = post_and_print_events [OF assms(1) posted, of None]
  show ?thesis
  proof (cases "rs = []")
    case True
    then show ?thesis
      using assms(2) posted printed
      by (auto simp: run_scenario_def play_scenario_def report_lines_def)
  next
    case False
    then obtain tasks where listed: "list_tasks_route d1 None None
        (Some (as_external_id (rq_account (last (sc_events scenario))))) None 20 = Inr tasks"
      and rep: "rep = \<lparr>sr_name = sc_name scenario, sr_responses = rs, sr_tasks = tasks,
        sr_audit = list_audit_events (Some (rs_correlation_id (last rs))) d1\<rparr>" and d': "d' = d1"
      using assms(2) posted
      by (cases "list_tasks_route d1 None None (Some (as_external_id (rq_account (last (sc_events scenario))))) None 20")
        (simp_all add: run_scenario_def eq_commute)
    show ?thesis
      using printed False
      by (simp add: play_scenario_def get_tasks_json_answer [OF assms(1) listed] get_audit_json_answer [OF assms(1)]
          rep d' report_lines_def Let_def)
  qed
qed

lemma play_scenarios_reports:
  assumes "all_routers (cl_app C)" and "run_scenarios (cl_env C) (cl_fresh C) n names scenarios d = (Inr reports, d')"
  shows "play_scenarios C n names scenarios d =
    (Inr (), concat (map2 (report_lines C) (filter (\<lambda>sc. sc_name sc \<in> names) scenarios) reports), d')"
  using assms(2)
proof (induction scenarios arbitrary: n d reports)
  case (Cons scenario scenarios)
  show ?case
  proof (cases "sc_name scenario \<in> names")
    case False
    then show ?thesis using Cons by simp
  next
    case True
    then obtain rep d1 reports' where one: "run_scenario (cl_env C) (cl_fresh C) n scenario d = (Inr rep, d1)"
      and rest: "run_scenarios (cl_env C) (cl_fresh C) (n + length (sc_events scenario)) names scenarios d1 = (Inr reports', d')"
      and reports: "reports = rep # reports'"
      using Cons.prems by (auto split: sum.splits prod.splits)
    show ?thesis
      using True play_scenario_report [OF assms(1) one] Cons.IH [OF rest] by (simp add: reports)
  qed
qed simp

text \<open>A demo that runs as calls of the routes runs as a process, and prints its reports.\<close>

lemma demo_main_prints:
  assumes "all_routers (cl_app C)" and "demo_scenarios now = Inr scenarios" and "accepted_args scenarios args"
    and "demo_database_url args env_url s = served_url"
    and "seed_demo (cl_env C) (cl_fresh C) now (da_skip_reset args) (da_scenario args) (servers served_url) = (Inr reports, d')"
  shows "demo_main C args env_url s served_url now servers =
    (\<lparr>exit_code = 0, stdout_lines = (if da_skip_reset args then [] else [reset_notice])
        @ concat (map2 (report_lines (C\<lparr>cl_base_url := da_api_url args\<rparr>))
            (filter (\<lambda>sc. sc_name sc \<in> selected_scenarios scenarios (da_scenario args)) scenarios) reports)
        @ [farewell], failure = None\<rparr>, servers(served_url := d'))"
proof -
  let ?C = "C\<lparr>cl_base_url := da_api_url args\<rparr>" and ?names = "selected_scenarios scenarios (da_scenario args)"
  obtain d0 where reset: "(if da_skip_reset args then (Inr (), servers served_url) else reset_database (servers served_url)) = (Inr (), d0)"
    and run: "run_scenarios (cl_env ?C) (cl_fresh ?C) 0 ?names scenarios d0 = (Inr reports, d')"
    using assms(5) by (auto simp: seed_demo_def assms(2) split: sum.splits prod.splits if_splits)
  have routers: "all_routers (cl_app ?C)" using assms(1) by simp
  obtain a where "client_request ?C 0 ''GET'' (get_url ?C ''/healthz'' []) Healthz d0 = (Inr a, d0)"
    using healthz_answer [OF routers] by blast
  then have "client_run ?C ?names scenarios d0 =
      (Inr (), concat (map2 (report_lines ?C) (filter (\<lambda>sc. sc_name sc \<in> ?names) scenarios) reports), d')"
    by (simp add: client_run_def play_scenarios_reports [OF routers run])
  then show ?thesis
    by (simp add: demo_main_def assms(2-4) reset Let_def)
qed

end
