(* ===== verification/Demo_Properties.thy ===== *)
theory Demo_Properties
  imports Demo_Seed Event_Effects Demo_Client
begin

text \<open>
  The demo never fails and shows what its scenarios announce: whatever was in the
  database, it is emptied without a violated reference, every event is accepted, the
  customer who opts out has no task, and the payment leaves nothing scheduled.
\<close>

section \<open>The reset\<close>

lemma reset_database_empties: "reset_database d = (Inr (), empty_db\<lparr>next_uuid := next_uuid d\<rparr>)"
  by (simp add: reset_database_def RESET_MODELS_def empty_db_def)

lemma wf_after_reset: "wf_db (empty_db\<lparr>next_uuid := n\<rparr>)"
  by (simp add: wf_db_def fresh_ids_def row_ids_def unique_keys_def owners_def empty_db_def)

section \<open>The times\<close>

lemma roomy_less: "roomy n dt \<Longrightarrow> m \<le> n \<Longrightarrow> roomy m dt"
  by (auto simp: roomy_def)

lemma demo_start_roomy:
  assumes "days 20 \<le> now" and "now < days (days_in_range - 20)"
  shows "\<exists>dt. demo_start_at now = Inr dt \<and> roomy 16 dt"
proof -
  have "roomy 19 (utc_datetime now)" using assms by (simp add: roomy_def utc_datetime_def utc_def)
  then obtain t where t: "dt_add (utc_datetime now) (days 1) = Inr t" "roomy 18 t"
    using roomy_dt_add [of 19 "utc_datetime now" "days 1" 1] by auto
  obtain m where m: "dt_wall t div days 1 * days 1 = dt_wall t - m" "0 \<le> m" "m < days 1"
    using that [of "dt_wall t mod days 1"] by (simp add: minus_mod_eq_div_mult [symmetric])
  then have "roomy 16 (t\<lparr>dt_wall := dt_wall t div days 1 * days 1 + hours 15\<rparr>)"
    using t(2) by (simp add: roomy_def m(1))
  then show ?thesis using t(1) by (simp add: demo_start_at_def)
qed

lemma demo_scenarios_times:
  assumes "days 20 \<le> now" and "now < days (days_in_range - 20)"
  obtains a b c e f where
    "demo_scenarios now = Inr [happy_path a, opt_out_story b c, payment_story e f]"
    and "roomy 10 a" and "roomy 10 b" and "roomy 10 c" and "roomy 10 e" and "roomy 10 f"
proof -
  from demo_start_roomy [OF assms] obtain a where a: "demo_start_at now = Inr a" "roomy 16 a" by blast
  have later: "\<exists>t. dt_add x d = Inr t \<and> roomy (n - 1) t" if "roomy n x" "\<bar>d\<bar> \<le> days 1" "1 \<le> n" for n x d
    using roomy_dt_add [OF that(1,2)] that(3) by auto
  obtain e where e: "dt_add a (hours 1) = Inr e" "roomy 15 e" using later [OF a(2), of "hours 1"] by auto
  obtain b where b: "dt_add a (minutes 10) = Inr b" "roomy 15 b" using later [OF a(2), of "minutes 10"] by auto
  obtain c where c: "dt_add a (minutes 20) = Inr c" "roomy 15 c" using later [OF a(2), of "minutes 20"] by auto
  obtain f where f: "dt_add e (minutes 15) = Inr f" "roomy 14 f" using later [OF e(2), of "minutes 15"] by auto
  show thesis
    by (rule that [of a b c e f])
      (use a b c e f in \<open>auto simp: demo_scenarios_def intro: roomy_less\<close>)
qed

section \<open>One request of the demo\<close>

definition demo_names :: "(string \<times> string) set" where
  "demo_names = {(''acct_demo_jane_doe'', ''cust_demo_jane_doe''), (''acct_demo_sam_taylor'', ''cust_demo_sam_taylor''),
     (''acct_demo_maria_santos'', ''cust_demo_maria_santos'')}"

definition demo_event_ids :: "string set" where
  "demo_event_ids = {''evt_demo_happy_path_delinquent'', ''evt_demo_opt_out_received'',
     ''evt_demo_opt_out_followup_delinquent'', ''evt_demo_payment_before_delinquent'', ''evt_demo_payment_received''}"

text \<open>A digest that has the length of SHA-256 and does not collide on the events of the demo.\<close>

definition demo_digest :: "(string \<Rightarrow> string) \<Rightarrow> bool" where
  "demo_digest h \<longleftrightarrow> (\<forall>s. length (h s) = 64)
     \<and> inj_on h ((\<lambda>x. ''demo_script'' @ [CHR 0x1F] @ x) ` demo_event_ids)"

definition demo_env :: "(string \<Rightarrow> string) \<Rightarrow> env \<Rightarrow> bool" where
  "demo_env h E \<longleftrightarrow> sha256_hexdigest E = h \<and> fair_scan E
     \<and> (case tzdb E ''America/New_York'' of Inl e \<Rightarrow> False | Inr z \<Rightarrow> zone_sane z)"

definition demo_event :: "event_request \<Rightarrow> bool" where
  "demo_event ev \<longleftrightarrow> rq_source ev = ''demo_script'' \<and> rq_external_id ev \<in> demo_event_ids
     \<and> (as_external_id (rq_account ev), cs_external_id (rq_customer ev)) \<in> demo_names
     \<and> cs_timezone (rq_customer ev) = ''America/New_York''
     \<and> as_balance_cents (rq_account ev) < 2 ^ 31 \<and> as_days_past_due (rq_account ev) < 2 ^ 31
     \<and> (case rq_occurred_at ev of Naive w \<Rightarrow> False | Aware dt \<Rightarrow> roomy 10 dt)
     \<and> (\<forall>E. (case tzdb E ''America/New_York'' of Inl e \<Rightarrow> False | Inr z \<Rightarrow> zone_sane z)
          \<longrightarrow> inbound_event_request E ev = Inr ev)"

lemmas demo_event_defs = account_delinquent_event_def opt_out_event_def payment_received_event_def demo_customer_def

lemma demo_events:
  assumes "roomy 10 a" and "roomy 10 b" and "roomy 10 c" and "roomy 10 e" and "roomy 10 f"
  shows "Ball (set (sc_events (happy_path a))) demo_event"
    and "Ball (set (sc_events (opt_out_story b c))) demo_event"
    and "Ball (set (sc_events (payment_story e f))) demo_event"
  using assms
  by (auto simp: happy_path_def opt_out_story_def payment_story_def demo_event_def demo_event_defs
      demo_names_def demo_event_ids_def inbound_event_request_def customer_snapshot_request_def
      account_snapshot_request_def validate_timezone_def identity_field_def sized_field_def optional_field_def
      EVENT_TYPES_def split: sum.splits)

lemma demo_names_function: "(x, y) \<in> demo_names \<Longrightarrow> (x, z) \<in> demo_names \<Longrightarrow> y = z"
  by (auto simp: demo_names_def)

lemma demo_keys_differ:
  assumes "demo_digest h" and "demo_env h E" and "x \<in> demo_event_ids" and "y \<in> demo_event_ids"
    and "inbound_event_idempotency_key E ''demo_script'' x = inbound_event_idempotency_key E ''demo_script'' y"
  shows "x = y"
proof -
  have "h (''demo_script'' @ [CHR 0x1F] @ x) = h (''demo_script'' @ [CHR 0x1F] @ y)"
    using assms(2,5) by (simp add: inbound_event_idempotency_key_def demo_env_def)
  then have "''demo_script'' @ [CHR 0x1F] @ x = ''demo_script'' @ [CHR 0x1F] @ y"
    using assms(1,3,4) unfolding demo_digest_def by (blast dest: inj_onD)
  then show ?thesis by simp
qed

text \<open>The databases the demo works on: only its own events and accounts.\<close>

definition demo_db :: "string set \<Rightarrow> env \<Rightarrow> db \<Rightarrow> bool" where
  "demo_db K E d \<longleftrightarrow> wf_db d \<and> names_within demo_names d \<and> keys_within (Pair ''demo_script'' ` K) E d \<and> K \<subseteq> demo_event_ids"

lemma demo_db_env: "demo_db K E d \<Longrightarrow> demo_env h E \<Longrightarrow> demo_env h E' \<Longrightarrow> demo_db K E' d"
  by (simp add: demo_db_def keys_within_def demo_env_def inbound_event_idempotency_key_def)

lemma demo_db_new: "demo_db K E d \<Longrightarrow> x \<notin> K \<Longrightarrow> find_existing_event d ''demo_script'' x = None"
  by (auto simp: demo_db_def keys_within_def find_existing_event_def find_None_ball)

lemma demo_post:
  assumes "demo_digest h" and "demo_env h E" and "demo_db K E d" and "demo_event ev"
  obtains r r0 s where "post_event E (\<lambda>x. x) corr ev d = (Inr r, store s)" and "rs_status r = ''accepted''"
    and "ingest_event_snapshot E (\<lambda>x. x) (rq_source ev) (rq_external_id ev) (rq_event_type ev) (rq_customer ev)
        (rq_account ev) (rq_occurred_at ev) (rq_metadata ev) corr (open_session d) = (Inr r0, s)"
    and "demo_db (insert (rq_external_id ev) K) E (store s)"
proof -
  have wf: "wf_db d" and names: "names_within demo_names d" and keys: "keys_within (Pair ''demo_script'' ` K) E d"
    and K: "K \<subseteq> demo_event_ids" using assms(3) by (simp_all add: demo_db_def)
  have ev: "rq_source ev = ''demo_script''" "rq_external_id ev \<in> demo_event_ids"
    "(as_external_id (rq_account ev), cs_external_id (rq_customer ev)) \<in> demo_names"
    using assms(4) by (simp_all add: demo_event_def)
  have valid: "inbound_event_request E ev = Inr ev" using assms(2,4) by (simp add: demo_event_def demo_env_def)
  obtain res d' where run: "post_event E (\<lambda>x. x) corr ev d = (res, d')" by fastforce
  have moved: False if "a \<in> set (accounts d)" "acct_external_id a = as_external_id (rq_account ev)"
    "(acct_customer_id a, cs_external_id (rq_customer ev)) \<notin> (\<lambda>c. (cust_id c, cust_external_id c)) ` set (customers d)" for a
  proof -
    have "set (map acct_customer_id (accounts d)) \<subseteq> set (map cust_id (customers d))" using wf by (simp add: wf_db_def)
    then have "acct_customer_id a \<in> set (map cust_id (customers d))" using that(1) by auto
    then obtain c where c: "c \<in> set (customers d)" "cust_id c = acct_customer_id a" by auto
    then have "(as_external_id (rq_account ev), cust_external_id c) \<in> demo_names"
      using names that(1,2) by (auto simp: names_within_def)
    then have "cust_external_id c = cs_external_id (rq_customer ev)" using demo_names_function ev(3) by blast
    with that(3) c show False by force
  qed
  have collide: False if "e \<in> set (inbound_events d)"
    "(ev_source e, ev_external_id e) \<noteq> (rq_source ev, rq_external_id ev)"
    "ev_idempotency_key e = inbound_event_idempotency_key E (rq_source ev) (rq_external_id ev)" for e
  proof -
    from keys that(1) obtain x where x: "x \<in> K" "ev_source e = ''demo_script''" "ev_external_id e = x"
      and "ev_idempotency_key e = inbound_event_idempotency_key E ''demo_script'' x"
      by (auto simp: keys_within_def)
    with demo_keys_differ [OF assms(1,2) _ ev(2), of x] K that(2,3) ev(1) show False by auto
  qed
  have "\<exists>r. res = Inr r \<and> rs_status r = ''accepted''"
    using valid_event_answer [OF wf _ valid _ _ run] assms(1,2,4) moved collide
    by (force simp: demo_digest_def demo_env_def demo_event_def split: sum.splits)
  then obtain r where r: "res = Inr r" "rs_status r = ''accepted''" by blast
  obtain rr s where ing: "ingest_event_snapshot E (\<lambda>x. x) (rq_source ev) (rq_external_id ev) (rq_event_type ev)
      (rq_customer ev) (rq_account ev) (rq_occurred_at ev) (rq_metadata ev) corr (open_session d) = (rr, s)" by fastforce
  then obtain r0 where r0: "rr = Inr r0" "d' = store s"
    using run r(1) valid by (auto simp: post_event_def ingest_event_def split: sum.splits py_error.splits)
  note ing = ing [unfolded r0(1)] and fair = assms(2) [unfolded demo_env_def, THEN conjunct2, THEN conjunct1]
  have "wf_db (store s)" using ingest_history(1) [OF wf fair ing] .
  moreover from this have "names_within demo_names (store s)" using ingest_names [OF wf _ fair ing names ev(3)] by simp
  moreover have "keys_within (Pair ''demo_script'' ` insert (rq_external_id ev) K) E (store s)"
    using ingest_keys [OF wf fair ing keys] ev(1) by simp
  ultimately have "demo_db (insert (rq_external_id ev) K) E (store s)" using K ev(2) by (simp add: demo_db_def)
  with run r r0 ing that show thesis by simp
qed

section \<open>The scenarios\<close>

abbreviation sam :: string where
  "sam \<equiv> ''acct_demo_sam_taylor''"

abbreviation maria :: string where
  "maria \<equiv> ''acct_demo_maria_santos''"

text \<open>Between the scenarios nobody has made a task for the account of the opt-out story.\<close>

definition demo_state :: "string set \<Rightarrow> env \<Rightarrow> db \<Rightarrow> bool" where
  "demo_state K E d \<longleftrightarrow> demo_db K E d \<and> tasks_within (- {sam}) d"

lemma demo_state_mono: "demo_state K E d \<Longrightarrow> K \<subseteq> L \<Longrightarrow> L \<subseteq> demo_event_ids \<Longrightarrow> demo_state L E d"
  by (auto simp: demo_state_def demo_db_def intro: keys_within_mono)

text \<open>A run of posts that ends in a consistent database is reported.\<close>

lemma run_scenario_report:
  assumes "post_events E fresh n (sc_events sc) d = (Inr rs, d')" and "rs \<noteq> []" and "wf_db d'"
  obtains ts rows where "run_scenario E fresh n sc d =
      (Inr \<lparr>sr_name = sc_name sc, sr_responses = rs, sr_tasks = ts, sr_audit = rows\<rparr>, d')"
    and "list_all2 (shows_task d') (list_tasks d' None None
      (Some (as_external_id (rq_account (last (sc_events sc))))) None 20) ts"
proof -
  let ?x = "as_external_id (rq_account (last (sc_events sc)))"
  obtain ts where "list_tasks_route d' None None (Some ?x) None 20 = Inr ts"
      "list_all2 (shows_task d') (list_tasks d' None None (Some ?x) None (nat 20)) ts"
    by (rule list_tasks_route_total [of d' 20 None None "Some ?x" None]) (use assms(3) in simp_all)
  with assms(1,2) that show thesis by (simp add: run_scenario_def)
qed

lemma listed_task_account:
  assumes "t \<in> set (list_tasks d None None (Some x) None limit)"
  obtains a where "t \<in> set (outreach_tasks d)" and "a \<in> set (accounts d)" and "acct_id a = task_account_id t"
    and "acct_external_id a = x"
  using list_tasks_selected [OF assms] that
  by (auto simp: apply_task_filters_def dest: find_Some_in)

lemma no_tasks_listed:
  assumes "tasks_within (- {x}) d" and "list_all2 (shows_task d) (list_tasks d None None (Some x) None limit) ts"
  shows "ts = []"
proof -
  have "t \<notin> set (list_tasks d None None (Some x) None limit)" for t
    using assms(1) by (auto elim!: listed_task_account simp: tasks_within_def)
  then have "list_tasks d None None (Some x) None limit = []" by (metis last_in_set)
  with assms(2) show ?thesis by simp
qed

lemma none_scheduled_listed:
  assumes "no_scheduled_task x d" and "list_all2 (shows_task d) (list_tasks d None None (Some x) None limit) ts"
  shows "SCHEDULED \<notin> tr_status ` set ts"
proof
  assume "SCHEDULED \<in> tr_status ` set ts"
  then obtain r where r: "r \<in> set ts" "tr_status r = SCHEDULED" by auto
  from list_all2_in_right [OF assms(2) r(1)] obtain t where
    t: "t \<in> set (list_tasks d None None (Some x) None limit)" and "task_response d t = Inr r"
    by (auto simp: shows_task_def)
  with r(2) have "task_status t = SCHEDULED" by (auto simp: task_response_def split: option.splits)
  with t assms(1) show False by (auto elim!: listed_task_account simp: no_scheduled_task_def)
qed

lemma post_events_Cons:
  assumes "post_event (E n) (\<lambda>x. x) (fresh n) ev d = (Inr r, d1)"
    and "post_events E fresh (Suc n) evs d1 = (Inr rs, d2)"
  shows "post_events E fresh n (ev # evs) d = (Inr (r # rs), d2)"
  using assms by (simp add: correlation_id_middleware_def correlation_id_from_header_def)

text \<open>What a scenario announces about its report.\<close>

definition as_announced :: "scenario_report \<Rightarrow> bool" where
  "as_announced rep \<longleftrightarrow> rs_status ` set (sr_responses rep) \<subseteq> {''accepted''}
     \<and> (sr_name rep = ''opt_out_blocks_future_outreach'' \<longrightarrow> sr_tasks rep = [])
     \<and> (sr_name rep = ''payment_received_cancels_scheduled_outreach'' \<longrightarrow> SCHEDULED \<notin> tr_status ` set (sr_tasks rep))"

text \<open>The ingestion behind a request.\<close>

definition ingested :: "env \<Rightarrow> uuid \<Rightarrow> event_request \<Rightarrow> db \<Rightarrow> db \<Rightarrow> bool" where
  "ingested E corr ev d d' \<longleftrightarrow> (\<exists>r s. ingest_event_snapshot E (\<lambda>x. x) (rq_source ev) (rq_external_id ev)
     (rq_event_type ev) (rq_customer ev) (rq_account ev) (rq_occurred_at ev) (rq_metadata ev) corr (open_session d)
       = (Inr r, s) \<and> d' = store s)"

lemma demo_step:
  assumes "demo_digest h" and "\<And>n. demo_env h (E n)" and "demo_db K (E 0) d" and "demo_event ev"
  shows "\<exists>r d'. post_event (E n) (\<lambda>x. x) corr ev d = (Inr r, d') \<and> rs_status r = ''accepted''
    \<and> ingested (E n) corr ev d d' \<and> demo_db (insert (rq_external_id ev) K) (E 0) d'"
proof -
  have db: "demo_db K (E n) d" using demo_db_env [OF assms(3), of h "E n"] assms(2) by blast
  show ?thesis
  proof (rule demo_post [OF assms(1,2) db assms(4), of corr])
    fix r r0 s
    assume *: "post_event (E n) (\<lambda>x. x) corr ev d = (Inr r, store s)" "rs_status r = ''accepted''"
      "ingest_event_snapshot (E n) (\<lambda>x. x) (rq_source ev) (rq_external_id ev) (rq_event_type ev) (rq_customer ev)
        (rq_account ev) (rq_occurred_at ev) (rq_metadata ev) corr (open_session d) = (Inr r0, s)"
      "demo_db (insert (rq_external_id ev) K) (E n) (store s)"
    have "demo_db (insert (rq_external_id ev) K) (E 0) (store s)"
      using demo_db_env [OF *(4), of h "E 0"] assms(2) by blast
    moreover have "ingested (E n) corr ev d (store s)" using *(3) by (auto simp: ingested_def)
    ultimately show ?thesis using *(1,2) by blast
  qed
qed

text \<open>Its effects on tasks.\<close>

lemma ingested_tasks:
  assumes "ingested E corr ev d d'" and "demo_env h E" and "wf_db d" and "tasks_within A d"
    and "as_external_id (rq_account ev) \<in> A \<or> opted_out_name (cs_external_id (rq_customer ev)) d
      \<or> rq_event_type ev \<in> state_event_types \<and> find_existing_event d (rq_source ev) (rq_external_id ev) = None"
  shows "tasks_within A d'"
proof -
  from assms(1) obtain r s where d': "d' = store s" and run: "ingest_event_snapshot E (\<lambda>x. x) (rq_source ev)
      (rq_external_id ev) (rq_event_type ev) (rq_customer ev) (rq_account ev) (rq_occurred_at ev) (rq_metadata ev)
      corr (open_session d) = (Inr r, s)" by (auto simp: ingested_def)
  have fair: "fair_scan E" using assms(2) by (simp add: demo_env_def)
  have "as_external_id (rq_account ev) \<in> A
      \<or> task_id ` set (outreach_tasks (store s)) \<subseteq> task_id ` set (outreach_tasks d)"
    using assms(5) opted_out_no_new_task [OF assms(3) fair _ _ _ run]
      ingest_state_event(1) [OF assms(3) fair _ run] by (auto simp: opted_out_name_def)
  with ingest_tasks [OF assms(3) fair run assms(4)] show ?thesis by (simp add: d')
qed

lemma ingested_state_event:
  assumes "ingested E corr ev d d'" and "demo_env h E" and "wf_db d" and "rq_event_type ev \<in> state_event_types"
    and "find_existing_event d (rq_source ev) (rq_external_id ev) = None"
  shows "no_scheduled_task (as_external_id (rq_account ev)) d'"
    and "rq_event_type ev = ''opt_out_received'' \<Longrightarrow> opted_out_name (cs_external_id (rq_customer ev)) d'"
  using assms ingest_state_event(2,3) by (auto simp: ingested_def demo_env_def)

lemma demo_state_keys: "demo_state K E d \<Longrightarrow> x \<notin> K \<Longrightarrow> find_existing_event d ''demo_script'' x = None"
  by (auto simp: demo_state_def intro: demo_db_new)

lemma run_happy_path:
  assumes "demo_digest h" and "\<And>n. demo_env h (E n)" and "demo_state K (E 0) d" and "roomy 10 a"
  shows "\<exists>rep d'. run_scenario E fresh n (happy_path a) d = (Inr rep, d')
    \<and> sr_name rep = sc_name (happy_path a) \<and> as_announced rep
    \<and> demo_state (insert ''evt_demo_happy_path_delinquent'' K) (E 0) d'"
proof -
  have "\<exists>ev. sc_events (happy_path a) = [ev] \<and> rq_external_id ev = ''evt_demo_happy_path_delinquent''
      \<and> as_external_id (rq_account ev) \<in> - {sam}"
    by (simp add: happy_path_def account_delinquent_event_def)
  then obtain ev where evs: "sc_events (happy_path a) = [ev]" "rq_external_id ev = ''evt_demo_happy_path_delinquent''"
    "as_external_id (rq_account ev) \<in> - {sam}" by blast
  have ev: "demo_event ev" using demo_events(1) [OF assms(4,4,4,4,4)] by (simp add: evs(1))
  have db: "demo_db K (E 0) d" and within: "tasks_within (- {sam}) d" and wf: "wf_db d"
    using assms(3) by (simp_all add: demo_state_def demo_db_def)
  obtain r d' where post: "post_event (E n) (\<lambda>x. x) (fresh n) ev d = (Inr r, d')" "rs_status r = ''accepted''"
    and ing: "ingested (E n) (fresh n) ev d d'" and db': "demo_db (insert (rq_external_id ev) K) (E 0) d'"
    using demo_step [of h E K d ev n "fresh n"] assms(1,2) db ev by blast
  have state: "demo_state (insert ''evt_demo_happy_path_delinquent'' K) (E 0) d'"
    using ingested_tasks [OF ing assms(2) wf within] evs(3) db' [unfolded evs(2)] by (simp add: demo_state_def)
  have posts: "post_events E fresh n (sc_events (happy_path a)) d = (Inr [r], d')"
    using post_events_Cons [of E n fresh ev d r d' "[]" "[]" d'] post(1) by (simp add: evs(1))
  have "wf_db d'" using db' by (simp add: demo_db_def)
  from run_scenario_report [OF posts _ this] obtain ts rows where "run_scenario E fresh n (happy_path a) d =
      (Inr \<lparr>sr_name = sc_name (happy_path a), sr_responses = [r], sr_tasks = ts, sr_audit = rows\<rparr>, d')"
    by blast
  with state post(2) show ?thesis by (simp add: as_announced_def happy_path_def)
qed

lemma run_opt_out_story:
  assumes "demo_digest h" and "\<And>n. demo_env h (E n)" and "demo_state K (E 0) d" and "roomy 10 b" and "roomy 10 c"
    and "''evt_demo_opt_out_received'' \<notin> K"
  shows "\<exists>rep d'. run_scenario E fresh n (opt_out_story b c) d = (Inr rep, d')
    \<and> sr_name rep = sc_name (opt_out_story b c) \<and> as_announced rep
    \<and> demo_state ({''evt_demo_opt_out_received'', ''evt_demo_opt_out_followup_delinquent''} \<union> K) (E 0) d'"
proof -
  have "\<exists>ev ev'. sc_events (opt_out_story b c) = [ev, ev'] \<and> rq_source ev = ''demo_script''
      \<and> rq_external_id ev = ''evt_demo_opt_out_received'' \<and> rq_event_type ev = ''opt_out_received''
      \<and> rq_external_id ev' = ''evt_demo_opt_out_followup_delinquent''
      \<and> cs_external_id (rq_customer ev') = cs_external_id (rq_customer ev) \<and> as_external_id (rq_account ev') = sam"
    by (simp add: opt_out_story_def demo_event_defs)
  then obtain ev ev' where evs: "sc_events (opt_out_story b c) = [ev, ev']"
    and e: "rq_source ev = ''demo_script''" "rq_external_id ev = ''evt_demo_opt_out_received''"
      "rq_event_type ev = ''opt_out_received''"
    and e': "rq_external_id ev' = ''evt_demo_opt_out_followup_delinquent''"
      "cs_external_id (rq_customer ev') = cs_external_id (rq_customer ev)" "as_external_id (rq_account ev') = sam"
    by blast
  have ev: "demo_event ev" "demo_event ev'" using demo_events(2) [OF assms(4,4,5,4,4)] by (simp_all add: evs)
  have db: "demo_db K (E 0) d" and within: "tasks_within (- {sam}) d" and wf: "wf_db d"
    using assms(3) by (simp_all add: demo_state_def demo_db_def)
  have new: "find_existing_event d (rq_source ev) (rq_external_id ev) = None"
    unfolding e using assms(3,6) by (rule demo_state_keys)
  have type: "rq_event_type ev \<in> state_event_types" by (simp add: e state_event_types_def)
  obtain r d1 where post: "post_event (E n) (\<lambda>x. x) (fresh n) ev d = (Inr r, d1)" "rs_status r = ''accepted''"
    and ing: "ingested (E n) (fresh n) ev d d1" and db1: "demo_db (insert (rq_external_id ev) K) (E 0) d1"
    using demo_step [of h E K d ev n "fresh n"] assms(1,2) db ev(1) by blast
  obtain r' d2 where post': "post_event (E (Suc n)) (\<lambda>x. x) (fresh (Suc n)) ev' d1 = (Inr r', d2)"
      "rs_status r' = ''accepted''"
    and ing': "ingested (E (Suc n)) (fresh (Suc n)) ev' d1 d2"
    and db2: "demo_db (insert (rq_external_id ev') (insert (rq_external_id ev) K)) (E 0) d2"
    using demo_step [of h E _ d1 ev' "Suc n" "fresh (Suc n)"] assms(1,2) db1 ev(2) by blast
  have wf1: "wf_db d1" and wf2: "wf_db d2" using db1 db2 by (simp_all add: demo_db_def)
  have "tasks_within (- {sam}) d1" using ingested_tasks [OF ing assms(2) wf within] new type by blast
  moreover have "opted_out_name (cs_external_id (rq_customer ev)) d1"
    using ingested_state_event(2) [OF ing assms(2) wf type new] e(3) .
  ultimately have within2: "tasks_within (- {sam}) d2"
    using ingested_tasks [OF ing' assms(2) wf1] e'(2) by simp
  then have state: "demo_state ({''evt_demo_opt_out_received'', ''evt_demo_opt_out_followup_delinquent''} \<union> K) (E 0) d2"
    using db2 by (simp add: demo_state_def e e' insert_commute)
  have posts: "post_events E fresh n (sc_events (opt_out_story b c)) d = (Inr [r, r'], d2)"
    using post_events_Cons [of E "Suc n" fresh ev' d1 r' d2 "[]" "[]" d2]
      post_events_Cons [of E n fresh ev d r d1 "[ev']" "[r']" d2] post(1) post'(1) by (simp add: evs)
  from run_scenario_report [OF posts _ wf2] obtain ts rows where run: "run_scenario E fresh n (opt_out_story b c) d =
      (Inr \<lparr>sr_name = sc_name (opt_out_story b c), sr_responses = [r, r'], sr_tasks = ts, sr_audit = rows\<rparr>, d2)"
    and ts: "list_all2 (shows_task d2) (list_tasks d2 None None (Some sam) None 20) ts"
    using e'(3) by (auto simp: evs)
  have "ts = []" using within2 ts by (rule no_tasks_listed)
  with run state post(2) post'(2) show ?thesis by (simp add: as_announced_def opt_out_story_def)
qed

lemma run_payment_story:
  assumes "demo_digest h" and "\<And>n. demo_env h (E n)" and "demo_state K (E 0) d" and "roomy 10 e" and "roomy 10 f"
    and "''evt_demo_payment_received'' \<notin> K"
  shows "\<exists>rep d'. run_scenario E fresh n (payment_story e f) d = (Inr rep, d')
    \<and> sr_name rep = sc_name (payment_story e f) \<and> as_announced rep
    \<and> demo_state ({''evt_demo_payment_before_delinquent'', ''evt_demo_payment_received''} \<union> K) (E 0) d'"
proof -
  have "\<exists>ev ev'. sc_events (payment_story e f) = [ev, ev'] \<and> as_external_id (rq_account ev) = maria
      \<and> rq_external_id ev = ''evt_demo_payment_before_delinquent'' \<and> rq_source ev' = ''demo_script''
      \<and> rq_external_id ev' = ''evt_demo_payment_received'' \<and> rq_event_type ev' = ''payment_received''
      \<and> as_external_id (rq_account ev') = maria"
    by (simp add: payment_story_def demo_event_defs)
  then obtain ev ev' where evs: "sc_events (payment_story e f) = [ev, ev']"
    and e: "as_external_id (rq_account ev) = maria" "rq_external_id ev = ''evt_demo_payment_before_delinquent''"
    and e': "rq_source ev' = ''demo_script''" "rq_external_id ev' = ''evt_demo_payment_received''"
      "rq_event_type ev' = ''payment_received''" "as_external_id (rq_account ev') = maria"
    by blast
  have ev: "demo_event ev" "demo_event ev'" using demo_events(3) [OF assms(4,4,4,4,5)] by (simp_all add: evs)
  have db: "demo_db K (E 0) d" and within: "tasks_within (- {sam}) d" and wf: "wf_db d"
    using assms(3) by (simp_all add: demo_state_def demo_db_def)
  obtain r d1 where post: "post_event (E n) (\<lambda>x. x) (fresh n) ev d = (Inr r, d1)" "rs_status r = ''accepted''"
    and ing: "ingested (E n) (fresh n) ev d d1" and db1: "demo_db (insert (rq_external_id ev) K) (E 0) d1"
    using demo_step [of h E K d ev n "fresh n"] assms(1,2) db ev(1) by blast
  obtain r' d2 where post': "post_event (E (Suc n)) (\<lambda>x. x) (fresh (Suc n)) ev' d1 = (Inr r', d2)"
      "rs_status r' = ''accepted''"
    and ing': "ingested (E (Suc n)) (fresh (Suc n)) ev' d1 d2"
    and db2: "demo_db (insert (rq_external_id ev') (insert (rq_external_id ev) K)) (E 0) d2"
    using demo_step [of h E _ d1 ev' "Suc n" "fresh (Suc n)"] assms(1,2) db1 ev(2) by blast
  have wf1: "wf_db d1" and wf2: "wf_db d2" using db1 db2 by (simp_all add: demo_db_def)
  have new: "find_existing_event d1 (rq_source ev') (rq_external_id ev') = None"
    unfolding e' by (rule demo_db_new [OF db1]) (use assms(6) in \<open>simp add: e\<close>)
  have type: "rq_event_type ev' \<in> state_event_types" by (simp add: e' state_event_types_def)
  have "tasks_within (- {sam}) d1" using ingested_tasks [OF ing assms(2) wf within] by (simp add: e)
  then have "tasks_within (- {sam}) d2" using ingested_tasks [OF ing' assms(2) wf1] by (simp add: e')
  then have state: "demo_state ({''evt_demo_payment_before_delinquent'', ''evt_demo_payment_received''} \<union> K) (E 0) d2"
    using db2 by (simp add: demo_state_def e e' insert_commute)
  have posts: "post_events E fresh n (sc_events (payment_story e f)) d = (Inr [r, r'], d2)"
    using post_events_Cons [of E "Suc n" fresh ev' d1 r' d2 "[]" "[]" d2]
      post_events_Cons [of E n fresh ev d r d1 "[ev']" "[r']" d2] post(1) post'(1) by (simp add: evs)
  from run_scenario_report [OF posts _ wf2] obtain ts rows where run: "run_scenario E fresh n (payment_story e f) d =
      (Inr \<lparr>sr_name = sc_name (payment_story e f), sr_responses = [r, r'], sr_tasks = ts, sr_audit = rows\<rparr>, d2)"
    and ts: "list_all2 (shows_task d2) (list_tasks d2 None None (Some maria) None 20) ts"
    using e'(4) by (auto simp: evs)
  have "no_scheduled_task maria d2" using ingested_state_event(1) [OF ing' assms(2) wf1 type new] by (simp add: e')
  from this ts have "SCHEDULED \<notin> tr_status ` set ts" by (rule none_scheduled_listed)
  with run state post(2) post'(2) show ?thesis by (simp add: as_announced_def payment_story_def)
qed

section \<open>The whole demo\<close>

definition plays :: "(nat \<Rightarrow> env) \<Rightarrow> (nat \<Rightarrow> uuid) \<Rightarrow> string set \<Rightarrow> demo_scenario list \<Rightarrow> string set \<Rightarrow> bool" where
  "plays E fresh names scs K \<longleftrightarrow> (\<forall>n d. demo_state K (E 0) d \<longrightarrow>
     (\<exists>reports d'. run_scenarios E fresh n names scs d = (Inr reports, d') \<and> wf_db d'
        \<and> list_all as_announced reports \<and> map sr_name reports = filter (\<lambda>x. x \<in> names) (map sc_name scs)))"

lemma plays_Nil: "plays E fresh names [] K"
  by (simp add: plays_def demo_state_def demo_db_def)

text \<open>A scenario that is left out leaves its events unused.\<close>

lemma plays_Cons:
  assumes "plays E fresh names scs (L \<union> K)" and "L \<union> K \<subseteq> demo_event_ids"
    and "\<And>n d. demo_state K (E 0) d \<Longrightarrow> \<exists>rep d'. run_scenario E fresh n sc d = (Inr rep, d')
      \<and> sr_name rep = sc_name sc \<and> as_announced rep \<and> demo_state (L \<union> K) (E 0) d'"
  shows "plays E fresh names (sc # scs) K"
  unfolding plays_def
proof (intro allI impI)
  fix n d assume start: "demo_state K (E 0) d"
  have rest: "\<exists>reports d'. run_scenarios E fresh m names scs x = (Inr reports, d') \<and> wf_db d'
      \<and> list_all as_announced reports \<and> map sr_name reports = filter (\<lambda>x. x \<in> names) (map sc_name scs)"
    if "demo_state (L \<union> K) (E 0) x" for m x
    using assms(1) that unfolding plays_def by blast
  show "\<exists>reports d'. run_scenarios E fresh n names (sc # scs) d = (Inr reports, d') \<and> wf_db d'
      \<and> list_all as_announced reports \<and> map sr_name reports = filter (\<lambda>x. x \<in> names) (map sc_name (sc # scs))"
  proof (cases "sc_name sc \<in> names")
    case False
    have "demo_state (L \<union> K) (E 0) d" using demo_state_mono [OF start _ assms(2)] by simp
    from rest [OF this] show ?thesis using False by simp
  next
    case True
    from assms(3) [OF start] obtain rep d1 where one: "run_scenario E fresh n sc d = (Inr rep, d1)"
      "sr_name rep = sc_name sc" "as_announced rep" and state: "demo_state (L \<union> K) (E 0) d1" by blast
    from rest [OF state, of "n + length (sc_events sc)"] obtain reports d2 where
      "run_scenarios E fresh (n + length (sc_events sc)) names scs d1 = (Inr reports, d2)" "wf_db d2"
      "list_all as_announced reports" "map sr_name reports = filter (\<lambda>x. x \<in> names) (map sc_name scs)" by blast
    with one True show ?thesis by (intro exI [of _ "rep # reports"] exI [of _ d2]) simp
  qed
qed

lemma demo_plays:
  assumes "demo_digest h" and "\<And>n. demo_env h (E n)" and "roomy 10 a" and "roomy 10 b" and "roomy 10 c"
    and "roomy 10 e" and "roomy 10 f"
  shows "plays E fresh names [happy_path a, opt_out_story b c, payment_story e f] {}"
proof -
  let ?happy = "{''evt_demo_happy_path_delinquent''}"
  let ?opt_out = "{''evt_demo_opt_out_received'', ''evt_demo_opt_out_followup_delinquent''}"
  let ?payment = "{''evt_demo_payment_before_delinquent'', ''evt_demo_payment_received''}"
  have 3: "plays E fresh names [payment_story e f] (?opt_out \<union> (?happy \<union> {}))"
    by (rule plays_Cons [of E fresh names _ ?payment "?opt_out \<union> (?happy \<union> {})", OF plays_Nil],
        simp add: demo_event_ids_def,
        rule run_payment_story [of h E _ _ e f fresh, OF assms(1,2) _ assms(6,7)]) simp_all
  have 2: "plays E fresh names [opt_out_story b c, payment_story e f] (?happy \<union> {})"
    by (rule plays_Cons [of E fresh names _ ?opt_out "?happy \<union> {}", OF 3],
        simp add: demo_event_ids_def,
        rule run_opt_out_story [of h E _ _ b c fresh, OF assms(1,2) _ assms(4,5)]) simp_all
  show ?thesis
    using run_happy_path [of h E _ _ a fresh, OF assms(1,2) _ assms(3)]
    by (intro plays_Cons [of E fresh names _ ?happy "{}", OF 2]) (simp_all add: demo_event_ids_def)
qed

text \<open>The scenarios by name.\<close>

definition demo_story_names :: "string list" where
  "demo_story_names = [''happy_path_delinquent_account'', ''opt_out_blocks_future_outreach'',
     ''payment_received_cancels_scheduled_outreach'']"

text \<open>The run as calls of the routes.\<close>

lemma seed_demo_runs:
  assumes "\<And>s. length (h s) = 64"
    and "inj_on h ((\<lambda>x. ''demo_script'' @ [CHR 0x1F] @ x) ` demo_event_ids)"
    and "\<And>n. sha256_hexdigest (E n) = h \<and> fair_scan (E n)"
    and "\<And>n. \<exists>z. tzdb (E n) ''America/New_York'' = Inr z \<and> zone_sane z"
    and "days 20 \<le> now" and "now < days (days_in_range - 20)"
  shows "\<exists>reports d'. seed_demo E fresh now False values d = (Inr reports, d') \<and> wf_db d'
    \<and> map sr_name reports =
        filter (\<lambda>name. values = None \<or> ''all'' \<in> set (the values) \<or> name \<in> set (the values))
          [''happy_path_delinquent_account'', ''opt_out_blocks_future_outreach'',
           ''payment_received_cancels_scheduled_outreach'']
    \<and> (\<forall>rep\<in>set reports. rs_status ` set (sr_responses rep) \<subseteq> {''accepted''}
        \<and> (sr_name rep = ''opt_out_blocks_future_outreach'' \<longrightarrow> sr_tasks rep = [])
        \<and> (sr_name rep = ''payment_received_cancels_scheduled_outreach'' \<longrightarrow>
             SCHEDULED \<notin> tr_status ` set (sr_tasks rep)))"
proof -
  have digest: "demo_digest h" using assms(1,2) by (simp add: demo_digest_def)
  have env: "demo_env h (E n)" for n using assms(3,4) [of n] by (auto simp: demo_env_def)
  obtain a b c e f where scs: "demo_scenarios now = Inr [happy_path a, opt_out_story b c, payment_story e f]"
    and room: "roomy 10 a" "roomy 10 b" "roomy 10 c" "roomy 10 e" "roomy 10 f"
    by (rule demo_scenarios_times [OF assms(5,6)])
  let ?names = "selected_scenarios [happy_path a, opt_out_story b c, payment_story e f] values"
  let ?d0 = "empty_db\<lparr>next_uuid := next_uuid d\<rparr>"
  have names: "sc_name (happy_path a) = ''happy_path_delinquent_account''"
    "sc_name (opt_out_story b c) = ''opt_out_blocks_future_outreach''"
    "sc_name (payment_story e f) = ''payment_received_cancels_scheduled_outreach''"
    by (simp_all add: happy_path_def opt_out_story_def payment_story_def)
  have start: "demo_state {} (E 0) ?d0"
    using wf_after_reset [of "next_uuid d"]
    by (simp add: demo_state_def demo_db_def names_within_def keys_within_def tasks_within_def empty_db_def)
  have "plays E fresh ?names [happy_path a, opt_out_story b c, payment_story e f] {}"
    using digest env room by (rule demo_plays)
  then obtain reports d' where run: "run_scenarios E fresh 0 ?names [happy_path a, opt_out_story b c, payment_story e f] ?d0
      = (Inr reports, d')" and wf: "wf_db d'" and told: "list_all as_announced reports"
    and "map sr_name reports = filter (\<lambda>x. x \<in> ?names) (map sc_name [happy_path a, opt_out_story b c, payment_story e f])"
    using start unfolding plays_def by blast
  note this(4)
  also have "filter (\<lambda>x. x \<in> ?names) (map sc_name [happy_path a, opt_out_story b c, payment_story e f]) =
      filter (\<lambda>name. values = None \<or> ''all'' \<in> set (the values) \<or> name \<in> set (the values))
        (map sc_name [happy_path a, opt_out_story b c, payment_story e f])"
    by (rule filter_cong [OF refl]) (auto simp: selected_scenarios_def split: option.splits)
  finally have "map sr_name reports = filter (\<lambda>name. values = None \<or> ''all'' \<in> set (the values)
      \<or> name \<in> set (the values)) (map sc_name [happy_path a, opt_out_story b c, payment_story e f])" .
  moreover have "seed_demo E fresh now False values d = (Inr reports, d')"
    using run by (simp add: seed_demo_def scs reset_database_empties)
  moreover have "\<forall>rep\<in>set reports. as_announced rep" using told by (simp add: list_all_iff)
  ultimately show ?thesis using wf unfolding as_announced_def names list.map by (intro exI [of _ reports] exI [of _ d']) blast
qed

text \<open>C39. The demo, started as a process against the application and the database it serves, exits with 0
  whatever the database held and whichever of its scenarios are chosen: emptying the tables violates no
  reference, every request it posts is accepted, and it prints the notice, one block of lines per chosen
  scenario in order, and the closing line.  The customer of the opt-out story ends without
  a task, the account of the payment story with none that is still scheduled.  No
  database but the one it was given changes.\<close>

theorem demo_runs_as_announced:
  assumes "\<And>s. length (h s) = 64"
    and "inj_on h ((\<lambda>x. ''demo_script'' @ [CHR 0x1F] @ x) ` demo_event_ids)"
    and "\<And>n. sha256_hexdigest (cl_env C n) = h \<and> fair_scan (cl_env C n)"
    and "\<And>n. \<exists>z. tzdb (cl_env C n) ''America/New_York'' = Inr z \<and> zone_sane z"
    and "days 20 \<le> now" and "now < days (days_in_range - 20)"
    and "cl_app C = fst (create_app ov st cache)" and "\<not> da_skip_reset args"
    and "demo_database_url args env_url s = served_url"
    and "\<And>vs. da_scenario args = Some vs \<Longrightarrow> set vs \<subseteq> set (''all'' # demo_story_names)"
  shows "\<exists>scenarios reports d'. demo_scenarios now = Inr scenarios \<and> map sc_name scenarios = demo_story_names
    \<and> demo_main C args env_url s served_url now servers =
        (\<lparr>exit_code = 0, stdout_lines = reset_notice
            # concat (map2 (report_lines (C\<lparr>cl_base_url := da_api_url args\<rparr>))
                (filter (\<lambda>sc. sc_name sc \<in> selected_scenarios scenarios (da_scenario args)) scenarios) reports)
            @ [farewell], failure = None\<rparr>, servers(served_url := d'))
    \<and> wf_db d' \<and> map sr_name reports = filter (\<lambda>name. name \<in> selected_scenarios scenarios (da_scenario args)) demo_story_names
    \<and> (\<forall>rep\<in>set reports. rs_status ` set (sr_responses rep) \<subseteq> {''accepted''}
        \<and> (sr_name rep = ''opt_out_blocks_future_outreach'' \<longrightarrow> sr_tasks rep = [])
        \<and> (sr_name rep = ''payment_received_cancels_scheduled_outreach'' \<longrightarrow>
             SCHEDULED \<notin> tr_status ` set (sr_tasks rep)))"
proof -
  obtain a b c e f where scs: "demo_scenarios now = Inr [happy_path a, opt_out_story b c, payment_story e f]"
    by (rule demo_scenarios_times [OF assms(5,6)])
  let ?scs = "[happy_path a, opt_out_story b c, payment_story e f]"
  have names: "map sc_name ?scs = demo_story_names"
    by (simp add: happy_path_def opt_out_story_def payment_story_def demo_story_names_def)
  from seed_demo_runs [of h "cl_env C" now "cl_fresh C" "da_scenario args" "servers served_url", OF assms(1-6)]
  obtain reports d' where run: "seed_demo (cl_env C) (cl_fresh C) now (da_skip_reset args) (da_scenario args) (servers served_url)
      = (Inr reports, d')" and told: "wf_db d'"
      "map sr_name reports = filter (\<lambda>name. da_scenario args = None \<or> ''all'' \<in> set (the (da_scenario args))
        \<or> name \<in> set (the (da_scenario args))) demo_story_names"
      "\<forall>rep\<in>set reports. rs_status ` set (sr_responses rep) \<subseteq> {''accepted''}
        \<and> (sr_name rep = ''opt_out_blocks_future_outreach'' \<longrightarrow> sr_tasks rep = [])
        \<and> (sr_name rep = ''payment_received_cancels_scheduled_outreach'' \<longrightarrow>
             SCHEDULED \<notin> tr_status ` set (sr_tasks rep))"
    using assms(8) unfolding demo_story_names_def by auto
  have "all_routers (cl_app C)"
    by (auto simp: assms(7) all_routers_def create_app_def Let_def split: option.split prod.split)
  moreover have "accepted_args ?scs args"
    using assms(10) names by (auto simp: accepted_args_def split: option.split)
  ultimately have main: "demo_main C args env_url s served_url now servers =
      (\<lparr>exit_code = 0, stdout_lines = reset_notice
          # concat (map2 (report_lines (C\<lparr>cl_base_url := da_api_url args\<rparr>))
              (filter (\<lambda>sc. sc_name sc \<in> selected_scenarios ?scs (da_scenario args)) ?scs) reports)
          @ [farewell], failure = None\<rparr>, servers(served_url := d'))"
    using demo_main_prints [of C now ?scs args env_url s served_url servers reports d', OF _ scs _ assms(9) run]
      assms(8) by simp
  have "filter (\<lambda>name. da_scenario args = None \<or> ''all'' \<in> set (the (da_scenario args))
        \<or> name \<in> set (the (da_scenario args))) demo_story_names =
      filter (\<lambda>name. name \<in> selected_scenarios ?scs (da_scenario args)) demo_story_names"
    unfolding names [symmetric]
    by (rule filter_cong [OF refl]) (auto simp: selected_scenarios_def split: option.splits)
  then show ?thesis using scs names main told by (intro exI conjI) (assumption | simp)+
qed

definition demo_client_sample :: demo_api_client where
  "demo_client_sample = \<lparr>cl_app = example_app, cl_env = (\<lambda>_. padded_env), cl_fresh = (\<lambda>n. n),
     cl_base_url = [], cl_error_text = (\<lambda>m. m), cl_json_time = (\<lambda>t. [])\<rparr>"

definition opt_out_demo :: demo_args where
  "opt_out_demo = default_demo_args\<lparr>da_database_url := Some ''db'',
     da_scenario := Some [''opt_out_blocks_future_outreach'']\<rparr>"

text \<open>One scenario, on a database that other tests have left full.\<close>

theorem demo_runs_as_announced_witness:
  "exit_code (fst (demo_main demo_client_sample opt_out_demo None (build_settings example_overrides) ''db'' (start_now sample_env)
      (\<lambda>_. sample_db [sample_event 4 ''payment_failed''] [sample_task 5 SENT]))) = 0"
proof -
  have padded_digest: "sha256_hexdigest padded_env = (\<lambda>s. take 64 (s @ replicate 64 CHR ''0''))"
    by (simp add: padded_env_def)
  let ?text = "\<lambda>x. ''demo_script'' @ [CHR 0x1F] @ x"
  let ?ids = "[''evt_demo_happy_path_delinquent'', ''evt_demo_opt_out_received'',
     ''evt_demo_opt_out_followup_delinquent'', ''evt_demo_payment_before_delinquent'', ''evt_demo_payment_received'']"
  have "distinct (map (\<lambda>s. take 64 (s @ replicate 64 CHR ''0'')) (map ?text ?ids))" by code_simp
  then have "inj_on (\<lambda>s. take 64 (s @ replicate 64 CHR ''0'')) (set (map ?text ?ids))" by (simp only: distinct_map)
  then have inj: "inj_on (sha256_hexdigest padded_env) (?text ` demo_event_ids)"
    by (simp only: padded_digest demo_event_ids_def set_map list.set)
  have len: "length (sha256_hexdigest padded_env s) = 64" for s by (simp add: padded_env_def)
  have fair: "sha256_hexdigest (cl_env demo_client_sample n) = sha256_hexdigest padded_env
      \<and> fair_scan (cl_env demo_client_sample n)" for n
    using fair_scan_sample by (simp add: demo_client_sample_def fair_scan_def padded_env_def)
  have zone: "\<exists>z. tzdb (cl_env demo_client_sample n) ''America/New_York'' = Inr z \<and> zone_sane z" for n
    by (simp add: demo_client_sample_def padded_env_def sample_env_def sample_tzdb_def zone_sane_def new_york_def)
  have now: "days 20 \<le> start_now sample_env" "start_now sample_env < days (days_in_range - 20)"
    by (simp_all add: sample_env_def days_in_range_def)
  have app: "cl_app demo_client_sample = fst (create_app example_overrides None None)"
    by (simp add: demo_client_sample_def example_app_def)
  show ?thesis
    using demo_runs_as_announced [OF len inj fair zone now app, of opt_out_demo None "build_settings example_overrides" "''db''"
        "\<lambda>_. sample_db [sample_event 4 ''payment_failed''] [sample_task 5 SENT]"]
    by (auto simp: opt_out_demo_def default_demo_args_def demo_database_url_def str_or_def demo_story_names_def)
qed

end
